(* ===== verification/Prelude.thy ===== *)
theory Prelude
  imports Main
begin

text \<open>
  Shared vocabulary of the development.

  Exceptions of the Python sources are values: an operation that may raise returns
  \<open>exn + 'a\<close>, \<open>Inl\<close> for the exception raised and \<open>Inr\<close> for the value returned. A handler
  that runs inside a database transaction returns its new state only under \<open>Inr\<close>; on
  \<open>Inl\<close> the caller keeps the state it had, which is the rollback.

  The theory also holds keyed tables (SQLite tables with a primary key, as lists of rows in
  insertion order) and three contracts as locales: a life cycle of states with absorbing
  final states, an idempotent store, and a capped meter.
\<close>

named_theorems table_simps \<open>lookup after insert and update of a keyed table\<close>
named_theorems res_simps \<open>inversion of the result monad\<close>

subsection \<open>Exceptions and results\<close>

datatype exn =
    ValueError string
  | TypeError string
  | KeyError string
  | RuntimeError string
  | ArithmeticError string
  | IntegrityError string

type_synonym 'a res = "exn + 'a"

definition ebind :: "'e + 'a \<Rightarrow> ('a \<Rightarrow> 'e + 'b) \<Rightarrow> 'e + 'b" where
  "ebind r f = (case r of Inl e \<Rightarrow> Inl e | Inr x \<Rightarrow> f x)"

lemma ebind_Inl [simp]: "ebind (Inl e) f = Inl e"
  by (simp add: ebind_def)

lemma ebind_Inr [simp]: "ebind (Inr x) f = f x"
  by (simp add: ebind_def)

lemma ebind_eq_Inr [res_simps]: "ebind r f = Inr y \<longleftrightarrow> (\<exists>x. r = Inr x \<and> f x = Inr y)"
  by (cases r) auto

lemma ebind_eq_Inl [res_simps]:
  "ebind r f = Inl e \<longleftrightarrow> r = Inl e \<or> (\<exists>x. r = Inr x \<and> f x = Inl e)"
  by (cases r) auto

lemma ebind_cong [fundef_cong]:
  "r = r' \<Longrightarrow> (\<And>x. r' = Inr x \<Longrightarrow> f x = f' x) \<Longrightarrow> ebind r f = ebind r' f'"
  by (cases r') auto

lemma if_Inl_eq_Inr [res_simps]: "(if b then Inl e else r) = Inr y \<longleftrightarrow> \<not> b \<and> r = Inr y"
  by simp

text \<open>\<open>ok r\<close>: the operation returned.\<close>

definition ok :: "'e + 'a \<Rightarrow> bool" where
  "ok r = (case r of Inl _ \<Rightarrow> False | Inr _ \<Rightarrow> True)"

lemma ok_simps [simp]: "ok (Inl e) = False" "ok (Inr x) = True"
  by (simp_all add: ok_def)

lemma ok_iff: "ok r \<longleftrightarrow> (\<exists>x. r = Inr x)"
  by (cases r) auto

definition of_option :: "'e \<Rightarrow> 'a option \<Rightarrow> 'e + 'a" where
  "of_option e x = (case x of None \<Rightarrow> Inl e | Some a \<Rightarrow> Inr a)"

lemma of_option_simps [simp]: "of_option e None = Inl e" "of_option e (Some a) = Inr a"
  by (simp_all add: of_option_def)

lemma of_option_eq_Inr [res_simps]: "of_option e x = Inr a \<longleftrightarrow> x = Some a"
  by (cases x) auto

text \<open>A check on a value that may be absent.\<close>

definition opt_all :: "('a \<Rightarrow> bool) \<Rightarrow> 'a option \<Rightarrow> bool" where
  "opt_all P x = (case x of None \<Rightarrow> True | Some a \<Rightarrow> P a)"

fun foldr_res :: "('s \<Rightarrow> 'a \<Rightarrow> 'e + 's) \<Rightarrow> 's \<Rightarrow> 'a list \<Rightarrow> 'e + 's" where
  "foldr_res f s [] = Inr s"
| "foldr_res f s (x # xs) = ebind (f s x) (\<lambda>s'. foldr_res f s' xs)"

lemma foldr_res_append:
  "foldr_res f s (xs @ ys) = ebind (foldr_res f s xs) (\<lambda>s'. foldr_res f s' ys)"
proof (induction xs arbitrary: s)
  case Nil
  then show ?case by simp
next
  case (Cons x xs)
  then show ?case by (cases "f s x") simp_all
qed

lemma foldr_res_snoc: "foldr_res f s (xs @ [x]) = ebind (foldr_res f s xs) (\<lambda>s'. f s' x)"
proof -
  have "\<And>r. ebind r Inr = (r :: 'a + 'b)" by (case_tac r) simp_all
  then show ?thesis by (simp add: foldr_res_append)
qed

lemma foldr_res_cong:
  assumes "\<And>s x. x \<in> set xs \<Longrightarrow> f s x = g s x"
  shows "foldr_res f s xs = foldr_res g s xs"
  using assms
proof (induction xs arbitrary: s)
  case Nil
  then show ?case by simp
next
  case (Cons x xs)
  then show ?case by (cases "g s x") simp_all
qed

fun map_res :: "('a \<Rightarrow> 'e + 'b) \<Rightarrow> 'a list \<Rightarrow> 'e + 'b list" where
  "map_res f [] = Inr []"
| "map_res f (x # xs) = ebind (f x) (\<lambda>y. ebind (map_res f xs) (\<lambda>ys. Inr (y # ys)))"

lemma map_res_Inr: "(\<And>x. x \<in> set xs \<Longrightarrow> f x = Inr (g x)) \<Longrightarrow> map_res f xs = Inr (map g xs)"
  by (induction xs) simp_all

lemma map_res_length: "map_res f xs = Inr ys \<Longrightarrow> length ys = length xs"
  by (induction xs arbitrary: ys) (auto simp: res_simps)

subsection \<open>Keyed tables\<close>

text \<open>A table is the list of its rows in insertion (rowid) order; \<open>key\<close> reads the primary key.\<close>

definition row_get :: "('r \<Rightarrow> 'k) \<Rightarrow> 'k \<Rightarrow> 'r list \<Rightarrow> 'r option" where
  "row_get key k t = find (\<lambda>r. key r = k) t"

definition row_upd :: "('r \<Rightarrow> 'k) \<Rightarrow> 'k \<Rightarrow> ('r \<Rightarrow> 'r) \<Rightarrow> 'r list \<Rightarrow> 'r list" where
  "row_upd key k f t = map (\<lambda>r. if key r = k then f r else r) t"

lemma row_get_Nil [simp]: "row_get key k [] = None"
  by (simp add: row_get_def)

lemma row_get_Cons [simp]: "row_get key k (r # t) = (if key r = k then Some r else row_get key k t)"
  by (simp add: row_get_def)

lemma row_get_append [table_simps]:
  "row_get key k (t @ u) = (case row_get key k t of None \<Rightarrow> row_get key k u | Some r \<Rightarrow> Some r)"
  by (induction t) auto

lemma row_get_Some_key: "row_get key k t = Some r \<Longrightarrow> key r = k \<and> r \<in> set t"
  by (induction t) (auto split: if_splits)

lemma row_get_None_iff: "row_get key k t = None \<longleftrightarrow> k \<notin> key ` set t"
  by (induction t) auto

lemma row_upd_Nil [simp]: "row_upd key k f [] = []"
  by (simp add: row_upd_def)

lemma row_upd_Cons [simp]:
  "row_upd key k f (r # t) = (if key r = k then f r else r) # row_upd key k f t"
  by (simp add: row_upd_def)

lemma row_get_upd [table_simps]:
  assumes "\<And>r. key (f r) = key r"
  shows "row_get key k' (row_upd key k f t) =
    (if k' = k then map_option f (row_get key k t) else row_get key k' t)"
  by (induction t) (auto simp: assms)

lemma keys_upd [table_simps]:
  assumes "\<And>r. key (f r) = key r"
  shows "map key (row_upd key k f t) = map key t"
  by (induction t) (auto simp: assms)

lemma row_get_unique: "distinct (map key t) \<Longrightarrow> r \<in> set t \<Longrightarrow> row_get key (key r) t = Some r"
  by (induction t) (auto simp: image_iff)

lemma set_row_upd: "x \<in> set (row_upd key k f t) \<Longrightarrow> x \<in> set t \<or> (\<exists>r \<in> set t. key r = k \<and> x = f r)"
  by (induction t) auto

lemma row_upd_id: "k \<notin> key ` set t \<Longrightarrow> row_upd key k f t = t"
  by (induction t) auto

lemma filter_row_upd_other:
  assumes "\<And>r. key r = k \<Longrightarrow> \<not> P r" and "\<And>r. key r = k \<Longrightarrow> \<not> P (f r)"
  shows "filter P (row_upd key k f t) = filter P t"
  by (induction t) (auto simp: assms)

lemma row_upd_subset:
  assumes "row_get key k t = Some r" "distinct (map key t)"
  shows "set (row_upd key k f t) \<subseteq> insert (f r) (set t)"
  using assms
proof (induction t)
  case Nil
  then show ?case by simp
next
  case (Cons a t)
  show ?case
  proof (cases "key a = k")
    case True
    with Cons.prems have "k \<notin> key ` set t" "a = r" by auto
    with True show ?thesis by (auto simp: row_upd_id)
  next
    case False
    with Cons show ?thesis by auto
  qed
qed

lemma sum_row_upd:
  fixes f :: "'r \<Rightarrow> int"
  assumes "row_get key k t = Some r" "distinct (map key t)"
  shows "(\<Sum>x\<leftarrow>row_upd key k g t. f x) = (\<Sum>x\<leftarrow>t. f x) - f r + f (g r)"
  using assms
proof (induction t)
  case Nil
  then show ?case by simp
next
  case (Cons a t)
  show ?case
  proof (cases "key a = k")
    case True
    with Cons.prems have "k \<notin> key ` set t" "a = r" by auto
    with True show ?thesis by (simp add: row_upd_id)
  next
    case False
    with Cons show ?thesis by simp
  qed
qed

lemma member_le_sum_int:
  fixes f :: "'r \<Rightarrow> int"
  shows "x \<in> set t \<Longrightarrow> (\<And>y. y \<in> set t \<Longrightarrow> 0 \<le> f y) \<Longrightarrow> f x \<le> (\<Sum>y\<leftarrow>t. f y)"
proof (induction t)
  case Nil
  then show ?case by simp
next
  case (Cons a t)
  have "0 \<le> (\<Sum>y\<leftarrow>t. f y)" using Cons.prems(2) by (intro sum_list_nonneg) auto
  moreover have "f x \<le> (\<Sum>y\<leftarrow>t. f y)" if "x \<in> set t" using that Cons by simp
  moreover have "0 \<le> f a" using Cons.prems(2) by simp
  ultimately show ?case using Cons.prems(1) by fastforce
qed

subsection \<open>Contract: life cycles\<close>

text \<open>
  A life cycle is a transition relation on states with final states no transition leaves and
  a rank no transition lowers. Its clients walk along the relation one transition at a time.
\<close>

locale life_cycle =
  fixes allowed :: "'s \<Rightarrow> 's \<Rightarrow> bool"
    and final_state :: "'s \<Rightarrow> bool"
    and rank :: "'s \<Rightarrow> nat"
  assumes final_stuck: "final_state s \<Longrightarrow> \<not> allowed s t"
    and rank_mono: "allowed s t \<Longrightarrow> rank s \<le> rank t"
begin

fun walk :: "'s \<Rightarrow> 's list \<Rightarrow> bool" where
  "walk s [] = True"
| "walk s (t # ts) = (allowed s t \<and> walk t ts)"

lemma walk_append: "walk s (xs @ ys) \<longleftrightarrow> walk s xs \<and> walk (last (s # xs)) ys"
  by (induction xs arbitrary: s) auto

lemma walk_final: "final_state s \<Longrightarrow> walk s ts \<Longrightarrow> ts = []"
  by (cases ts) (auto dest: final_stuck)

lemma walk_rank: "walk s ts \<Longrightarrow> t \<in> set ts \<Longrightarrow> rank s \<le> rank t"
  by (induction ts arbitrary: s) (auto dest: rank_mono intro: order_trans)

lemma walk_no_return: "walk s ts \<Longrightarrow> rank u < rank s \<Longrightarrow> u \<notin> set ts"
  using walk_rank leD by blast

lemma walk_final_last: "walk s (xs @ t # ys) \<Longrightarrow> final_state t \<Longrightarrow> ys = []"
  by (auto simp: walk_append dest: walk_final)

end

subsection \<open>Contract: idempotent stores\<close>

text \<open>
  A store that accepts each message at most once: a message accepted in a good state is
  \<^emph>\<open>settled\<close> there, a settled message leaves the state as it is, and no later message
  unsettles it. Redelivering messages that were accepted before is then harmless.
\<close>

locale idempotent_store =
  fixes accept :: "'m \<Rightarrow> 's \<Rightarrow> 'e + 's"
    and settled :: "'m \<Rightarrow> 's \<Rightarrow> bool"
    and good :: "'s \<Rightarrow> bool"
  assumes accept_good: "good s \<Longrightarrow> accept m s = Inr s' \<Longrightarrow> good s'"
    and accept_settles: "good s \<Longrightarrow> accept m s = Inr s' \<Longrightarrow> settled m s'"
    and settled_noop: "good s \<Longrightarrow> settled m s \<Longrightarrow> accept m s = Inr s"
    and settled_stable: "good s \<Longrightarrow> settled m s \<Longrightarrow> accept m' s = Inr s' \<Longrightarrow> settled m s'"
begin

lemma run_good: "good s \<Longrightarrow> foldr_res (\<lambda>s m. accept m s) s ms = Inr s' \<Longrightarrow> good s'"
  by (induction ms arbitrary: s) (auto simp: res_simps dest: accept_good)

lemma run_settled_stable:
  "good s \<Longrightarrow> settled m s \<Longrightarrow> foldr_res (\<lambda>s m. accept m s) s ms = Inr s' \<Longrightarrow> settled m s'"
  by (induction ms arbitrary: s) (auto simp: res_simps dest: accept_good settled_stable)

lemma run_settles:
  "good s \<Longrightarrow> foldr_res (\<lambda>s m. accept m s) s ms = Inr s' \<Longrightarrow> m \<in> set ms \<Longrightarrow> settled m s'"
proof (induction ms arbitrary: s)
  case Nil
  then show ?case by simp
next
  case (Cons x ms)
  then obtain t where t: "accept x s = Inr t" "foldr_res (\<lambda>s m. accept m s) t ms = Inr s'"
    by (auto simp: res_simps)
  from accept_good [OF Cons.prems(1) t(1)] have good: "good t" .
  show ?case
  proof (cases "m \<in> set ms")
    case True
    with t good Cons.IH show ?thesis by blast
  next
    case False
    with Cons.prems have "m = x" by simp
    with t good Cons.prems(1) show ?thesis by (blast intro: accept_settles run_settled_stable)
  qed
qed

lemma settled_run_noop:
  "good s \<Longrightarrow> (\<And>m. m \<in> set ms \<Longrightarrow> settled m s) \<Longrightarrow> foldr_res (\<lambda>s m. accept m s) s ms = Inr s"
  by (induction ms) (simp_all add: settled_noop)

lemma redelivery:
  assumes "good s" "foldr_res (\<lambda>s m. accept m s) s ms = Inr s'" and "set ds \<subseteq> set ms"
  shows "foldr_res (\<lambda>s m. accept m s) s' ds = Inr s'"
  using assms by (intro settled_run_noop) (auto intro: run_settles run_good)

end

subsection \<open>Contract: capped meters\<close>

text \<open>
  A meter charges a budget. Every step keeps its charge within the cap or leaves the charge
  as low as it was; the run then never exceeds the cap if it started within it.
\<close>

locale capped_meter =
  fixes step :: "'op \<Rightarrow> 's \<Rightarrow> 's"
    and charge :: "'s \<Rightarrow> int"
    and cap :: int
    and good :: "'s \<Rightarrow> bool"
    and honest :: "'op \<Rightarrow> 's \<Rightarrow> bool"
  assumes step_good: "good s \<Longrightarrow> honest x s \<Longrightarrow> good (step x s)"
    and step_charge: "good s \<Longrightarrow> honest x s \<Longrightarrow> charge (step x s) \<le> max (charge s) cap"
begin

fun run :: "'op list \<Rightarrow> 's \<Rightarrow> 's" where
  "run [] s = s"
| "run (x # xs) s = run xs (step x s)"

fun honest_run :: "'op list \<Rightarrow> 's \<Rightarrow> bool" where
  "honest_run [] s = True"
| "honest_run (x # xs) s = (honest x s \<and> honest_run xs (step x s))"

lemma run_within_cap:
  assumes "good s" "charge s \<le> cap" "honest_run xs s"
  shows "good (run xs s) \<and> charge (run xs s) \<le> cap"
  using assms
proof (induction xs arbitrary: s)
  case Nil
  then show ?case by simp
next
  case (Cons x xs)
  then have "charge (step x s) \<le> cap"
    using step_charge [of s x] by simp
  with Cons show ?case by (simp add: step_good)
qed

end

subsection \<open>Contract: gates that fail closed\<close>

text \<open>
  A gate wraps an attempt that may raise: its answer is the attempt's when there is one, and an
  exception never passes. A client that saw the gate pass knows that the attempt ran to its end.
\<close>

locale fail_closed =
  fixes attempt :: "'x \<Rightarrow> 'e + 'd"
    and final :: "'x \<Rightarrow> 'd"
    and passed :: "'d \<Rightarrow> bool"
  assumes answers: "attempt x = Inr d \<Longrightarrow> final x = d"
    and refuses: "attempt x = Inl e \<Longrightarrow> \<not> passed (final x)"
begin

lemma passed_iff: "passed (final x) \<longleftrightarrow> (\<exists>d. attempt x = Inr d \<and> passed d)"
  by (cases "attempt x") (auto simp: answers dest: refuses)

lemma attempt_decides: "attempt x = Inr d \<Longrightarrow> passed (final x) \<longleftrightarrow> passed d"
  by (simp add: answers)

end

end
