(* ===== verification/PyText.thy ===== *)
theory PyText
  imports Prelude
begin

text \<open>
  Text as the sources use it: \<open>str.strip\<close>, the anchored identifier patterns, decimal digits
  and the text of a Python \<open>int\<close>. A Python string is a \<open>string\<close>, one \<open>char\<close> per code point
  (code points 0 to 255).
\<close>

subsection \<open>Character classes and patterns\<close>

definition is_digit :: "char \<Rightarrow> bool" where
  "is_digit c \<longleftrightarrow> c \<in> set ''0123456789''"

definition is_upper :: "char \<Rightarrow> bool" where
  "is_upper c \<longleftrightarrow> 65 \<le> (of_char c :: nat) \<and> (of_char c :: nat) \<le> 90"

definition is_lower :: "char \<Rightarrow> bool" where
  "is_lower c \<longleftrightarrow> 97 \<le> (of_char c :: nat) \<and> (of_char c :: nat) \<le> 122"

definition is_space :: "char \<Rightarrow> bool" where
  "is_space c \<longleftrightarrow> (let n = (of_char c :: nat) in n = 32 \<or> (9 \<le> n \<and> n \<le> 13) \<or> (28 \<le> n \<and> n \<le> 31) \<or> n = 133 \<or> n = 160)"

definition control :: "char \<Rightarrow> bool" where
  "control c \<longleftrightarrow> (of_char c :: nat) < 32"

definition lstrip :: "string \<Rightarrow> string" where
  "lstrip s = dropWhile is_space s"

definition strip :: "string \<Rightarrow> string" where
  "strip s = rev (lstrip (rev (lstrip s)))"

text \<open>\<open>[A-Za-z0-9._:-]{1,n}\<close>, the identifier pattern of every durable store.\<close>

definition id_char :: "char \<Rightarrow> bool" where
  "id_char c \<longleftrightarrow> is_upper c \<or> is_lower c \<or> is_digit c \<or> c \<in> set ''._:-''"

definition id_match :: "nat \<Rightarrow> string \<Rightarrow> bool" where
  "id_match n s \<longleftrightarrow> 1 \<le> length s \<and> length s \<le> n \<and> list_all id_char s"

text \<open>\<open>[0-9a-f]{64}\<close>, a SHA-256 digest in hexadecimal.\<close>

definition sha_match :: "string \<Rightarrow> bool" where
  "sha_match s \<longleftrightarrow> length s = 64 \<and> list_all (\<lambda>c. c \<in> set ''0123456789abcdef'') s"

text \<open>\<open>[A-Z]{3}\<close> and \<open>[A-Z][A-Z0-9_]{1,63}\<close>, currencies and account codes.\<close>

definition currency_match :: "string \<Rightarrow> bool" where
  "currency_match s \<longleftrightarrow> length s = 3 \<and> list_all is_upper s"

definition account_match :: "string \<Rightarrow> bool" where
  "account_match s \<longleftrightarrow> 2 \<le> length s \<and> length s \<le> 64 \<and> is_upper (hd s) \<and>
     list_all (\<lambda>c. is_upper c \<or> is_digit c \<or> c = CHR ''_'') (tl s)"

definition starts_with :: "string \<Rightarrow> string \<Rightarrow> bool" where
  "starts_with p s \<longleftrightarrow> take (length p) s = p"

lemma id_match_nonempty: "id_match n s \<Longrightarrow> s \<noteq> []"
  by (auto simp: id_match_def)

lemma strip_Nil [simp]: "strip [] = []"
  by (simp add: strip_def lstrip_def)

subsection \<open>Decimal digits\<close>

definition digit_char :: "nat \<Rightarrow> char" where
  "digit_char n = ''0123456789'' ! n"

definition digit_val :: "char \<Rightarrow> nat" where
  "digit_val c = of_char c - 48"

lemma less_10_cases: "n < 10 \<Longrightarrow> n = 0 \<or> n = 1 \<or> n = 2 \<or> n = 3 \<or> n = 4 \<or> n = 5 \<or> n = 6 \<or> n = 7
    \<or> n = 8 \<or> n = (9::nat)"
  by arith

lemma digit_char_facts:
  assumes "n < 10"
  shows "is_digit (digit_char n)" "digit_val (digit_char n) = n"
  using less_10_cases [OF assms]
  by (auto simp: is_digit_def digit_char_def digit_val_def numeral_nat nth_Cons')

fun show_nat :: "nat \<Rightarrow> string" where
  "show_nat n = (if n < 10 then [digit_char n] else show_nat (n div 10) @ [digit_char (n mod 10)])"

declare show_nat.simps [simp del]

definition read_nat :: "string \<Rightarrow> nat" where
  "read_nat s = foldl (\<lambda>a c. a * 10 + digit_val c) 0 s"

lemma read_nat_snoc: "read_nat (s @ [c]) = read_nat s * 10 + digit_val c"
  by (simp add: read_nat_def)

lemma read_nat_Nil [simp]: "read_nat [] = 0"
  by (simp add: read_nat_def)

lemma foldl_zeros: "foldl (\<lambda>a c. a * 10 + digit_val c) 0 (replicate n (CHR ''0'') @ s)
    = foldl (\<lambda>a c. a * 10 + digit_val c) 0 s"
  by (induction n) (simp_all add: digit_val_def del: foldl_append)

lemma read_nat_zeros [simp]: "read_nat (replicate n (CHR ''0'') @ s) = read_nat s"
  unfolding read_nat_def by (rule foldl_zeros)

lemma read_show_nat [simp]: "read_nat (show_nat n) = n"
proof (induction n rule: show_nat.induct)
  case (1 n)
  show ?case
  proof (cases "n < 10")
    case True
    then show ?thesis
      by (simp add: show_nat.simps [of n] read_nat_def digit_char_facts)
  next
    case False
    with "1.IH" have "read_nat (show_nat (n div 10)) = n div 10" by simp
    with False show ?thesis
      by (simp add: show_nat.simps [of n] read_nat_snoc digit_char_facts)
  qed
qed

lemma show_nat_digits: "list_all is_digit (show_nat n)"
proof (induction n rule: show_nat.induct)
  case (1 n)
  then show ?case
    by (cases "n < 10") (simp_all add: show_nat.simps [of n] digit_char_facts)
qed

lemma show_nat_nonempty [simp]: "show_nat n \<noteq> []"
  by (simp add: show_nat.simps)

lemma show_nat_inj [simp]: "show_nat m = show_nat n \<longleftrightarrow> m = n"
  by (metis read_show_nat)

lemma digit_not_special: "is_digit c \<Longrightarrow> c \<noteq> CHR ''-'' \<and> c \<noteq> CHR ''.'' \<and> c \<noteq> CHR ''E'' \<and> c \<noteq> CHR ''e''
    \<and> c \<noteq> CHR ''+'' \<and> \<not> is_space c \<and> c \<noteq> CHR ''_'' \<and> c \<noteq> CHR ''\"''"
  by (auto simp: is_digit_def is_space_def)

lemma digits_zeros: "list_all is_digit (replicate k (CHR ''0''))"
  by (induction k) (simp_all add: is_digit_def)

definition ndigits :: "nat \<Rightarrow> nat" where
  "ndigits n = length (show_nat n)"

lemma ndigits_pos [simp]: "0 < ndigits n"
  by (simp add: ndigits_def)

lemma ndigits_rec: "ndigits n = (if n < 10 then 1 else Suc (ndigits (n div 10)))"
  by (simp add: ndigits_def show_nat.simps [of n])

lemma less_power_ndigits: "n < 10 ^ ndigits n"
proof (induction n rule: show_nat.induct)
  case (1 n)
  show ?case
  proof (cases "n < 10")
    case True
    then show ?thesis by (simp add: ndigits_rec [of n])
  next
    case False
    with "1.IH" have "n div 10 < 10 ^ ndigits (n div 10)" by simp
    then have "n < 10 ^ ndigits (n div 10) * 10" by (simp add: less_mult_imp_div_less div_less_iff_less_mult)
    with False show ?thesis by (simp add: ndigits_rec [of n] mult.commute)
  qed
qed

lemma power_ndigits_le: "0 < n \<Longrightarrow> 10 ^ (ndigits n - 1) \<le> n"
proof (induction n rule: show_nat.induct)
  case (1 n)
  show ?case
  proof (cases "n < 10")
    case True
    with "1.prems" show ?thesis by (simp add: ndigits_rec [of n])
  next
    case False
    with "1.IH" have "10 ^ (ndigits (n div 10) - 1) \<le> n div 10" by simp
    then have "10 ^ (ndigits (n div 10) - 1) * 10 \<le> n" by (simp add: less_eq_div_iff_mult_less_eq)
    moreover have "ndigits n - 1 = Suc (ndigits (n div 10) - 1)"
      using False ndigits_pos [of "n div 10"] by (simp add: ndigits_rec [of n])
    ultimately show ?thesis by (metis mult.commute power_Suc)
  qed
qed

lemma ndigits_le: "n < 10 ^ k \<Longrightarrow> 0 < k \<Longrightarrow> ndigits n \<le> k"
proof (rule ccontr)
  assume n: "n < 10 ^ k" "0 < k" "\<not> ndigits n \<le> k"
  show False
  proof (cases "n = 0")
    case True
    with n show False by (simp add: ndigits_rec [of 0])
  next
    case False
    then have "10 ^ (ndigits n - 1) \<le> n" using power_ndigits_le by blast
    moreover have "(10::nat) ^ k \<le> 10 ^ (ndigits n - 1)"
      using n by (intro power_increasing) auto
    ultimately show False using n by linarith
  qed
qed

subsection \<open>Text of integers\<close>

definition show_int :: "int \<Rightarrow> string" where
  "show_int i = (if i < 0 then CHR ''-'' # show_nat (nat (- i)) else show_nat (nat i))"

lemma show_nat_hd: "is_digit (hd (show_nat n))"
  using show_nat_digits [of n] by (cases "show_nat n") auto

lemma show_int_inj [simp]: "show_int i = show_int j \<longleftrightarrow> i = j"
proof -
  have neg: "CHR ''-'' # s \<noteq> show_nat n" for s n
    using show_nat_hd [of n] digit_not_special by (metis list.sel(1))
  then show ?thesis
    using neg [symmetric] by (auto simp: show_int_def nat_eq_iff)
qed

end
