(* ===== verification/Decimal28.thy ===== *)
theory Decimal28
  imports PyText Complex_Main
begin

text \<open>
  The finite values of Python's \<open>decimal.Decimal\<close> under the default context: a sign, a
  coefficient and an exponent, arithmetic rounded half-even to 28 significant digits, exact
  numeric comparison, and the text \<open>str\<close> writes and the constructor reads. Infinities and
  NaN are outside the type; the reader reports them as \<open>NonFinite\<close>, which is what every
  \<open>is_finite\<close> guard of the sources refuses. The exponent is unbounded (the context's limits
  of 999999 are not modelled).
\<close>

subsection \<open>Values, comparison\<close>

datatype dec = Fin (dsign: bool) (dcoef: nat) (dexp: int)

text \<open>\<open>scaled m x\<close> is \<open>x\<close> as an integer multiple of \<open>10 ^ m\<close>, for \<open>m\<close> at most its exponent.\<close>

definition signed :: "bool \<Rightarrow> nat \<Rightarrow> int" where
  "signed s c = (if s then - int c else int c)"

definition scaled :: "int \<Rightarrow> dec \<Rightarrow> int" where
  "scaled m x = signed (dsign x) (dcoef x) * 10 ^ nat (dexp x - m)"

definition low_exp :: "dec \<Rightarrow> dec \<Rightarrow> int" where
  "low_exp x y = min (dexp x) (dexp y)"

definition dlt :: "dec \<Rightarrow> dec \<Rightarrow> bool" where
  "dlt x y \<longleftrightarrow> scaled (low_exp x y) x < scaled (low_exp x y) y"

definition dle :: "dec \<Rightarrow> dec \<Rightarrow> bool" where
  "dle x y \<longleftrightarrow> scaled (low_exp x y) x \<le> scaled (low_exp x y) y"

definition deq :: "dec \<Rightarrow> dec \<Rightarrow> bool" where
  "deq x y \<longleftrightarrow> scaled (low_exp x y) x = scaled (low_exp x y) y"

definition dec_of_int :: "int \<Rightarrow> dec" where
  "dec_of_int i = Fin (i < 0) (nat \<bar>i\<bar>) 0"

definition dzero :: dec where
  "dzero = Fin False 0 0"

definition dpos :: "dec \<Rightarrow> bool" where
  "dpos x \<longleftrightarrow> dlt dzero x"

definition dmax :: "dec \<Rightarrow> dec \<Rightarrow> dec" where
  "dmax x y = (if dlt x y then y else x)"

definition dmin :: "dec \<Rightarrow> dec \<Rightarrow> dec" where
  "dmin x y = (if dlt y x then y else x)"

text \<open>The exact value, used by statements only.\<close>

definition ten_pow :: "int \<Rightarrow> rat" where
  "ten_pow e = (if 0 \<le> e then 10 ^ nat e else 1 / 10 ^ nat (- e))"

definition dval :: "dec \<Rightarrow> rat" where
  "dval x = of_int (signed (dsign x) (dcoef x)) * ten_pow (dexp x)"

lemma ten_pow_pos [simp]: "0 < ten_pow e"
  by (simp add: ten_pow_def)

lemma ten_pow_signs [simp]: "\<not> ten_pow e < 0" "ten_pow e \<noteq> 0" "0 \<le> ten_pow e"
  using ten_pow_pos [of e] by linarith+

lemma ten_pow_add: "m \<le> e \<Longrightarrow> ten_pow e = 10 ^ nat (e - m) * ten_pow m"
proof -
  assume le: "m \<le> e"
  consider "0 \<le> m" | "m < 0" "0 \<le> e" | "e < 0" by linarith
  then show ?thesis
  proof cases
    case 1
    with le have "nat e = nat (e - m) + nat m" by simp
    then have "(10::rat) ^ nat e = 10 ^ nat (e - m) * 10 ^ nat m" by (simp add: power_add)
    with 1 le show ?thesis by (simp add: ten_pow_def)
  next
    case 2
    then have "nat (e - m) = nat e + nat (- m)" by simp
    then have "(10::rat) ^ nat (e - m) = 10 ^ nat e * 10 ^ nat (- m)" by (simp add: power_add)
    with 2 show ?thesis by (simp add: ten_pow_def)
  next
    case 3
    with le have "nat (- m) = nat (e - m) + nat (- e)" by simp
    then have "(10::rat) ^ nat (- m) = 10 ^ nat (e - m) * 10 ^ nat (- e)" by (simp add: power_add)
    with 3 le show ?thesis by (simp add: ten_pow_def field_simps)
  qed
qed

lemma dval_scaled: "m \<le> dexp x \<Longrightarrow> dval x = of_int (scaled m x) * ten_pow m"
  by (simp add: dval_def scaled_def ten_pow_add [of m "dexp x"])

lemma dlt_dval: "dlt x y \<longleftrightarrow> dval x < dval y"
proof -
  have "low_exp x y \<le> dexp x" "low_exp x y \<le> dexp y" by (simp_all add: low_exp_def)
  then show ?thesis by (simp add: dlt_def dval_scaled)
qed

lemma dle_dval: "dle x y \<longleftrightarrow> dval x \<le> dval y"
proof -
  have "low_exp x y \<le> dexp x" "low_exp x y \<le> dexp y" by (simp_all add: low_exp_def)
  then show ?thesis by (simp add: dle_def dval_scaled)
qed

lemma deq_dval: "deq x y \<longleftrightarrow> dval x = dval y"
proof -
  have le: "low_exp x y \<le> dexp x" "low_exp x y \<le> dexp y" by (simp_all add: low_exp_def)
  have "ten_pow (low_exp x y) \<noteq> 0" using ten_pow_pos by (metis less_irrefl)
  then show ?thesis by (simp add: deq_def dval_scaled [OF le(1)] dval_scaled [OF le(2)])
qed

lemma dval_zero [simp]: "dval dzero = 0"
  by (simp add: dval_def dzero_def signed_def)

lemma dval_of_int [simp]: "dval (dec_of_int i) = of_int i"
  by (simp add: dval_def dec_of_int_def signed_def ten_pow_def)

lemma deq_refl [simp]: "deq x x"
  by (simp add: deq_def)

lemma deq_sym: "deq x y = deq y x"
  by (auto simp: deq_dval)

lemma dval_pos: "dpos x \<longleftrightarrow> 0 < dval x"
  by (simp add: dpos_def dlt_dval)

lemma dval_sign: "dval (Fin s c e) = (if s then - (of_nat c * ten_pow e) else of_nat c * ten_pow e)"
  by (simp add: dval_def signed_def)

lemma dval_max: "dval (dmax x y) = max (dval x) (dval y)"
  by (simp add: dmax_def dlt_dval max_def not_less)

lemma dval_min: "dval (dmin x y) = min (dval x) (dval y)"
  by (auto simp: dmin_def dlt_dval min_def not_less)

lemmas dec_order = dlt_dval dle_dval deq_dval dval_pos dval_max dval_min

subsection \<open>Rounding to the context precision\<close>

definition prec :: nat where
  "prec = 28"

text \<open>\<open>half_even c k\<close>: the coefficient \<open>c\<close> with its last \<open>k\<close> digits rounded away.\<close>

definition half_even :: "nat \<Rightarrow> nat \<Rightarrow> nat" where
  "half_even c k =
     (let q = c div 10 ^ k; r = c mod 10 ^ k
      in if 10 ^ k < 2 * r \<or> (2 * r = 10 ^ k \<and> odd q) then q + 1 else q)"

definition dfix :: "dec \<Rightarrow> dec" where
  "dfix x =
     (let n = ndigits (dcoef x) in
      if n \<le> prec then x
      else let k = n - prec; q = half_even (dcoef x) k in
        if prec < ndigits q then Fin (dsign x) (q div 10) (dexp x + int k + 1)
        else Fin (dsign x) q (dexp x + int k))"

definition dadd :: "dec \<Rightarrow> dec \<Rightarrow> dec" where
  "dadd x y =
     (let m = low_exp x y; v = scaled m x + scaled m y;
          s = (if v = 0 then dsign x \<and> dsign y else v < 0)
      in dfix (Fin s (nat \<bar>v\<bar>) m))"

definition dcopy_neg :: "dec \<Rightarrow> dec" where
  "dcopy_neg x = Fin (\<not> dsign x) (dcoef x) (dexp x)"

definition dsub :: "dec \<Rightarrow> dec \<Rightarrow> dec" where
  "dsub x y = dadd x (dcopy_neg y)"

text \<open>Unary minus and \<open>abs\<close> round like every operation, and never give a negative zero.\<close>

definition dminus :: "dec \<Rightarrow> dec" where
  "dminus x = dfix (Fin (\<not> dsign x \<and> dcoef x \<noteq> 0) (dcoef x) (dexp x))"

definition dabs :: "dec \<Rightarrow> dec" where
  "dabs x = dfix (Fin False (dcoef x) (dexp x))"

definition dmul :: "dec \<Rightarrow> dec \<Rightarrow> dec" where
  "dmul x y = dfix (Fin (dsign x \<noteq> dsign y) (dcoef x * dcoef y) (dexp x + dexp y))"

text \<open>Division: a quotient of \<open>prec + 1\<close> digits with a sticky last digit, or the exact
  quotient brought towards the ideal exponent.\<close>

fun strip_zeros :: "nat \<Rightarrow> nat \<Rightarrow> int \<Rightarrow> int \<Rightarrow> nat \<times> int" where
  "strip_zeros 0 c e ideal = (c, e)"
| "strip_zeros (Suc n) c e ideal =
     (if e < ideal \<and> c mod 10 = 0 then strip_zeros n (c div 10) (e + 1) ideal else (c, e))"

definition ddiv :: "dec \<Rightarrow> dec \<Rightarrow> dec res" where
  "ddiv x y =
     (if dcoef y = 0 then Inl (ArithmeticError ''division by zero'')
      else if dcoef x = 0 then Inr (Fin (dsign x \<noteq> dsign y) 0 (dexp x - dexp y))
      else
        let shift = int (ndigits (dcoef y)) - int (ndigits (dcoef x)) + int prec + 1;
            e = dexp x - dexp y - shift;
            n = (if 0 \<le> shift then dcoef x * 10 ^ nat shift else dcoef x);
            d = (if 0 \<le> shift then dcoef y else dcoef y * 10 ^ nat (- shift));
            q = n div d
        in if n mod d \<noteq> 0
           then Inr (dfix (Fin (dsign x \<noteq> dsign y) (if q mod 5 = 0 then q + 1 else q) e))
           else case strip_zeros (nat (dexp x - dexp y - e)) q e (dexp x - dexp y) of
             (c, e') \<Rightarrow> Inr (dfix (Fin (dsign x \<noteq> dsign y) c e')))"

text \<open>\<open>int(x.to_integral_value(ROUND_FLOOR))\<close>.\<close>

definition dfloor :: "dec \<Rightarrow> int" where
  "dfloor x = (if 0 \<le> dexp x then signed (dsign x) (dcoef x) * 10 ^ nat (dexp x)
               else signed (dsign x) (dcoef x) div 10 ^ nat (- dexp x))"

definition dsum :: "dec list \<Rightarrow> dec" where
  "dsum xs = foldl dadd dzero xs"

lemma dfix_small: "ndigits (dcoef x) \<le> prec \<Longrightarrow> dfix x = x"
  by (simp add: dfix_def)

lemma half_even_pos: "10 ^ k \<le> c \<Longrightarrow> 0 < half_even c k"
  by (simp add: half_even_def Let_def div_greater_zero_iff)

lemma dfix_sign: "dsign (dfix x) = dsign x"
  by (simp add: dfix_def Let_def)

lemma half_even_le: "half_even c k \<le> c div 10 ^ k + 1"
  by (simp add: half_even_def Let_def)

lemma dfix_zero_iff: "dcoef (dfix x) = 0 \<longleftrightarrow> dcoef x = 0"
proof (cases "ndigits (dcoef x) \<le> prec")
  case True
  then show ?thesis by (simp add: dfix_small)
next
  case False
  define c k where "c = dcoef x" and "k = ndigits c - prec"
  have c: "0 < c" using False by (cases "c = 0") (simp_all add: c_def prec_def ndigits_rec [of 0])
  have "10 ^ k \<le> (10::nat) ^ (ndigits c - 1)"
    using False by (intro power_increasing) (simp_all add: k_def c_def prec_def)
  also have "\<dots> \<le> c" using c power_ndigits_le by blast
  finally have q: "0 < half_even c k" by (rule half_even_pos)
  have r: "0 < half_even c k div 10" if "prec < ndigits (half_even c k)"
  proof -
    have "\<not> half_even c k < 10" using that ndigits_rec [of "half_even c k"] by (auto simp: prec_def)
    then show ?thesis by (simp add: div_greater_zero_iff)
  qed
  have d: "dfix x = (if prec < ndigits (half_even c k) then Fin (dsign x) (half_even c k div 10) (dexp x + int k + 1)
      else Fin (dsign x) (half_even c k) (dexp x + int k))"
    using False unfolding dfix_def Let_def c_def k_def by simp
  show ?thesis
  proof (cases "prec < ndigits (half_even c k)")
    case True
    with r [OF True] c show ?thesis by (simp add: d c_def)
  next
    case False
    with q c show ?thesis by (simp add: d c_def)
  qed
qed

lemma dval_zero_iff: "dval x = 0 \<longleftrightarrow> dcoef x = 0"
proof -
  have "ten_pow (dexp x) \<noteq> 0" using ten_pow_pos by (metis less_irrefl)
  then show ?thesis by (simp add: dval_def signed_def)
qed

lemma dval_gt_zero_iff: "0 < dval x \<longleftrightarrow> \<not> dsign x \<and> dcoef x \<noteq> 0"
proof (cases x)
  case (Fin s c e)
  show ?thesis
  proof (cases s)
    case True
    have "0 \<le> rat_of_nat c * ten_pow e" by simp
    with Fin True show ?thesis by (simp add: dval_sign not_less)
  next
    case False
    with Fin show ?thesis by (simp add: dval_sign zero_less_mult_iff)
  qed
qed

lemma dval_dfix_pos: "0 < dval (dfix x) \<longleftrightarrow> 0 < dval x"
  by (simp add: dval_gt_zero_iff dfix_sign dfix_zero_iff)

lemma dmul_pos: "0 < dval x \<Longrightarrow> 0 < dval y \<Longrightarrow> 0 < dval (dmul x y)"
  by (simp add: dmul_def dval_dfix_pos) (simp add: dval_gt_zero_iff)

lemma strip_zeros_pos: "0 < c \<Longrightarrow> 0 < fst (strip_zeros n c e ideal)"
proof (induction n arbitrary: c e)
  case 0
  then show ?case by simp
next
  case (Suc n)
  show ?case
  proof (cases "e < ideal \<and> c mod 10 = 0")
    case True
    with Suc.prems have "0 < c div 10" by (metis div_mult_mod_eq add.right_neutral mult_eq_0_iff neq0_conv)
    with True Suc.IH show ?thesis by simp
  next
    case False
    with Suc.prems show ?thesis by auto
  qed
qed

text \<open>A quotient of positive numbers exists and is positive.\<close>

lemma ddiv_pos:
  assumes "0 < dval x" "0 < dval y"
  shows "\<exists>q. ddiv x y = Inr q \<and> 0 < dval q"
proof -
  have xy: "\<not> dsign x" "dcoef x \<noteq> 0" "\<not> dsign y" "dcoef y \<noteq> 0"
    using assms by (auto simp: dval_gt_zero_iff)
  define shift where "shift = int (ndigits (dcoef y)) - int (ndigits (dcoef x)) + int prec + 1"
  define e where "e = dexp x - dexp y - shift"
  define n where "n = (if 0 \<le> shift then dcoef x * 10 ^ nat shift else dcoef x)"
  define d where "d = (if 0 \<le> shift then dcoef y else dcoef y * 10 ^ nat (- shift))"
  have nd: "0 < n" "0 < d" using xy by (auto simp: n_def d_def)
  have div: "ddiv x y = (let q = n div d in
      if n mod d \<noteq> 0 then Inr (dfix (Fin False (if q mod 5 = 0 then q + 1 else q) e))
      else case strip_zeros (nat (dexp x - dexp y - e)) q e (dexp x - dexp y) of
        (c, e') \<Rightarrow> Inr (dfix (Fin False c e')))"
    using xy by (simp add: ddiv_def Let_def shift_def [symmetric] e_def [symmetric] n_def [symmetric] d_def [symmetric])
  have pos: "0 < dval (dfix (Fin False c f))" if "0 < c" for c f
    using that by (simp add: dval_dfix_pos) (simp add: dval_gt_zero_iff)
  show ?thesis
  proof (cases "n mod d = 0")
    case True
    with nd have "0 < n div d" by (metis div_mult_mod_eq add.right_neutral mult_eq_0_iff neq0_conv)
    from strip_zeros_pos [OF this] True show ?thesis
      by (auto simp: div Let_def split: prod.split intro!: pos)
        (metis fst_conv)
  next
    case False
    have "0 < (if n div d mod 5 = 0 then n div d + 1 else n div d)" by auto
    with False pos show ?thesis by (simp add: div Let_def)
  qed
qed

lemma dadd_exact:
  assumes "ndigits (nat \<bar>scaled (low_exp x y) x + scaled (low_exp x y) y\<bar>) \<le> prec"
  shows "dval (dadd x y) = dval x + dval y"
proof -
  define m v where "m = low_exp x y" and "v = scaled m x + scaled m y"
  have m: "m \<le> dexp x" "m \<le> dexp y" by (simp_all add: m_def low_exp_def)
  have "dadd x y = Fin (if v = 0 then dsign x \<and> dsign y else v < 0) (nat \<bar>v\<bar>) m"
    using assms by (simp add: dadd_def Let_def dfix_small flip: m_def v_def)
  moreover have "of_int (signed (if v = 0 then s else v < 0) (nat \<bar>v\<bar>)) = (of_int v :: rat)" for s
    by (simp add: signed_def)
  ultimately have "dval (dadd x y) = of_int v * ten_pow m"
    by (simp add: dval_def)
  also have "\<dots> = dval x + dval y"
    by (simp add: v_def dval_scaled [OF m(1)] dval_scaled [OF m(2)] algebra_simps)
  finally show ?thesis .
qed

lemma dadd_sign:
  "0 < dval (dadd x y) \<longleftrightarrow> 0 < dval x + dval y"
  "dval (dadd x y) = 0 \<longleftrightarrow> dval x + dval y = 0"
proof -
  define m v where "m = low_exp x y" and "v = scaled m x + scaled m y"
  have m: "m \<le> dexp x" "m \<le> dexp y" by (simp_all add: m_def low_exp_def)
  have sum: "dval x + dval y = of_int v * ten_pow m"
    by (simp add: v_def dval_scaled [OF m(1)] dval_scaled [OF m(2)] algebra_simps)
  have tp: "0 < ten_pow m" "ten_pow m \<noteq> 0" using ten_pow_pos [of m] by linarith+
  have d: "dadd x y = dfix (Fin (if v = 0 then dsign x \<and> dsign y else v < 0) (nat \<bar>v\<bar>) m)"
    by (simp add: dadd_def Let_def flip: m_def v_def)
  show "dval (dadd x y) = 0 \<longleftrightarrow> dval x + dval y = 0"
    using tp by (simp add: d sum dval_zero_iff dfix_zero_iff)
  show "0 < dval (dadd x y) \<longleftrightarrow> 0 < dval x + dval y"
  proof -
    have "0 < dval (dadd x y) \<longleftrightarrow> 0 < dval (Fin (if v = 0 then dsign x \<and> dsign y else v < 0) (nat \<bar>v\<bar>) m)"
      by (simp only: d dval_dfix_pos)
    also have "\<dots> \<longleftrightarrow> 0 < v" by (auto simp: dval_gt_zero_iff)
    also have "\<dots> \<longleftrightarrow> 0 < dval x + dval y"
      unfolding sum using tp by (auto simp add: zero_less_mult_iff)
    finally show ?thesis .
  qed
qed

lemma dval_copy_neg [simp]: "dval (dcopy_neg x) = - dval x"
  by (cases x) (simp add: dcopy_neg_def dval_sign)

lemma dadd_opposite: "dval y = - dval x \<Longrightarrow> dval (dadd x y) = 0"
  by (simp add: dadd_sign)

subsection \<open>Evaluation on literals\<close>

text \<open>Rules that fire on constructor terms with numeral coefficients only, so that the
  simplifier evaluates closed decimal expressions and leaves symbolic ones alone.\<close>

named_theorems dec_eval \<open>evaluation of closed decimal terms\<close>

lemma ndigits_eval [dec_eval]:
  "ndigits 0 = 1" "ndigits 1 = 1" "ndigits (Suc 0) = 1"
  "ndigits (numeral k) = (if (numeral k :: nat) < 10 then 1 else Suc (ndigits (numeral k div 10)))"
  by (subst ndigits_rec; simp)+

lemma show_nat_eval [dec_eval]:
  "show_nat 0 = ''0''" "show_nat 1 = ''1''" "show_nat (Suc 0) = ''1''"
  "show_nat (numeral k) = (if (numeral k :: nat) < 10 then [digit_char (numeral k)]
     else show_nat (numeral k div 10) @ [digit_char (numeral k mod 10)])"
  by (subst show_nat.simps; simp add: digit_char_def)+

lemma scaled_eval [dec_eval]: "scaled m (Fin s c e) = signed s c * 10 ^ nat (e - m)"
  by (simp add: scaled_def)

lemma low_exp_eval [dec_eval]: "low_exp (Fin s c e) (Fin s' c' e') = min e e'"
  by (simp add: low_exp_def)

lemma dfix_eval [dec_eval]: "dfix (Fin s c e) =
     (if ndigits c \<le> 28 then Fin s c e
      else let k = ndigits c - 28; q = half_even c k in
        if 28 < ndigits q then Fin s (q div 10) (e + int k + 1) else Fin s q (e + int k))"
  by (simp add: dfix_def Let_def prec_def)

lemma dmul_eval [dec_eval]:
  "dmul (Fin s c e) (Fin s' c' e') = dfix (Fin (s \<noteq> s') (c * c') (e + e'))"
  by (simp add: dmul_def)

lemma dfloor_eval [dec_eval]: "dfloor (Fin s c e) =
    (if 0 \<le> e then signed s c * 10 ^ nat e else signed s c div 10 ^ nat (- e))"
  by (simp add: dfloor_def)

lemma ddiv_eval [dec_eval]: "0 < c \<Longrightarrow> 0 < c' \<Longrightarrow> ddiv (Fin s c e) (Fin s' c' e') =
   (let shift = int (ndigits c') - int (ndigits c) + int 28 + 1;
        f = e - e' - shift;
        n = (if 0 \<le> shift then c * 10 ^ nat shift else c);
        d = (if 0 \<le> shift then c' else c' * 10 ^ nat (- shift));
        q = n div d
    in if n mod d \<noteq> 0
       then Inr (dfix (Fin (s \<noteq> s') (if q mod 5 = 0 then q + 1 else q) f))
       else case strip_zeros (nat (e - e' - f)) q f (e - e') of
         (c'', f') \<Rightarrow> Inr (dfix (Fin (s \<noteq> s') c'' f')))"
  unfolding ddiv_def prec_def dec.sel by (simp only: gr_implies_not0 if_False simp_thms)

lemma strip_zeros_eval [dec_eval]:
  "strip_zeros (numeral k) c e ideal =
     (if e < ideal \<and> c mod 10 = 0 then strip_zeros (pred_numeral k) (c div 10) (e + 1) ideal else (c, e))"
  by (subst numeral_eq_Suc) (simp only: strip_zeros.simps)

lemmas dec_evals = dec_eval dlt_def dle_def deq_def dec_of_int_def signed_def dzero_def dpos_def
  half_even_def digit_char_def dsum_def dadd_def dcopy_neg_def dsub_def dminus_def dabs_def
  dmax_def dmin_def

end
