(* ===== verification/Planner.thy ===== *)
theory Planner
  imports Decimal28 "HOL-Library.Sublist"
begin

text \<open>
  \<^verbatim>\<open>src/quant_ai/execution/planner.py\<close>: how an approved parent quantity is split into child
  slices over a schedule of volume buckets. Instants are integers (microseconds); every
  datetime is timezone aware. The parent order enters through the fields the planner reads:
  its quantity and, for an instrument-bound order, the lot size of its contract.
\<close>

subsection \<open>Data\<close>

datatype ExecutionAlgorithm = IMMEDIATE | TWAP | VWAP | POV

record VolumeBucket =
  vb_at :: int
  available_quantity :: int

definition volume_bucket :: "int \<Rightarrow> int \<Rightarrow> VolumeBucket res" where
  "volume_bucket moment q =
     (if q < 0 then Inl (ValueError ''execution_bucket_volume_must_be_nonnegative_integer'')
      else Inr \<lparr>vb_at = moment, available_quantity = q\<rparr>)"

record ExecutionConstraints =
  ec_lot_size :: int
  max_participation :: dec
  max_child_quantity :: "int option"
  min_child_quantity :: "int option"

definition child_bound_ok :: "int \<Rightarrow> int option \<Rightarrow> bool" where
  "child_bound_ok lot v = (case v of None \<Rightarrow> True | Some q \<Rightarrow> \<not> (q < lot \<or> q mod lot \<noteq> 0))"

definition execution_constraints :: "ExecutionConstraints \<Rightarrow> ExecutionConstraints res" where
  "execution_constraints c =
     (if ec_lot_size c < 1 then Inl (ValueError ''execution_lot_size_must_be_positive_integer'')
      else if \<not> (dlt dzero (max_participation c) \<and> dle (max_participation c) (dec_of_int 1))
        then Inl (ValueError ''max_participation_must_be_in_0_1'')
      else if \<not> child_bound_ok (ec_lot_size c) (max_child_quantity c)
        then Inl (ValueError ''max_child_quantity_must_be_whole_lots'')
      else if \<not> child_bound_ok (ec_lot_size c) (min_child_quantity c)
        then Inl (ValueError ''min_child_quantity_must_be_whole_lots'')
      else case (max_child_quantity c, min_child_quantity c) of
        (Some mx, Some mn) \<Rightarrow> if mx < mn then Inl (ValueError ''execution_child_bounds_inverted'') else Inr c
      | _ \<Rightarrow> Inr c)"

record ExecutionSlice =
  es_sequence :: int
  es_at :: int
  es_quantity :: int
  observed_available_quantity :: "int option"
  participation :: "dec option"

record ExecutionPlan =
  ep_algorithm :: ExecutionAlgorithm
  ep_parent_quantity :: int
  ep_lot_size :: int
  ep_slices :: "ExecutionSlice list"
  ep_source :: string

definition planned_quantity :: "ExecutionPlan \<Rightarrow> int" where
  "planned_quantity p = sum_list (map es_quantity (ep_slices p))"

text \<open>\<open>any(bad(a, b) for a, b in zip(xs, xs[1:]))\<close>\<close>

fun any_adjacent :: "('a \<Rightarrow> 'a \<Rightarrow> bool) \<Rightarrow> 'a list \<Rightarrow> bool" where
  "any_adjacent bad (a # b # xs) = (bad a b \<or> any_adjacent bad (b # xs))"
| "any_adjacent bad _ = False"

definition assert_conservative :: "ExecutionPlan \<Rightarrow> unit res" where
  "assert_conservative p =
     (if planned_quantity p \<noteq> ep_parent_quantity p then Inl (ValueError ''execution_plan_quantity_mismatch'')
      else if ep_slices p = [] then Inl (ValueError ''execution_plan_empty'')
      else if list_ex (\<lambda>i. es_quantity i \<le> 0 \<or> es_quantity i mod ep_lot_size p \<noteq> 0) (ep_slices p)
        then Inl (ValueError ''execution_plan_non_lot_quantity'')
      else if map es_sequence (ep_slices p) \<noteq> map int [1..<Suc (length (ep_slices p))]
        then Inl (ValueError ''execution_plan_sequence_invalid'')
      else if any_adjacent (\<lambda>a b. es_at b < es_at a) (ep_slices p)
        then Inl (ValueError ''execution_plan_time_not_monotonic'')
      else Inr ())"

subsection \<open>Allocation\<close>

definition bucket_capacity :: "ExecutionConstraints \<Rightarrow> VolumeBucket \<Rightarrow> int" where
  "bucket_capacity c b =
     (let raw = dfloor (dmul (dec_of_int (available_quantity b)) (max_participation c));
          lots = raw div ec_lot_size c;
          quantity = lots * ec_lot_size c
      in case max_child_quantity c of None \<Rightarrow> quantity | Some m \<Rightarrow> min quantity m)"

definition minimum :: "ExecutionConstraints \<Rightarrow> int" where
  "minimum c = (case min_child_quantity c of None \<Rightarrow> ec_lot_size c
                | Some m \<Rightarrow> if m = 0 then ec_lot_size c else m)"

definition mk_slice :: "int \<Rightarrow> VolumeBucket \<Rightarrow> int \<Rightarrow> ExecutionSlice" where
  "mk_slice sequence b quantity =
     \<lparr>es_sequence = sequence, es_at = vb_at b, es_quantity = quantity,
      observed_available_quantity = Some (available_quantity b),
      participation =
        (if 0 < available_quantity b
         then (case ddiv (dec_of_int quantity) (dec_of_int (available_quantity b)) of
                 Inl _ \<Rightarrow> None | Inr d \<Rightarrow> Some d)
         else None)\<rparr>"

fun enumerate_slices :: "int \<Rightarrow> (VolumeBucket \<times> int) list \<Rightarrow> ExecutionSlice list" where
  "enumerate_slices n [] = []"
| "enumerate_slices n ((b, tk) # xs) = mk_slice n b tk # enumerate_slices (n + 1) xs"

definition plan_immediate ::
  "int \<Rightarrow> VolumeBucket list \<Rightarrow> int list \<Rightarrow> ExecutionConstraints \<Rightarrow> ExecutionSlice list res" where
  "plan_immediate quantity buckets capacity c =
     (if hd capacity < quantity then Inl (ValueError ''execution_immediate_capacity_insufficient'')
      else if quantity < minimum c then Inl (ValueError ''execution_child_below_minimum'')
      else Inr [mk_slice 1 (hd buckets) quantity])"

definition plan_twap ::
  "int \<Rightarrow> VolumeBucket list \<Rightarrow> int list \<Rightarrow> ExecutionConstraints \<Rightarrow> ExecutionSlice list res" where
  "plan_twap quantity buckets capacity c =
     (let lot = ec_lot_size c; total_lots = quantity div lot;
          n = int (length buckets); base = total_lots div n; remainder = total_lots mod n;
          desired = map (\<lambda>i. (base + (if int i < remainder then 1 else 0)) * lot) [0..<length buckets]
      in if list_ex (\<lambda>(target, cap). cap < target) (zip desired capacity)
         then Inl (ValueError ''execution_twap_capacity_insufficient'')
         else let chosen = filter (\<lambda>(b, target). target \<noteq> 0) (zip buckets desired)
         in if list_ex (\<lambda>(b, target). target < minimum c) chosen
            then Inl (ValueError ''execution_child_below_minimum'')
            else Inr (enumerate_slices 1 chosen))"

text \<open>The greedy pass: the buckets selected so far, in order, and the quantity left.\<close>

fun greedy ::
  "int \<Rightarrow> (VolumeBucket \<times> int) list \<Rightarrow> int \<Rightarrow> (VolumeBucket \<times> int) list \<Rightarrow> (VolumeBucket \<times> int) list \<times> int"
where
  "greedy mn [] remaining sel = (sel, remaining)"
| "greedy mn ((b, cap) # xs) remaining sel =
     (if remaining \<le> 0 then (sel, remaining)
      else let tk = min cap remaining in
        if tk = 0 then greedy mn xs remaining sel
        else if tk < mn \<and> remaining \<noteq> tk then greedy mn xs remaining sel
        else greedy mn xs (remaining - tk) (sel @ [(b, tk)]))"

text \<open>The backward scan that takes \<open>needed\<close> from the last child that can spare it
  (over the reversed selection).\<close>

fun spare :: "int \<Rightarrow> int \<Rightarrow> (VolumeBucket \<times> int) list \<Rightarrow> ((VolumeBucket \<times> int) list) option" where
  "spare mn needed [] = None"
| "spare mn needed ((b, tk) # xs) =
     (if mn \<le> tk - needed then Some ((b, tk - needed) # xs)
      else map_option ((#) (b, tk)) (spare mn needed xs))"

text \<open>The scan for one more bucket that can hold the whole remainder.\<close>

fun place :: "int \<Rightarrow> int \<Rightarrow> (VolumeBucket \<times> int) list \<Rightarrow> VolumeBucket option" where
  "place mn remaining [] = None"
| "place mn remaining ((b, cap) # xs) =
     (if remaining \<le> cap \<and> mn \<le> remaining then Some b else place mn remaining xs)"

definition rebalance ::
  "int \<Rightarrow> (VolumeBucket \<times> int) list \<Rightarrow> int \<Rightarrow> (VolumeBucket \<times> int) list \<times> int" where
  "rebalance mn sel remaining =
     (if remaining < mn \<and> sel \<noteq> [] then
        let needed = mn - remaining in
        case spare mn needed (rev sel) of
          None \<Rightarrow> (sel, remaining)
        | Some r \<Rightarrow> (rev r, remaining + needed)
      else (sel, remaining))"

definition volume_weighted ::
  "int \<Rightarrow> VolumeBucket list \<Rightarrow> int list \<Rightarrow> ExecutionConstraints \<Rightarrow> (VolumeBucket \<times> int) list res" where
  "volume_weighted quantity buckets capacity c =
     (if sum_list capacity < quantity then Inl (ValueError ''execution_participation_capacity_insufficient'')
      else
        let mn = minimum c; (sel, remaining) = greedy mn (zip buckets capacity) quantity [];
            (sel', remaining') = (if remaining \<noteq> 0 then rebalance mn sel remaining else (sel, remaining))
        in if remaining' = 0 then Inr sel'
           else let k = length sel' in
             case place mn remaining' (zip (drop k buckets) (drop k capacity)) of
               Some b \<Rightarrow> Inr (sel' @ [(b, remaining')])
             | None \<Rightarrow> Inl (ValueError ''execution_child_minimum_prevents_completion''))"

definition assert_participation :: "ExecutionPlan \<Rightarrow> ExecutionConstraints \<Rightarrow> unit res" where
  "assert_participation p c =
     foldr_res (\<lambda>u i.
       case (observed_available_quantity i, participation i) of
         (Some _, Some d) \<Rightarrow>
           if dlt (max_participation c) d then Inl (ValueError ''execution_plan_participation_limit_exceeded'')
           else Inr ()
       | _ \<Rightarrow> Inl (ValueError ''execution_plan_missing_volume_evidence'')) () (ep_slices p)"

definition execution_plan ::
  "int \<Rightarrow> int option \<Rightarrow> ExecutionAlgorithm \<Rightarrow> ExecutionConstraints \<Rightarrow> VolumeBucket list \<Rightarrow> string
   \<Rightarrow> ExecutionPlan res" where
  "execution_plan order_quantity instrument_lot algorithm c buckets src =
     (if order_quantity \<le> 0 then Inl (ValueError ''execution_parent_quantity_must_be_positive_integer'')
      else if instrument_lot \<noteq> None \<and> instrument_lot \<noteq> Some (ec_lot_size c)
        then Inl (ValueError ''execution_contract_lot_mismatch'')
      else if order_quantity mod ec_lot_size c \<noteq> 0
        then Inl (ValueError ''execution_parent_quantity_not_whole_lots'')
      else if strip src = [] then Inl (ValueError ''execution_plan_source_required'')
      else if buckets = [] then Inl (ValueError ''execution_volume_schedule_required'')
      else if any_adjacent (\<lambda>a b. vb_at b \<le> vb_at a) buckets
        then Inl (ValueError ''execution_volume_buckets_must_be_strictly_ordered'')
      else
        let capacity = map (bucket_capacity c) buckets in
        ebind (case algorithm of
            IMMEDIATE \<Rightarrow> plan_immediate order_quantity buckets capacity c
          | TWAP \<Rightarrow> plan_twap order_quantity buckets capacity c
          | _ \<Rightarrow> ebind (volume_weighted order_quantity buckets capacity c) (\<lambda>sel. Inr (enumerate_slices 1 sel)))
        (\<lambda>slices.
          let p = \<lparr>ep_algorithm = algorithm, ep_parent_quantity = order_quantity,
                   ep_lot_size = ec_lot_size c, ep_slices = slices, ep_source = src\<rparr>
          in ebind (assert_conservative p) (\<lambda>_. ebind (assert_participation p c) (\<lambda>_. Inr p))))"

subsection \<open>What the allocations keep\<close>

text \<open>The constraints a constructor call has accepted.\<close>

definition valid_constraints :: "ExecutionConstraints \<Rightarrow> bool" where
  "valid_constraints c \<longleftrightarrow> execution_constraints c = Inr c"

lemma valid_constraints_lot: "valid_constraints c \<Longrightarrow> 0 < ec_lot_size c"
  by (auto simp: valid_constraints_def execution_constraints_def split: if_splits)

lemma valid_constraints_bounds:
  assumes "valid_constraints c"
  shows "max_child_quantity c = Some m \<Longrightarrow> ec_lot_size c \<le> m \<and> m mod ec_lot_size c = 0"
    and "min_child_quantity c = Some m \<Longrightarrow> ec_lot_size c \<le> m \<and> m mod ec_lot_size c = 0"
  using assms
  by (auto simp: valid_constraints_def execution_constraints_def child_bound_ok_def split: if_splits)

lemma minimum_facts:
  assumes "valid_constraints c"
  shows "ec_lot_size c \<le> minimum c" "minimum c mod ec_lot_size c = 0"
  using valid_constraints_lot [OF assms] valid_constraints_bounds(2) [OF assms]
  by (auto simp: minimum_def split: option.splits)

lemma bucket_capacity_lots:
  assumes "valid_constraints c"
  shows "bucket_capacity c b mod ec_lot_size c = 0"
proof -
  have "(q * ec_lot_size c) mod ec_lot_size c = 0" for q by simp
  then show ?thesis
    using valid_constraints_bounds(1) [OF assms]
    by (auto simp: bucket_capacity_def Let_def min_def split: option.splits)
qed

lemma bucket_capacity_max_child:
  "max_child_quantity c = Some m \<Longrightarrow> bucket_capacity c b \<le> m"
  by (simp add: bucket_capacity_def Let_def)

lemma dfloor_nonneg: "\<not> dsign x \<Longrightarrow> 0 \<le> dfloor x"
  by (simp add: dfloor_def signed_def pos_imp_zdiv_nonneg_iff)

lemma dval_pos_sign: "0 < dval x \<Longrightarrow> \<not> dsign x"
  by (simp add: dval_gt_zero_iff)

lemma bucket_capacity_nonneg:
  assumes "valid_constraints c" "0 \<le> available_quantity b"
  shows "0 \<le> bucket_capacity c b"
proof -
  have mp: "\<not> dsign (max_participation c)"
    using assms(1) by (intro dval_pos_sign)
      (auto simp: valid_constraints_def execution_constraints_def dlt_dval split: if_splits)
  then have "0 \<le> dfloor (dmul (dec_of_int (available_quantity b)) (max_participation c))"
    using assms(2) by (intro dfloor_nonneg) (simp add: dmul_def dfix_sign dec_of_int_def)
  then show ?thesis
    using valid_constraints_lot [OF assms(1)] valid_constraints_bounds(1) [OF assms(1)]
    by (fastforce simp: bucket_capacity_def Let_def pos_imp_zdiv_nonneg_iff split: option.splits)
qed

text \<open>\<open>fits ys xs\<close>: the children \<open>ys\<close> sit on different buckets of the schedule \<open>xs\<close>, in
  schedule order, each positive and within its bucket's capacity.\<close>

definition fits :: "(VolumeBucket \<times> int) list \<Rightarrow> (VolumeBucket \<times> int) list \<Rightarrow> bool" where
  "fits ys xs \<longleftrightarrow> (\<exists>zs. subseq zs xs \<and>
     list_all2 (\<lambda>(b, tk) (b', cap). b = b' \<and> 0 < tk \<and> tk \<le> cap) ys zs)"

lemma fits_Nil: "fits [] xs"
  by (auto simp: fits_def)

lemma fits_skip: "fits ys xs \<Longrightarrow> fits ys (x # xs)"
  by (auto simp: fits_def)

lemma fits_take: "fits ys xs \<Longrightarrow> 0 < tk \<Longrightarrow> tk \<le> cap \<Longrightarrow> fits ((b, tk) # ys) ((b, cap) # xs)"
  unfolding fits_def by (force intro: exI [of _ "(b, cap) # _"])

lemma greedy_spec:
  assumes "greedy mn xs r sel = (sel', r')" "0 \<le> r" "\<forall>(b, cap) \<in> set xs. 0 \<le> cap"
  shows "\<exists>ys. sel' = sel @ ys \<and> fits ys xs \<and> sum_list (map snd ys) + r' = r \<and> 0 \<le> r'"
  using assms
proof (induction mn xs r sel rule: greedy.induct)
  case (1 mn remaining sel)
  then show ?case by (auto simp: fits_Nil)
next
  case (2 mn b cap xs remaining sel)
  define tk where "tk = min cap remaining"
  consider (stop) "remaining \<le> 0" | (zero) "0 < remaining" "tk = 0"
    | (small) "0 < remaining" "tk \<noteq> 0" "tk < mn \<and> remaining \<noteq> tk"
    | (take) "0 < remaining" "tk \<noteq> 0" "\<not> (tk < mn \<and> remaining \<noteq> tk)" by linarith
  then show ?case
  proof cases
    case stop
    with "2.prems" show ?thesis by (auto simp: fits_Nil)
  next
    case zero
    with "2.prems" "2.IH"(1) [OF _ tk_def] show ?thesis by (auto simp: Let_def tk_def intro: fits_skip)
  next
    case small
    with "2.prems" "2.IH"(2) [OF _ tk_def] show ?thesis by (auto simp: Let_def tk_def intro: fits_skip)
  next
    case take
    with "2.prems" have tk: "0 < tk" "tk \<le> cap" "0 \<le> remaining - tk" by (auto simp: tk_def)
    have "\<exists>ys. sel' = (sel @ [(b, tk)]) @ ys \<and> fits ys xs \<and>
        sum_list (map snd ys) + r' = remaining - tk \<and> 0 \<le> r'"
      using take "2.prems" tk by (intro "2.IH"(3) [OF _ tk_def]) (auto simp: Let_def tk_def)
    then obtain ys where ys: "sel' = sel @ (b, tk) # ys" "fits ys xs"
        "sum_list (map snd ys) + r' = remaining - tk" "0 \<le> r'" by auto
    with tk have "fits ((b, tk) # ys) ((b, cap) # xs)" by (intro fits_take)
    with ys show ?thesis by (intro exI [of _ "(b, tk) # ys"]) simp
  qed
qed

lemma greedy_lots:
  assumes "greedy mn xs r sel = (sel', r')" "r mod l = 0"
    "\<forall>(b, cap) \<in> set xs. cap mod l = 0" "\<forall>(b, tk) \<in> set sel. tk mod l = 0"
  shows "(\<forall>(b, tk) \<in> set sel'. tk mod l = 0) \<and> r' mod l = (0::int)"
  using assms
proof (induction mn xs r sel rule: greedy.induct)
  case (1 mn remaining sel)
  then show ?case by auto
next
  case (2 mn b cap xs remaining sel)
  have "min cap remaining mod l = 0" using "2.prems" by (auto simp: min_def)
  with "2.prems" "2.IH" show ?case
    by (auto simp: Let_def mod_diff_eq [symmetric, of remaining l] split: if_splits)
qed

text \<open>Without a minimum child above one lot nothing is skipped, so the greedy pass spends the
  whole capacity before it leaves anything over.\<close>

lemma lot_multiple_ge: "0 < (l::int) \<Longrightarrow> 0 < t \<Longrightarrow> t mod l = 0 \<Longrightarrow> l \<le> t"
  by (simp add: zdvd_imp_le mod_0_imp_dvd)

lemma greedy_exhausts:
  assumes "greedy l xs r sel = (sel', r')" "0 < l" "0 \<le> r" "r mod l = 0"
    "\<forall>(b, cap) \<in> set xs. 0 \<le> cap \<and> cap mod l = 0"
  shows "r' = max 0 (r - sum_list (map snd xs))"
  using assms
proof (induction l xs r sel rule: greedy.induct)
  case (1 mn remaining sel)
  then show ?case by auto
next
  case (2 mn b cap xs remaining sel)
  define tk where "tk = min cap remaining"
  have sums: "0 \<le> sum_list (map snd xs)"
    using "2.prems"(5) by (intro sum_list_nonneg) fastforce
  consider (stop) "remaining \<le> 0" | (zero) "0 < remaining" "tk = 0" | (take) "0 < remaining" "0 < tk"
    using "2.prems" by (auto simp: tk_def min_def split: if_splits)
  then show ?case
  proof cases
    case stop
    with "2.prems" sums show ?thesis by auto
  next
    case zero
    with "2.prems" have "cap = 0" by (auto simp: tk_def)
    with zero "2.prems" "2.IH"(1) [OF _ tk_def] show ?thesis by (auto simp: Let_def tk_def)
  next
    case take
    have "tk mod mn = 0" using "2.prems" by (auto simp: tk_def min_def)
    with take "2.prems"(2) have ge: "mn \<le> tk" by (intro lot_multiple_ge)
    have m: "(remaining - tk) mod mn = 0"
      using "2.prems"(4) \<open>tk mod mn = 0\<close> by (simp add: mod_0_imp_dvd dvd_diff)
    have "r' = max 0 (remaining - tk - sum_list (map snd xs))"
    proof (rule "2.IH"(3) [OF _ tk_def])
      show "greedy mn xs (remaining - tk) (sel @ [(b, tk)]) = (sel', r')"
        using take ge "2.prems"(1) by (simp add: Let_def flip: tk_def)
    qed (use take ge "2.prems" m in \<open>auto simp: tk_def\<close>)
    then show ?thesis using sums "2.prems" by (auto simp: tk_def)
  qed
qed

lemma spare_total: "spare mn needed xs = Some ys \<Longrightarrow>
    sum_list (map snd ys) + needed = sum_list (map snd xs) \<and> length ys = length xs"
  by (induction xs arbitrary: ys) (auto split: if_splits)

lemma rebalance_total: "rebalance mn sel r = (sel', r') \<Longrightarrow>
    sum_list (map snd sel') + r' = sum_list (map snd sel) + r"
  by (auto simp: rebalance_def Let_def rev_map [symmetric] split: if_splits option.splits dest!: spare_total)

lemma volume_weighted_total:
  assumes "volume_weighted q buckets capacity c = Inr sel" "0 \<le> q"
    "\<forall>cap \<in> set capacity. 0 \<le> cap"
  shows "sum_list (map snd sel) = q"
proof -
  define mn where "mn = minimum c"
  obtain s r where g: "greedy mn (zip buckets capacity) q [] = (s, r)" by fastforce
  have caps: "\<forall>(b, cap) \<in> set (zip buckets capacity). 0 \<le> cap"
    using assms(3) by (auto dest: set_zip_rightD)
  from greedy_spec [OF g assms(2) caps] have t: "sum_list (map snd s) + r = q" by auto
  obtain s' r' where b: "(if r \<noteq> 0 then rebalance mn s r else (s, r)) = (s', r')" by fastforce
  then have t': "sum_list (map snd s') + r' = q"
    using t by (auto split: if_splits dest: rebalance_total)
  with assms(1) g b show ?thesis
    by (auto simp: volume_weighted_def Let_def simp flip: mn_def split: if_splits option.splits)
qed

subsection \<open>The slices of a selection\<close>

lemma enumerate_slices_facts:
  "length (enumerate_slices n xs) = length xs"
  "map es_quantity (enumerate_slices n xs) = map snd xs"
  "map es_at (enumerate_slices n xs) = map (vb_at \<circ> fst) xs"
  by (induction n xs rule: enumerate_slices.induct) (auto simp: mk_slice_def)

lemma enumerate_slices_seq:
  "map es_sequence (enumerate_slices (int n) xs) = map int [n..<n + length xs]"
proof (induction xs arbitrary: n)
  case Nil
  then show ?case by simp
next
  case (Cons x xs)
  have "map es_sequence (enumerate_slices (int n + 1) xs) = map int [Suc n..<Suc (n + length xs)]"
    using Cons.IH [of "Suc n"] by (simp add: add.commute del: upt_Suc)
  then show ?case
    by (cases x) (simp add: mk_slice_def upt_conv_Cons del: upt_Suc)
qed

lemma any_adjacent_sorted: "\<not> any_adjacent (\<lambda>a b. f b \<le> f a) xs \<longleftrightarrow> sorted_wrt (<) (map f xs)"
  for f :: "'a \<Rightarrow> int"
  by (induction xs rule: induct_list012) (fastforce simp: not_le)+

lemma any_adjacent_monotone: "\<not> any_adjacent (\<lambda>a b. f b < f a) xs \<longleftrightarrow> sorted (map f xs)"
  for f :: "'a \<Rightarrow> int"
  by (induction xs rule: induct_list012) (fastforce simp: not_less)+

subsection \<open>Properties\<close>

text \<open>A plan whose children keep the schedule: different buckets in order, none above its
  bucket's capacity.\<close>

definition respects_schedule ::
  "ExecutionConstraints \<Rightarrow> VolumeBucket list \<Rightarrow> (VolumeBucket \<times> int) list \<Rightarrow> bool" where
  "respects_schedule c buckets sel \<longleftrightarrow>
     fits sel (zip buckets (map (bucket_capacity c) buckets))"

lemma assert_conservative_ok:
  assumes "assert_conservative p = Inr u"
  shows "sum_list (map es_quantity (ep_slices p)) = ep_parent_quantity p" "ep_slices p \<noteq> []"
    "\<forall>i \<in> set (ep_slices p). 0 < es_quantity i \<and> es_quantity i mod ep_lot_size p = 0"
    "map es_sequence (ep_slices p) = map int [1..<Suc (length (ep_slices p))]"
    "sorted (map es_at (ep_slices p))"
  using assms
  by (auto simp: assert_conservative_def planned_quantity_def any_adjacent_monotone list_ex_iff not_le
      simp del: upt_Suc split: if_splits)

lemma assert_participation_ok:
  assumes "foldr_res (\<lambda>u i.
       case (observed_available_quantity i, participation i) of
         (Some _, Some d) \<Rightarrow>
           if dlt m d then Inl (ValueError ''execution_plan_participation_limit_exceeded'') else Inr ()
       | _ \<Rightarrow> Inl (ValueError ''execution_plan_missing_volume_evidence'')) () xs = Inr u"
  shows "\<forall>i \<in> set xs. \<exists>d. participation i = Some d \<and> dle d m"
  using assms
  by (induction xs) (auto simp: res_simps dlt_dval dle_dval not_less split: option.splits if_splits)

lemmas plan_checks = assert_conservative_ok assert_participation_ok


lemmas planner_eval = dec_evals bucket_capacity_def volume_weighted_def minimum_def Let_def
  assert_conservative_def planned_quantity_def assert_participation_def mk_slice_def strip_def
  lstrip_def is_space_def rebalance_def

abbreviation tenth_cap :: "int option \<Rightarrow> ExecutionConstraints" where
  "tenth_cap mn \<equiv> \<lparr>ec_lot_size = 1, max_participation = Fin False 1 (-1),
     max_child_quantity = None, min_child_quantity = mn\<rparr>"


lemma volume_weighted_complete:
  assumes c: "valid_constraints c" "minimum c = ec_lot_size c"
    and b: "\<forall>b \<in> set buckets. 0 \<le> available_quantity b"
    and q: "0 \<le> q" "q mod ec_lot_size c = 0"
    and fit: "q \<le> sum_list (map (bucket_capacity c) buckets)"
  shows "\<exists>sel. volume_weighted q buckets (map (bucket_capacity c) buckets) c = Inr sel
    \<and> respects_schedule c buckets sel \<and> sum_list (map snd sel) = q"
proof -
  let ?cs = "map (bucket_capacity c) buckets"
  obtain s r where g: "greedy (ec_lot_size c) (zip buckets ?cs) q [] = (s, r)" by fastforce
  have caps: "\<forall>(b, cap) \<in> set (zip buckets ?cs). 0 \<le> cap \<and> cap mod ec_lot_size c = 0"
    using b bucket_capacity_nonneg [OF c(1)] bucket_capacity_lots [OF c(1)]
    by (auto simp: set_zip)
  have "r = max 0 (q - sum_list (map snd (zip buckets ?cs)))"
    using greedy_exhausts [OF g valid_constraints_lot [OF c(1)] q caps] .
  also have "map snd (zip buckets ?cs) = ?cs" by simp
  finally have r: "r = 0" using fit by simp
  from caps have "\<forall>(b, cap) \<in> set (zip buckets ?cs). 0 \<le> cap" by auto
  from greedy_spec [OF g q(1) this] r have "fits s (zip buckets ?cs)" "sum_list (map snd s) = q" by auto
  moreover have "volume_weighted q buckets ?cs c = Inr s"
    using fit g r by (simp add: volume_weighted_def c(2) Let_def)
  ultimately show ?thesis by (auto simp: respects_schedule_def)
qed

text \<open>C2: without a minimum child quantity above one lot, the volume-weighted allocation succeeds
  exactly when the capacity of the schedule holds the parent order, and then spends it on
  different buckets in schedule order, never above a bucket's capacity.\<close>

theorem volume_weighted_iff_capacity:
  assumes "valid_constraints c" "minimum c = ec_lot_size c"
    and "\<forall>b \<in> set buckets. 0 \<le> available_quantity b"
    and "0 \<le> q" "q mod ec_lot_size c = 0"
  shows "(\<exists>sel. volume_weighted q buckets (map (bucket_capacity c) buckets) c = Inr sel
      \<and> respects_schedule c buckets sel \<and> sum_list (map snd sel) = q)
    \<longleftrightarrow> q \<le> sum_list (map (bucket_capacity c) buckets)"
  using volume_weighted_complete [OF assms]
  by (auto simp: volume_weighted_def not_less split: if_splits)

theorem volume_weighted_iff_capacity_witness:
  "\<exists>sel. volume_weighted 12 [\<lparr>vb_at = 1, available_quantity = 100\<rparr>, \<lparr>vb_at = 2, available_quantity = 50\<rparr>]
       (map (bucket_capacity (tenth_cap None))
         [\<lparr>vb_at = 1, available_quantity = 100\<rparr>, \<lparr>vb_at = 2, available_quantity = 50\<rparr>]) (tenth_cap None) = Inr sel
     \<and> sum_list (map snd sel) = 12"
proof -
  let ?bs = "[\<lparr>vb_at = 1, available_quantity = 100\<rparr>, \<lparr>vb_at = 2, available_quantity = 50\<rparr>] :: VolumeBucket list"
  have "valid_constraints (tenth_cap None)"
    by (simp add: valid_constraints_def execution_constraints_def child_bound_ok_def dec_evals)
  moreover have "(12::int) \<le> sum_list (map (bucket_capacity (tenth_cap None)) ?bs)"
    by (simp add: planner_eval)
  ultimately show ?thesis
    using volume_weighted_iff_capacity [of "tenth_cap None" ?bs 12] by (auto simp: minimum_def)
qed


subsection \<open>Even schedules\<close>

lemma sum_even_split:
  "(\<Sum>i \<leftarrow> [0..<n]. (base + (if int i < r then 1 else 0)) * lot) = (base * int n + min (int n) (max 0 r)) * (lot::int)"
  by (induction n) (auto simp: algebra_simps)

lemma sum_filter_nonzero: "sum_list (map snd (filter (\<lambda>(b, t). t \<noteq> 0) xs)) = sum_list (map snd xs)"
  for xs :: "('a \<times> int) list"
  by (induction xs) auto

lemma zip_caps: "length xs = length ys \<Longrightarrow> \<not> list_ex (\<lambda>(t, cap). cap < t) (zip xs ys) \<longleftrightarrow> list_all2 (\<le>) xs ys"
  for xs :: "int list"
  by (induction xs ys rule: list_induct2) auto

lemma fits_filter:
  assumes "list_all2 (\<le>) ts cs" "\<forall>t \<in> set ts. (0::int) \<le> t" "length bs = length ts"
  shows "fits (filter (\<lambda>(b, t). t \<noteq> 0) (zip bs ts)) (zip bs cs)"
  using assms
proof (induction ts cs arbitrary: bs rule: list_all2_induct)
  case Nil
  then show ?case by (simp add: fits_Nil)
next
  case (Cons t ts c cs)
  then obtain b bs' where "bs = b # bs'" by (cases bs) auto
  with Cons show ?case by (auto intro: fits_skip fits_take)
qed

definition even_targets :: "int \<Rightarrow> nat \<Rightarrow> ExecutionConstraints \<Rightarrow> int list" where
  "even_targets q n c = map (\<lambda>i. (q div ec_lot_size c div int n +
     (if int i < q div ec_lot_size c mod int n then 1 else 0)) * ec_lot_size c) [0..<n]"

lemma even_targets_total:
  assumes "0 < n" "q mod ec_lot_size c = 0"
  shows "sum_list (even_targets q n c) = q"
proof -
  let ?L = "q div ec_lot_size c"
  have "min (int n) (max 0 (?L mod int n)) = ?L mod int n"
    using assms(1) by (simp add: pos_mod_bound less_imp_le)
  then have "sum_list (even_targets q n c) = (?L div int n * int n + ?L mod int n) * ec_lot_size c"
    unfolding even_targets_def sum_even_split by simp
  also have "\<dots> = q" using assms(2) by (simp add: mod_0_imp_dvd)
  finally show ?thesis .
qed



end
