(* ===== verification/DecText.thy ===== *)
theory DecText
  imports Decimal28
begin

text \<open>
  The text of a \<open>Decimal\<close>: \<open>str\<close> (scientific notation beyond six leading zeros or for a
  positive exponent) and the constructor on text. \<open>Decimal(str(x))\<close> is \<open>x\<close>, digit for digit.
\<close>

datatype dec_lit = Finite dec | NonFinite

definition show_signed :: "int \<Rightarrow> string" where
  "show_signed i = (if i < 0 then CHR ''-'' # show_nat (nat (- i)) else CHR ''+'' # show_nat (nat i))"

definition dec_str :: "dec \<Rightarrow> string" where
  "dec_str x =
     (let digits = show_nat (dcoef x); n = int (length digits);
          leftdigits = dexp x + n;
          dotplace = (if dexp x \<le> 0 \<and> -6 < leftdigits then leftdigits else 1);
          body = (if dotplace \<le> 0 then ''0.'' @ replicate (nat (- dotplace)) (CHR ''0'') @ digits
                  else if n \<le> dotplace then digits @ replicate (nat (dotplace - n)) (CHR ''0'')
                  else take (nat dotplace) digits @ CHR ''.'' # drop (nat dotplace) digits);
          ex = (if leftdigits = dotplace then [] else CHR ''E'' # show_signed (leftdigits - dotplace))
      in (if dsign x then ''-'' else []) @ body @ ex)"

definition lower :: "char \<Rightarrow> char" where
  "lower c = (if is_upper c then char_of ((of_char c :: nat) + 32) else c)"

definition parse_exponent :: "string \<Rightarrow> int option" where
  "parse_exponent s =
     (case s of
        [] \<Rightarrow> Some 0
      | c # r \<Rightarrow>
          if lower c = CHR ''e'' then
            (let (sg, ds) = (case r of [] \<Rightarrow> (False, []) | d # r' \<Rightarrow>
                 if d = CHR ''-'' then (True, r') else if d = CHR ''+'' then (False, r') else (False, r))
             in if ds \<noteq> [] \<and> list_all is_digit ds
                then Some (if sg then - int (read_nat ds) else int (read_nat ds)) else None)
          else None)"

definition parse_unsigned :: "bool \<Rightarrow> string \<Rightarrow> dec option" where
  "parse_unsigned sg s =
     (let ip = takeWhile is_digit s; rest = dropWhile is_digit s;
          (fp, ex) = (case rest of [] \<Rightarrow> ([], []) | c # r \<Rightarrow>
             if c = CHR ''.'' then (takeWhile is_digit r, dropWhile is_digit r) else ([], rest))
      in if ip = [] \<and> fp = [] then None
         else map_option (\<lambda>e. Fin sg (read_nat (ip @ fp)) (e - int (length fp))) (parse_exponent ex))"

definition special_word :: "string \<Rightarrow> bool" where
  "special_word s \<longleftrightarrow> (let w = map lower s in
     w = ''inf'' \<or> w = ''infinity''
     \<or> (take 3 w = ''nan'' \<and> list_all is_digit (drop 3 w))
     \<or> (take 4 w = ''snan'' \<and> list_all is_digit (drop 4 w)))"

definition dec_of_str :: "string \<Rightarrow> dec_lit option" where
  "dec_of_str s0 =
     (let s1 = filter (\<lambda>c. c \<noteq> CHR ''_'') (strip s0);
          (sg, s) = (case s1 of [] \<Rightarrow> (False, []) | c # r \<Rightarrow>
             if c = CHR ''-'' then (True, r) else if c = CHR ''+'' then (False, r) else (False, s1))
      in if special_word s then Some NonFinite else map_option Finite (parse_unsigned sg s))"

subsection \<open>Round trip\<close>

lemma takeWhile_digits: "list_all is_digit ds \<Longrightarrow> (case r of [] \<Rightarrow> True | c # _ \<Rightarrow> \<not> is_digit c) \<Longrightarrow>
    takeWhile is_digit (ds @ r) = ds \<and> dropWhile is_digit (ds @ r) = r"
  by (induction ds) (cases r; auto)+

lemma parse_exponent_show: "parse_exponent (CHR ''E'' # show_signed i) = Some i"
proof -
  have "char_of (of_char (CHR ''e'') :: nat) = CHR ''e''" by (rule char_of_char)
  then have l: "lower (CHR ''E'') = CHR ''e''" by (simp add: lower_def is_upper_def)
  then show ?thesis
    using show_nat_digits by (auto simp: parse_exponent_def show_signed_def)
qed

text \<open>A digit string with an optional fraction and exponent, read back.\<close>

lemma parse_unsigned_plain:
  assumes "list_all is_digit ip" "ip \<noteq> []" "parse_exponent ex = Some e"
    and "case ex of [] \<Rightarrow> True | c # _ \<Rightarrow> \<not> is_digit c \<and> c \<noteq> CHR ''.''"
  shows "parse_unsigned sg (ip @ ex) = Some (Fin sg (read_nat ip) e)"
proof -
  have t: "takeWhile is_digit (ip @ ex) = ip" "dropWhile is_digit (ip @ ex) = ex"
    using takeWhile_digits [OF assms(1), of ex] assms(4) by (cases ex; simp)+
  show ?thesis
    using assms(2-4) unfolding parse_unsigned_def t Let_def by (cases ex) simp_all
qed

lemma parse_unsigned_fraction:
  assumes "list_all is_digit ip" "ip \<noteq> []" "list_all is_digit fp" "parse_exponent ex = Some e"
    and "case ex of [] \<Rightarrow> True | c # _ \<Rightarrow> \<not> is_digit c"
  shows "parse_unsigned sg (ip @ CHR ''.'' # fp @ ex) = Some (Fin sg (read_nat (ip @ fp)) (e - int (length fp)))"
proof -
  have "\<not> is_digit (CHR ''.'')" by (simp add: is_digit_def)
  then have "takeWhile is_digit (ip @ CHR ''.'' # fp @ ex) = ip"
      "dropWhile is_digit (ip @ CHR ''.'' # fp @ ex) = CHR ''.'' # fp @ ex"
    using takeWhile_digits [OF assms(1), of "CHR ''.'' # fp @ ex"] by simp_all
  moreover have "takeWhile is_digit (fp @ ex) = fp" "dropWhile is_digit (fp @ ex) = ex"
    using takeWhile_digits [OF assms(3), of ex] assms(5) by (cases ex; simp)+
  ultimately show ?thesis using assms by (simp add: parse_unsigned_def)
qed

lemma list_all_take_drop: "list_all P xs \<Longrightarrow> list_all P (take n xs) \<and> list_all P (drop n xs)"
  by (auto simp: list_all_iff dest: in_set_takeD in_set_dropD)

definition unsigned_text :: "dec \<Rightarrow> string" where
  "unsigned_text x = dec_str (Fin False (dcoef x) (dexp x))"

lemma dec_str_unsigned: "dec_str x = (if dsign x then ''-'' else []) @ unsigned_text x"
  by (cases x) (simp add: dec_str_def unsigned_text_def Let_def)

lemma parse_unsigned_text: "parse_unsigned sg (unsigned_text (Fin s c e)) = Some (Fin sg c e)"
proof -
  define ds n where "ds = show_nat c" and "n = length ds"
  have ds: "list_all is_digit ds" "ds \<noteq> []" "read_nat ds = c" "1 \<le> n"
    by (simp_all add: ds_def n_def show_nat_digits Suc_le_eq)
  have nil: "parse_exponent [] = Some 0" by (simp add: parse_exponent_def)
  have zeros: "list_all is_digit (replicate k (CHR ''0'') @ ds)" for k
    using ds(1) by (simp add: digits_zeros)
  consider (plain) "e \<le> 0 \<and> -6 < e + int n" "e + int n \<le> 0"
    | (whole) "e = 0"
    | (point) "e < 0" "0 < e + int n"
    | (sci) "\<not> (e \<le> 0 \<and> -6 < e + int n)" by linarith
  then show ?thesis
  proof cases
    case plain
    let ?z = "replicate (nat (- (e + int n))) (CHR ''0'')"
    have t: "unsigned_text (Fin s c e) = ''0'' @ CHR ''.'' # (?z @ ds) @ []"
      using plain by (simp add: unsigned_text_def dec_str_def Let_def flip: ds_def n_def)
    have "parse_unsigned sg (''0'' @ CHR ''.'' # (?z @ ds) @ []) =
        Some (Fin sg (read_nat (''0'' @ ?z @ ds)) (0 - int (length (?z @ ds))))"
      using zeros nil by (intro parse_unsigned_fraction) (simp_all add: is_digit_def)
    moreover have "read_nat (''0'' @ ?z @ ds) = c"
      using read_nat_zeros [of "Suc (nat (- (e + int n)))" ds] ds(3) by simp
    moreover have "0 - int (length (?z @ ds)) = e" using plain by (simp flip: n_def)
    ultimately show ?thesis unfolding t by simp
  next
    case whole
    then have t: "unsigned_text (Fin s c e) = ds @ []"
      using ds(2,4) by (simp add: unsigned_text_def dec_str_def Let_def flip: ds_def n_def)
    show ?thesis unfolding t using parse_unsigned_plain [OF ds(1,2) nil, of sg] ds(3) whole by simp
  next
    case point
    let ?k = "nat (e + int n)"
    have t: "unsigned_text (Fin s c e) = take ?k ds @ CHR ''.'' # drop ?k ds @ []"
      using point by (simp add: unsigned_text_def dec_str_def Let_def flip: ds_def n_def)
    have "parse_unsigned sg (take ?k ds @ CHR ''.'' # drop ?k ds @ []) =
        Some (Fin sg (read_nat (take ?k ds @ drop ?k ds)) (0 - int (length (drop ?k ds))))"
      using list_all_take_drop [OF ds(1)] ds(2) point nil by (intro parse_unsigned_fraction) simp_all
    moreover have "0 - int (length (drop ?k ds)) = e" using point by (simp flip: n_def)
    ultimately show ?thesis unfolding t using ds(3) by simp
  next
    case sci
    let ?x = "CHR ''E'' # show_signed (e + int n - 1)"
    have ne: "e + int n \<noteq> 1" using sci ds(4) by auto
    have nd: "\<not> is_digit (CHR ''E'')" by (simp add: is_digit_def)
    have dp: "(if e \<le> 0 \<and> -6 < e + int n then e + int n else 1) = 1" using sci by (rule if_not_P)
    note defs = unsigned_text_def [of "Fin s c e"] dec_str_def [of "Fin False c e"]
    note unf = defs [unfolded Let_def dec.sel, folded ds_def, folded n_def, unfolded dp]
    show ?thesis
    proof (cases "n = 1")
      case True
      then have t: "unsigned_text (Fin s c e) = ds @ ?x"
        using ne unfolding unf by simp
      show ?thesis unfolding t
        using parse_unsigned_plain [OF ds(1,2) parse_exponent_show [of "e + int n - 1"], of sg] nd ds(3) True
        by simp
    next
      case False
      with ds(4) have n: "1 < n" by simp
      then have t: "unsigned_text (Fin s c e) = take 1 ds @ CHR ''.'' # drop 1 ds @ ?x"
        using ne unfolding unf by simp
      have "parse_unsigned sg (take 1 ds @ CHR ''.'' # drop 1 ds @ ?x) =
          Some (Fin sg (read_nat (take 1 ds @ drop 1 ds)) (e + int n - 1 - int (length (drop 1 ds))))"
      proof (rule parse_unsigned_fraction)
        show "parse_exponent ?x = Some (e + int n - 1)" by (rule parse_exponent_show)
        show "list_all is_digit (take 1 ds)" "list_all is_digit (drop 1 ds)"
          using list_all_take_drop [OF ds(1)] by blast+
      qed (use ds(2) nd in simp_all)
      moreover have "e + int n - 1 - int (length (drop 1 ds)) = e" using n by (simp flip: n_def)
      ultimately show ?thesis unfolding t using ds(3) by simp
    qed
  qed
qed

text \<open>Printed decimals hold only digits, signs, a point and an exponent mark.\<close>

definition num_char :: "char \<Rightarrow> bool" where
  "num_char c \<longleftrightarrow> is_digit c \<or> c \<in> {CHR ''-'', CHR ''+'', CHR ''.'', CHR ''E''}"

lemma digits_num: "list_all is_digit s \<Longrightarrow> list_all num_char s"
  by (simp add: list_all_iff num_char_def)

lemma unsigned_text_chars: "list_all num_char (unsigned_text x)"
proof -
  have n: "list_all num_char (show_nat k)" for k by (intro digits_num show_nat_digits)
  have z: "list_all num_char (replicate k (CHR ''0''))" for k
    by (intro digits_num digits_zeros)
  have e: "list_all num_char (show_signed i)" for i
    using n by (simp add: show_signed_def num_char_def)
  have c: "num_char (CHR ''.'')" "num_char (CHR ''E'')" "num_char (CHR ''0'')"
    by (simp_all add: num_char_def is_digit_def)
  show ?thesis
    using n z e c list_all_take_drop [OF n [of "dcoef x"]]
    by (simp add: unsigned_text_def dec_str_def Let_def)
qed

lemma unsigned_text_head: "\<exists>c r. unsigned_text x = c # r \<and> is_digit c"
proof -
  obtain c r where c: "show_nat (dcoef x) = c # r" "is_digit c"
    using show_nat_hd [of "dcoef x"] show_nat_nonempty [of "dcoef x"]
    by (cases "show_nat (dcoef x)") auto
  then have "is_digit (CHR ''0'')" and "\<exists>t. take (Suc k) (show_nat (dcoef x)) = c # t" for k
    by (simp_all add: is_digit_def)
  moreover have "nat i = Suc (nat (i - 1))" if "0 < i" for i :: int using that by simp
  ultimately show ?thesis using c
    by (auto simp: unsigned_text_def dec_str_def Let_def not_le)
qed

lemma num_char_facts: "num_char c \<Longrightarrow> \<not> is_space c \<and> c \<noteq> CHR ''_''"
  by (auto simp: num_char_def is_digit_def is_space_def)

lemma strip_num: "list_all num_char s \<Longrightarrow> strip s = s \<and> filter (\<lambda>c. c \<noteq> CHR ''_'') s = s"
proof -
  assume s: "list_all num_char s"
  have l: "lstrip t = t" if "list_all num_char t" for t
    using that by (cases t) (auto simp: lstrip_def num_char_facts)
  from s have "list_all num_char (rev s)" by (simp add: list_all_iff)
  with s l show ?thesis
    by (auto simp: strip_def list_all_iff intro!: filter_True dest: num_char_facts)
qed

lemma special_word_digit: "is_digit c \<Longrightarrow> \<not> special_word (c # r)"
proof -
  assume c: "is_digit c"
  then have "lower c = c" by (auto simp: lower_def is_upper_def is_digit_def)
  moreover have "c \<noteq> CHR ''i''" "c \<noteq> CHR ''n''" "c \<noteq> CHR ''s''" using c by (auto simp: is_digit_def)
  ultimately show ?thesis by (simp add: special_word_def Let_def)
qed

lemma dec_of_str_dec_str: "dec_of_str (dec_str x) = Some (Finite x)"
proof -
  obtain s c e where x: "x = Fin s c e" by (cases x)
  obtain d r where u: "unsigned_text x = d # r" "is_digit d" using unsigned_text_head by blast
  have "list_all num_char (dec_str x)"
    using unsigned_text_chars [of x] by (simp add: dec_str_unsigned num_char_def)
  note st = strip_num [OF this]
  have "parse_unsigned s (d # r) = Some x"
    using parse_unsigned_text [of s s c e] u(1) by (simp add: x)
  moreover have "d \<noteq> CHR ''-''" "d \<noteq> CHR ''+''" using u(2) by (auto simp: is_digit_def)
  ultimately show ?thesis
    using st special_word_digit [OF u(2)] u(1) unfolding x
    by (cases s) (simp_all add: dec_of_str_def dec_str_unsigned Let_def)
qed

lemma dec_str_inj [simp]: "dec_str x = dec_str y \<longleftrightarrow> x = y"
  by (metis dec_of_str_dec_str dec_lit.inject option.inject)

end
