(* ===== verification/Json.thy ===== *)
theory Json
  imports PyText "HOL-Library.List_Lexorder" "HOL-Library.Char_ord"
begin

text \<open>
  The part of Python's \<open>json\<close> module the durable stores rely on: \<open>dumps\<close> with sorted keys and
  compact separators (with and without \<open>ensure_ascii\<close>), and \<open>loads\<close>. Objects are lists of
  key/value pairs, as \<open>object_pairs_hook\<close> receives them. Numbers are integers: a float literal
  makes \<open>loads\<close> fail here (no canonical record of the program holds one). The main lemma is the
  round trip, which makes canonical text an injective encoding of a value.
\<close>

datatype json =
    JNull
  | JBool bool
  | JInt int
  | JStr string
  | JArr "json list"
  | JObj "(string \<times> json) list"

subsection \<open>Printing\<close>

abbreviation quote :: char where "quote \<equiv> CHR 0x22"
abbreviation bslash :: char where "bslash \<equiv> CHR 0x5C"

definition hex_digit :: "nat \<Rightarrow> char" where
  "hex_digit n = ''0123456789abcdef'' ! n"

definition esc_char :: "bool \<Rightarrow> char \<Rightarrow> string" where
  "esc_char ascii c =
     (let n = (of_char c :: nat) in
      if n = 34 then [bslash, quote]
      else if n = 92 then [bslash, bslash]
      else if n = 10 then [bslash, CHR ''n'']
      else if n = 13 then [bslash, CHR ''r'']
      else if n = 9 then [bslash, CHR ''t'']
      else if n = 12 then [bslash, CHR ''f'']
      else if n = 8 then [bslash, CHR ''b'']
      else if n < 32 \<or> (ascii \<and> 126 < n)
        then [bslash, CHR ''u'', CHR ''0'', CHR ''0'', hex_digit (n div 16), hex_digit (n mod 16)]
      else [c])"

definition jstring :: "bool \<Rightarrow> string \<Rightarrow> string" where
  "jstring ascii s = quote # concat (map (esc_char ascii) s) @ [quote]"

fun jprint :: "bool \<Rightarrow> json \<Rightarrow> string"
  and jelems :: "bool \<Rightarrow> json list \<Rightarrow> string"
  and jmembers :: "bool \<Rightarrow> (string \<times> json) list \<Rightarrow> string" where
  "jprint a JNull = ''null''"
| "jprint a (JBool b) = (if b then ''true'' else ''false'')"
| "jprint a (JInt i) = show_int i"
| "jprint a (JStr s) = jstring a s"
| "jprint a (JArr xs) = CHR ''['' # jelems a xs @ '']''"
| "jprint a (JObj ms) = CHR ''{'' # jmembers a ms @ ''}''"
| "jelems a [] = []"
| "jelems a [x] = jprint a x"
| "jelems a (x # y # xs) = jprint a x @ CHR '','' # jelems a (y # xs)"
| "jmembers a [] = []"
| "jmembers a [(k, v)] = jstring a k @ CHR '':'' # jprint a v"
| "jmembers a ((k, v) # m # ms) = jstring a k @ CHR '':'' # jprint a v @ CHR '','' # jmembers a (m # ms)"

text \<open>\<open>sort_keys=True\<close> at every level.\<close>

fun canon :: "json \<Rightarrow> json" where
  "canon (JArr xs) = JArr (map canon xs)"
| "canon (JObj ms) = JObj (sort_key fst (map (\<lambda>(k, v). (k, canon v)) ms))"
| "canon j = j"

definition dumps :: "json \<Rightarrow> string" where
  "dumps j = jprint True (canon j)"

definition dumps_unicode :: "json \<Rightarrow> string" where
  "dumps_unicode j = jprint False (canon j)"

subsection \<open>Parsing\<close>

definition ws :: "string \<Rightarrow> string" where
  "ws s = dropWhile (\<lambda>c. c = CHR '' '' \<or> c = CHR 0x09 \<or> c = CHR 0x0A \<or> c = CHR 0x0D) s"

definition hex_val :: "char \<Rightarrow> nat option" where
  "hex_val c = (let n = (of_char c :: nat) in
     if 48 \<le> n \<and> n \<le> 57 then Some (n - 48)
     else if 97 \<le> n \<and> n \<le> 102 then Some (n - 87)
     else if 65 \<le> n \<and> n \<le> 70 then Some (n - 55)
     else None)"

definition hex4 :: "char \<Rightarrow> char \<Rightarrow> char \<Rightarrow> char \<Rightarrow> nat option" where
  "hex4 a b c d = (case (hex_val a, hex_val b, hex_val c, hex_val d) of
     (Some w, Some x, Some y, Some z) \<Rightarrow> Some (((w * 16 + x) * 16 + y) * 16 + z)
   | _ \<Rightarrow> None)"

definition simple_escape :: "char \<Rightarrow> char option" where
  "simple_escape c =
     (if c = quote then Some quote else if c = bslash then Some bslash
      else if c = CHR ''/'' then Some (CHR ''/'') else if c = CHR ''n'' then Some (CHR 0x0A)
      else if c = CHR ''r'' then Some (CHR 0x0D) else if c = CHR ''t'' then Some (CHR 0x09)
      else if c = CHR ''f'' then Some (CHR 0x0C) else if c = CHR ''b'' then Some (CHR 0x08)
      else None)"

definition cons_fst :: "char \<Rightarrow> (string \<times> string) option \<Rightarrow> (string \<times> string) option" where
  "cons_fst c r = map_option (\<lambda>(t, u). (c # t, u)) r"

text \<open>The characters of a string literal after its opening quote, and the text after it.\<close>

fun parse_str :: "string \<Rightarrow> (string \<times> string) option" where
  "parse_str [] = None"
| "parse_str (c # s) =
     (if c = quote then Some ([], s)
      else if c = bslash then
        (case s of
           [] \<Rightarrow> None
         | e # s' \<Rightarrow>
             if e = CHR ''u'' then
               (case s' of
                  w # x # y # z # s'' \<Rightarrow>
                    (case hex4 w x y z of
                       None \<Rightarrow> None
                     | Some n \<Rightarrow> if n < 256 then cons_fst (char_of n) (parse_str s'') else None)
                | _ \<Rightarrow> None)
             else (case simple_escape e of None \<Rightarrow> None | Some d \<Rightarrow> cons_fst d (parse_str s')))
      else if control c then None
      else cons_fst c (parse_str s))"

definition is_float_tail :: "string \<Rightarrow> bool" where
  "is_float_tail s = (case s of [] \<Rightarrow> False | c # _ \<Rightarrow> c = CHR ''.'' \<or> c = CHR ''e'' \<or> c = CHR ''E'')"

definition parse_num :: "string \<Rightarrow> (json \<times> string) option" where
  "parse_num s =
     (let (sg, t) = (case s of c # r \<Rightarrow> if c = CHR ''-'' then (True, r) else (False, s) | [] \<Rightarrow> (False, []));
          ds = takeWhile is_digit t; rest = dropWhile is_digit t
      in if ds = [] then None
         else if hd ds = CHR ''0'' \<and> 1 < length ds then None
         else if is_float_tail rest then None
         else Some (JInt (if sg then - int (read_nat ds) else int (read_nat ds)), rest))"

fun parse_val :: "nat \<Rightarrow> string \<Rightarrow> (json \<times> string) option"
  and parse_elems :: "nat \<Rightarrow> string \<Rightarrow> (json list \<times> string) option"
  and parse_members :: "nat \<Rightarrow> string \<Rightarrow> ((string \<times> json) list \<times> string) option" where
  "parse_val 0 s = None"
| "parse_val (Suc f) s =
     (case ws s of
        [] \<Rightarrow> None
      | c # r \<Rightarrow>
          if c = quote then map_option (\<lambda>(t, u). (JStr t, u)) (parse_str r)
          else if c = CHR ''{'' then
            (case ws r of
               [] \<Rightarrow> None
             | d # r' \<Rightarrow> if d = CHR ''}'' then Some (JObj [], r')
                        else map_option (\<lambda>(ms, u). (JObj ms, u)) (parse_members f (d # r')))
          else if c = CHR ''['' then
            (case ws r of
               [] \<Rightarrow> None
             | d # r' \<Rightarrow> if d = CHR '']'' then Some (JArr [], r')
                        else map_option (\<lambda>(xs, u). (JArr xs, u)) (parse_elems f (d # r')))
          else if take 4 (c # r) = ''null'' then Some (JNull, drop 4 (c # r))
          else if take 4 (c # r) = ''true'' then Some (JBool True, drop 4 (c # r))
          else if take 5 (c # r) = ''false'' then Some (JBool False, drop 5 (c # r))
          else parse_num (c # r))"
| "parse_elems 0 s = None"
| "parse_elems (Suc f) s =
     (case parse_val f s of
        None \<Rightarrow> None
      | Some (x, t) \<Rightarrow>
          (case ws t of
             [] \<Rightarrow> None
           | c # u \<Rightarrow> if c = CHR '']'' then Some ([x], u)
                      else if c = CHR '','' then map_option (\<lambda>(xs, v). (x # xs, v)) (parse_elems f u)
                      else None))"
| "parse_members 0 s = None"
| "parse_members (Suc f) s =
     (case ws s of
        [] \<Rightarrow> None
      | q # s' \<Rightarrow>
          if q \<noteq> quote then None
          else (case parse_str s' of
            None \<Rightarrow> None
          | Some (k, t) \<Rightarrow>
              (case ws t of
                 [] \<Rightarrow> None
               | col # t' \<Rightarrow>
                   if col \<noteq> CHR '':'' then None
                   else (case parse_val f t' of
                     None \<Rightarrow> None
                   | Some (v, u) \<Rightarrow>
                       (case ws u of
                          [] \<Rightarrow> None
                        | c # u' \<Rightarrow>
                            if c = CHR ''}'' then Some ([(k, v)], u')
                            else if c = CHR '','' then map_option (\<lambda>(ms, w). ((k, v) # ms, w)) (parse_members f u')
                            else None)))))"

definition loads :: "string \<Rightarrow> json option" where
  "loads s = (case parse_val (Suc (length s)) s of
     Some (j, r) \<Rightarrow> if ws r = [] then Some j else None
   | None \<Rightarrow> None)"

subsection \<open>Dictionaries\<close>

text \<open>A dictionary lookup: the last pair with the key wins.\<close>

definition jget :: "string \<Rightarrow> (string \<times> json) list \<Rightarrow> json option" where
  "jget k ms = map_of (rev ms) k"

definition jkeys :: "(string \<times> json) list \<Rightarrow> string list" where
  "jkeys ms = map fst ms"

text \<open>\<open>set(payload) == {...}\<close>\<close>

definition has_keys :: "string list \<Rightarrow> (string \<times> json) list \<Rightarrow> bool" where
  "has_keys ks ms \<longleftrightarrow> list_all (\<lambda>k. k \<in> set (jkeys ms)) ks \<and> list_all (\<lambda>k. k \<in> set ks) (jkeys ms)"

text \<open>Every object of the value has pairwise different keys, as Python dictionaries do.\<close>

fun unique_keys :: "json \<Rightarrow> bool" where
  "unique_keys (JArr xs) = list_all unique_keys xs"
| "unique_keys (JObj ms) = (distinct (map fst ms) \<and> list_all (\<lambda>(k, v). unique_keys v) ms)"
| "unique_keys j = True"

subsection \<open>Round trip\<close>

lemma hex_val_digit: "n < 16 \<Longrightarrow> hex_val (hex_digit n) = Some n"
proof -
  assume "n < 16"
  then have "n \<in> set [0..<16]" by simp
  moreover have "\<forall>n \<in> set [0..<16]. hex_val (hex_digit n) = Some n"
    by (simp add: upt_rec hex_val_def hex_digit_def numeral_nat nth_Cons')
  ultimately show ?thesis by blast
qed

lemma of_char_less: "(of_char c :: nat) < 256"
  using of_char_mod_256 [of c, where ?'a = nat] by (metis mod_less_divisor zero_less_numeral)

lemma hex4_esc:
  assumes "n < 256"
  shows "hex4 (CHR ''0'') (CHR ''0'') (hex_digit (n div 16)) (hex_digit (n mod 16)) = Some n"
proof -
  have "hex_val (CHR ''0'') = Some 0" by (simp add: hex_val_def)
  moreover have "n div 16 < 16" using assms by simp
  ultimately show ?thesis by (simp add: hex4_def hex_val_digit)
qed

lemma char_eqI: "(of_char c :: nat) = of_char d \<Longrightarrow> c = d"
  by (simp only: of_char_eq_iff)

lemma parse_str_esc: "parse_str (esc_char a c @ s) = cons_fst c (parse_str s)"
proof -
  define n where "n = (of_char c :: nat)"
  have c: "c = char_of n" and lt: "n < 256" by (simp_all add: n_def of_char_less)
  consider (special) "c \<in> {CHR 0x22, CHR 0x5C, CHR 0x0A, CHR 0x0D, CHR 0x09, CHR 0x0C, CHR 0x08}"
    | (u) "n \<notin> {34, 92, 10, 13, 9, 12, 8}" "n < 32 \<or> (a \<and> 126 < n)"
    | (plain) "n \<notin> {34, 92, 10, 13, 9, 12, 8}" "\<not> (n < 32 \<or> (a \<and> 126 < n))"
  proof -
    have "c \<in> {CHR 0x22, CHR 0x5C, CHR 0x0A, CHR 0x0D, CHR 0x09, CHR 0x0C, CHR 0x08}"
      if "n \<in> {34, 92, 10, 13, 9, 12, 8}"
      using that by (auto simp: n_def intro!: char_eqI)
    then show ?thesis using that by blast
  qed
  then show ?thesis
  proof cases
    case special
    then show ?thesis by (auto simp: esc_char_def simple_escape_def)
  next
    case u
    then have "esc_char a c = [bslash, CHR ''u'', CHR ''0'', CHR ''0'', hex_digit (n div 16), hex_digit (n mod 16)]"
      by (simp add: esc_char_def Let_def flip: n_def)
    then show ?thesis using lt by (simp add: hex4_esc c)
  next
    case plain
    then have "esc_char a c = [c]" by (simp add: esc_char_def Let_def flip: n_def)
    moreover have "c \<noteq> quote" "c \<noteq> bslash" "\<not> control c"
      using plain by (auto simp: n_def control_def)
    ultimately show ?thesis by simp
  qed
qed

lemma parse_jstring: "parse_str (concat (map (esc_char a) s) @ quote # r) = Some (s, r)"
  by (induction s) (simp_all add: parse_str_esc cons_fst_def)

subsubsection \<open>Values\<close>

text \<open>Text that may follow a printed value: nothing a number could swallow.\<close>

definition stops :: "string \<Rightarrow> bool" where
  "stops s = (case s of [] \<Rightarrow> True | c # _ \<Rightarrow> c = CHR '','' \<or> c = CHR ''}'' \<or> c = CHR '']'')"

fun fuel :: "json \<Rightarrow> nat" and fuel_list :: "json list \<Rightarrow> nat" and fuel_obj :: "(string \<times> json) list \<Rightarrow> nat" where
  "fuel (JArr xs) = Suc (fuel_list xs)"
| "fuel (JObj ms) = Suc (fuel_obj ms)"
| "fuel _ = 1"
| "fuel_list [] = 0"
| "fuel_list (x # xs) = Suc (max (fuel x) (fuel_list xs))"
| "fuel_obj [] = 0"
| "fuel_obj ((k, v) # ms) = Suc (max (fuel v) (fuel_obj ms))"

lemma ws_stop: "c \<notin> {CHR '' '', CHR 0x09, CHR 0x0A, CHR 0x0D} \<Longrightarrow> ws (c # s) = c # s"
  by (auto simp: ws_def)

lemma show_int_shape:
  obtains c r where "show_int i = c # r" "c = CHR ''-'' \<or> is_digit c"
proof (cases "i < 0")
  case True
  then show ?thesis using that by (simp add: show_int_def)
next
  case False
  then show ?thesis using that show_nat_hd [of "nat i"] show_nat_nonempty [of "nat i"]
    by (cases "show_nat (nat i)") (auto simp: show_int_def)
qed

lemma digits_span:
  assumes "list_all is_digit ds" "stops r"
  shows "takeWhile is_digit (ds @ r) = ds" "dropWhile is_digit (ds @ r) = r"
proof -
  have r: "takeWhile is_digit r = []" "dropWhile is_digit r = r"
    using assms(2) by (cases r; auto simp: stops_def is_digit_def)+
  show "takeWhile is_digit (ds @ r) = ds" "dropWhile is_digit (ds @ r) = r"
    using assms(1) r by (induction ds) auto
qed

lemma show_nat_no_leading_zero: "hd (show_nat n) = CHR ''0'' \<Longrightarrow> length (show_nat n) = 1"
proof (induction n rule: show_nat.induct)
  case (1 n)
  show ?case
  proof (cases "n < 10")
    case True
    then show ?thesis by (simp add: show_nat.simps [of n])
  next
    case False
    then have eq: "show_nat n = show_nat (n div 10) @ [digit_char (n mod 10)]"
      by (simp add: show_nat.simps [of n])
    with "1.prems" have "hd (show_nat (n div 10)) = CHR ''0''" by simp
    with "1.IH" False have "length (show_nat (n div 10)) = 1" by simp
    then obtain c where c: "show_nat (n div 10) = [c]" by (cases "show_nat (n div 10)") auto
    with \<open>hd (show_nat (n div 10)) = CHR ''0''\<close> have "read_nat (show_nat (n div 10)) = 0"
      by (simp add: read_nat_def digit_val_def)
    with False show ?thesis by simp
  qed
qed

lemma parse_num_show_int: "stops r \<Longrightarrow> parse_num (show_int i @ r) = Some (JInt i, r)"
proof -
  assume r: "stops r"
  let ?ds = "\<lambda>n. show_nat n"
  note span = digits_span [OF show_nat_digits r]
  have fl: "\<not> is_float_tail r" using r by (cases r) (auto simp: stops_def is_float_tail_def)
  have lead: "\<not> (hd (show_nat n) = CHR ''0'' \<and> 1 < length (show_nat n))" for n
    using show_nat_no_leading_zero [of n] by auto
  have hd: "case show_nat n @ r of c # r' \<Rightarrow> c \<noteq> CHR ''-'' | [] \<Rightarrow> False" for n
    using show_nat_hd [of n] digit_not_special by (cases "show_nat n") auto
  show ?thesis
  proof (cases "i < 0")
    case True
    with span lead fl show ?thesis
      by (simp add: show_int_def parse_num_def Let_def)
  next
    case False
    obtain c t where ct: "show_nat (nat i) = c # t" by (cases "show_nat (nat i)") auto
    with hd [of "nat i"] have "c \<noteq> CHR ''-''" by simp
    with False span [of "nat i"] lead [of "nat i"] fl ct show ?thesis
      using read_show_nat [of "nat i"] by (simp add: show_int_def parse_num_def Let_def)
  qed
qed

lemma jprint_head:
  obtains c t where "jprint a j = c # t" "c \<notin> {CHR '' '', CHR 0x09, CHR 0x0A, CHR 0x0D, CHR ''}'', CHR '']''}"
proof (cases j)
  case (JInt i)
  obtain c t where "show_int i = c # t" "c = CHR ''-'' \<or> is_digit c" by (rule show_int_shape)
  then show ?thesis using that [of c t] JInt by (auto simp: is_digit_def)
next
  case (JBool b)
  then show ?thesis using that by (cases b) auto
qed (use that in \<open>auto simp: jstring_def\<close>)

lemma parse_val_int: "stops r \<Longrightarrow> parse_val (Suc f) (show_int i @ r) = Some (JInt i, r)"
proof -
  assume r: "stops r"
  obtain c t where ct: "show_int i = c # t" and c: "c = CHR ''-'' \<or> is_digit c" by (rule show_int_shape)
  have "c \<notin> {CHR '' '', CHR 0x09, CHR 0x0A, CHR 0x0D, quote, CHR ''{'', CHR ''['', CHR ''n'', CHR ''t'', CHR ''f''}"
    using c by (auto simp: is_digit_def)
  then show ?thesis using parse_num_show_int [OF r, of i] by (simp add: ct ws_stop)
qed

lemma parse_printed:
  "stops r \<Longrightarrow> fuel j \<le> f \<Longrightarrow> parse_val f (jprint a j @ r) = Some (j, r)"
  "xs \<noteq> [] \<Longrightarrow> fuel_list xs \<le> f \<Longrightarrow> parse_elems f (jelems a xs @ CHR '']'' # r) = Some (xs, r)"
  "ms \<noteq> [] \<Longrightarrow> fuel_obj ms \<le> f \<Longrightarrow> parse_members f (jmembers a ms @ CHR ''}'' # r) = Some (ms, r)"
proof (induction a j and a xs and a ms arbitrary: f r and f r and f r rule: jprint_jelems_jmembers.induct)
  case (1 a)
  then show ?case by (cases f) (simp_all add: ws_stop)
next
  case (2 a b)
  then show ?case by (cases f) (simp_all add: ws_stop)
next
  case (3 a i)
  then show ?case by (cases f) (simp_all add: parse_val_int del: parse_val.simps(2))
next
  case (4 a s)
  then show ?case by (cases f) (simp_all add: ws_stop jstring_def parse_jstring)
next
  case (5 a xs)
  then obtain g where f: "f = Suc g" by (cases f) simp_all
  show ?case
  proof (cases xs)
    case Nil
    then show ?thesis by (simp add: f ws_stop)
  next
    case (Cons x xs')
    obtain c t where ct: "jprint a x = c # t"
      "c \<notin> {CHR '' '', CHR 0x09, CHR 0x0A, CHR 0x0D, CHR ''}'', CHR '']''}" by (rule jprint_head)
    obtain t' where t': "jelems a xs = c # t'" using Cons ct(1) by (cases xs') simp_all
    have "parse_elems g (jelems a xs @ CHR '']'' # r) = Some (xs, r)"
      using 5 Cons f by simp
    then show ?thesis using ct(2) by (simp add: f t' ws_stop)
  qed
next
  case (6 a ms)
  then obtain g where f: "f = Suc g" by (cases f) simp_all
  show ?case
  proof (cases ms)
    case Nil
    then show ?thesis by (simp add: f ws_stop)
  next
    case (Cons m ms')
    obtain t' where t': "jmembers a ms = quote # t'"
      using Cons by (cases m; cases ms') (simp_all add: jstring_def)
    have "parse_members g (jmembers a ms @ CHR ''}'' # r) = Some (ms, r)"
      using 6 Cons f by simp
    then show ?thesis by (simp add: f t' ws_stop)
  qed
next
  case (7 a)
  then show ?case by simp
next
  case (8 a x)
  then obtain g where f: "f = Suc g" by (cases f) simp_all
  have "parse_val g (jprint a x @ CHR '']'' # r) = Some (x, CHR '']'' # r)"
    using 8 f by (intro 8) (simp_all add: stops_def)
  then show ?case by (simp add: f ws_stop)
next
  case (9 a x y xs)
  then obtain g where f: "f = Suc g" by (cases f) simp_all
  have "parse_val g (jprint a x @ CHR '','' # jelems a (y # xs) @ CHR '']'' # r) =
      Some (x, CHR '','' # jelems a (y # xs) @ CHR '']'' # r)"
    using 9 f by (intro 9(1)) (simp_all add: stops_def)
  moreover have "parse_elems g (jelems a (y # xs) @ CHR '']'' # r) = Some (y # xs, r)"
    using 9 f by (intro 9(2)) simp_all
  ultimately show ?case by (simp add: f ws_stop)
next
  case (10 a)
  then show ?case by simp
next
  case (11 a k v)
  then obtain g where f: "f = Suc g" by (cases f) simp_all
  have "parse_val g (jprint a v @ CHR ''}'' # r) = Some (v, CHR ''}'' # r)"
    using 11 f by (intro 11) (simp_all add: stops_def)
  then show ?case by (simp add: f ws_stop jstring_def parse_jstring)
next
  case (12 a k v m ms)
  then obtain g where f: "f = Suc g" by (cases f) simp_all
  have "parse_val g (jprint a v @ CHR '','' # jmembers a (m # ms) @ CHR ''}'' # r) =
      Some (v, CHR '','' # jmembers a (m # ms) @ CHR ''}'' # r)"
    using 12 f by (intro 12(1)) (simp_all add: stops_def)
  moreover have "parse_members g (jmembers a (m # ms) @ CHR ''}'' # r) = Some (m # ms, r)"
    using 12 f by (intro 12(2)) simp_all
  ultimately show ?case by (simp add: f ws_stop jstring_def parse_jstring)
qed

lemma fuel_length:
  "fuel j \<le> length (jprint a j)"
  "fuel_list xs \<le> Suc (length (jelems a xs))"
  "fuel_obj ms \<le> length (jmembers a ms)"
proof (induction a j and a xs and a ms rule: jprint_jelems_jmembers.induct)
  case (3 a i)
  obtain c r where "show_int i = c # r" by (rule show_int_shape)
  then show ?case by simp
next
  case (9 a x y xs)
  obtain c t where "jprint a x = c # t" by (rule jprint_head)
  with 9 show ?case by simp
qed (simp_all add: jstring_def)

lemma loads_jprint: "loads (jprint a j) = Some j"
proof -
  have "parse_val (Suc (length (jprint a j))) (jprint a j @ []) = Some (j, [])"
    by (rule parse_printed) (simp_all add: stops_def fuel_length le_SucI)
  then show ?thesis by (simp add: loads_def ws_def)
qed

lemma loads_dumps: "loads (dumps j) = Some (canon j)"
  by (simp add: dumps_def loads_jprint)

lemma loads_dumps_unicode: "loads (dumps_unicode j) = Some (canon j)"
  by (simp add: dumps_unicode_def loads_jprint)

lemma dumps_eq_iff [simp]: "dumps i = dumps j \<longleftrightarrow> canon i = canon j"
  by (metis dumps_def loads_jprint option.inject)

subsection \<open>Sorted dictionaries\<close>

lemma map_of_sort_key: "distinct (map fst ms) \<Longrightarrow> map_of (sort_key fst ms) = map_of ms"
  by (subst map_of_inject_set) (simp_all add: distinct_map)

lemma map_of_rev_distinct: "distinct (map fst ms) \<Longrightarrow> map_of (rev ms) = map_of ms"
  by (subst map_of_inject_set) (simp_all add: distinct_map)

lemma jget_map_of: "distinct (map fst ms) \<Longrightarrow> jget k ms = map_of ms k"
  by (simp add: jget_def map_of_rev_distinct)

text \<open>Reading a canonical object back gives the same dictionary, values in canonical order.\<close>

definition canon_members :: "(string \<times> json) list \<Rightarrow> (string \<times> json) list" where
  "canon_members ms = sort_key fst (map (\<lambda>(k, v). (k, canon v)) ms)"

lemma canon_JObj [simp]: "canon (JObj ms) = JObj (canon_members ms)"
  by (simp add: canon_members_def)

lemma map_fst_canon: "map fst (map (\<lambda>(k, v). (k, canon v)) ms) = map fst ms"
  by (induction ms) auto

lemma distinct_canon_members: "distinct (map fst ms) \<Longrightarrow> distinct (map fst (canon_members ms))"
proof -
  assume d: "distinct (map fst ms)"
  have "distinct (map fst (map (\<lambda>(k, v). (k, canon v)) ms))" using d by (simp only: map_fst_canon)
  then show ?thesis unfolding canon_members_def
    by (simp only: distinct_map set_sort distinct_sort)
qed

lemma map_of_map_canon: "map_of (map (\<lambda>(k, v). (k, canon v)) ms) k = map_option canon (map_of ms k)"
  by (induction ms) auto

lemma jget_canon_members:
  assumes "distinct (map fst ms)"
  shows "jget k (canon_members ms) = map_option canon (map_of ms k)"
proof -
  have "distinct (map fst (map (\<lambda>(k, v). (k, canon v)) ms))" using assms by (simp only: map_fst_canon)
  then show ?thesis
    using jget_map_of [OF distinct_canon_members [OF assms]]
    by (simp add: canon_members_def map_of_sort_key map_of_map_canon)
qed

lemma jkeys_canon_members: "set (jkeys (canon_members ms)) = fst ` set ms"
  by (force simp: jkeys_def canon_members_def)

declare canon.simps(2) [simp del]

lemma canon_members_flat:
  assumes "distinct (map fst ms)" "\<And>k v. (k, v) \<in> set ms \<Longrightarrow> canon v = v"
  shows "jget k (canon_members ms) = jget k ms"
proof -
  have "map_option canon (map_of ms k) = map_of ms k"
    using assms(2) by (cases "map_of ms k") (auto dest: map_of_SomeD)
  then show ?thesis using assms(1) by (simp add: jget_canon_members jget_map_of)
qed

lemma sort_key_sorted: "sorted (map f xs) \<Longrightarrow> sort_key f xs = xs"
  by (induction xs) (auto simp: insort_is_Cons)

text \<open>Canonical form is stable, so hashing a stored value hashes the value that was written.\<close>

lemma canon_members_idem_aux:
  assumes "\<And>k v. (k, v) \<in> set ms \<Longrightarrow> canon (canon v) = canon v"
  shows "canon_members (canon_members ms) = canon_members ms"
proof -
  let ?h = "\<lambda>(k :: string, v). (k, canon v)"
  have set: "set (sort_key fst (map ?h ms)) = ?h ` set ms" by simp
  have "map ?h (sort_key fst (map ?h ms)) = sort_key fst (map ?h ms)"
    by (rule map_idI) (use assms in \<open>auto simp: set\<close>)
  then show ?thesis
    by (simp add: canon_members_def sort_key_sorted)
qed

lemma canon_idem [simp]: "canon (canon j) = canon j"
proof (induction j rule: canon.induct)
  case (1 xs)
  then show ?case by simp
next
  case (2 ms)
  then show ?case by (simp add: canon_members_idem_aux [simplified])
qed simp_all

lemma canon_members_idem [simp]: "canon_members (canon_members ms) = canon_members ms"
  using canon_idem [of "JObj ms"] by simp

end
