(* ===== verification/Calendar.thy ===== *)
theory Calendar
  imports PyText
begin

text \<open>
  Instants and dates. An instant is a number of microseconds since 0001-01-01T00:00 UTC, the
  first moment a Python \<open>datetime\<close> can name; a \<open>datetime\<close> value is naive or aware, and every
  guard of the form \<open>tzinfo is None or utcoffset() is None\<close> asks which. The stores write
  \<open>astimezone(utc).isoformat()\<close>, modelled by \<open>iso_utc\<close>, whose text determines the instant.
\<close>

datatype datetime = Naive int | Aware int

type_synonym instant = int

definition utc_instant :: "exn \<Rightarrow> datetime \<Rightarrow> instant res" where
  "utc_instant e d = (case d of Naive _ \<Rightarrow> Inl e | Aware t \<Rightarrow> Inr t)"

lemma utc_instant_simps [simp]:
  "utc_instant e (Naive t) = Inl e" "utc_instant e (Aware t) = Inr t"
  by (simp_all add: utc_instant_def)

lemma utc_instant_Inr [res_simps]: "utc_instant e d = Inr t \<longleftrightarrow> d = Aware t"
  by (cases d) auto

subsection \<open>The proleptic Gregorian calendar\<close>

definition leap :: "nat \<Rightarrow> bool" where
  "leap y \<longleftrightarrow> 4 dvd y \<and> (\<not> 100 dvd y \<or> 400 dvd y)"

definition year_days :: "nat \<Rightarrow> nat" where
  "year_days y = (if leap y then 366 else 365)"

definition month_lengths :: "nat \<Rightarrow> nat list" where
  "month_lengths y = [31, if leap y then 29 else 28, 31, 30, 31, 30, 31, 31, 30, 31, 30, 31]"

function find_year :: "nat \<Rightarrow> nat \<Rightarrow> nat \<times> nat" where
  "find_year y d = (if d < year_days y then (y, d) else find_year (Suc y) (d - year_days y))"
  by pat_completeness auto
termination
  by (relation "measure snd") (auto simp: year_days_def)

declare find_year.simps [simp del]

fun find_month :: "nat \<Rightarrow> nat list \<Rightarrow> nat \<Rightarrow> nat \<times> nat" where
  "find_month m [] d = (m, d)"
| "find_month m (l # ls) d = (if d < l then (m, d) else find_month (Suc m) ls (d - l))"

text \<open>Day number (0 is 0001-01-01) to year, month and day of month.\<close>

definition civil :: "nat \<Rightarrow> nat \<times> nat \<times> nat" where
  "civil n = (case find_year 1 n of (y, d) \<Rightarrow>
     case find_month 1 (month_lengths y) d of (m, k) \<Rightarrow> (y, m, k + 1))"

definition days_to_year :: "nat \<Rightarrow> nat" where
  "days_to_year y = sum_list (map year_days [1..<y])"

definition day_number :: "nat \<Rightarrow> nat \<Rightarrow> nat \<Rightarrow> nat" where
  "day_number y m k = days_to_year y + sum_list (take (m - 1) (month_lengths y)) + (k - 1)"

lemma find_year_inverse: "1 \<le> y \<Longrightarrow> find_year y d = (y', d') \<Longrightarrow>
    days_to_year y' + d' = days_to_year y + d \<and> y \<le> y' \<and> d' < year_days y'"
proof (induction y d rule: find_year.induct)
  case (1 y d)
  show ?case
  proof (cases "d < year_days y")
    case True
    with 1 show ?thesis by (simp add: find_year.simps [of y d])
  next
    case False
    with "1.prems" have "find_year (Suc y) (d - year_days y) = (y', d')"
      by (simp add: find_year.simps [of y d])
    with "1.IH" [OF False] "1.prems"(1) False show ?thesis by (simp add: days_to_year_def)
  qed
qed

lemma find_month_inverse:
  assumes "find_month m ls d = (m', k)" "d < sum_list ls"
  shows "m \<le> m' \<and> m' < m + length ls \<and> sum_list (take (m' - m) ls) + k = d"
  using assms
proof (induction m ls d rule: find_month.induct)
  case (1 m d)
  then show ?case by simp
next
  case (2 m l ls d)
  show ?case
  proof (cases "d < l")
    case True
    with 2 show ?thesis by simp
  next
    case False
    with 2 have IH: "Suc m \<le> m' \<and> m' < Suc m + length ls \<and> sum_list (take (m' - Suc m) ls) + k = d - l"
      by simp
    then have "m' - m = Suc (m' - Suc m)" by arith
    then have "sum_list (take (m' - m) (l # ls)) = l + sum_list (take (m' - Suc m) ls)" by simp
    with IH False show ?thesis by (simp del: take_Cons) linarith
  qed
qed

lemma month_lengths_sum: "sum_list (month_lengths y) = year_days y"
  by (simp add: month_lengths_def year_days_def)

lemma day_number_civil: "civil n = (y, m, k) \<Longrightarrow> day_number y m k = n"
proof -
  assume c: "civil n = (y, m, k)"
  obtain d where y: "find_year 1 n = (y, d)" and m: "find_month 1 (month_lengths y) d = (m, k - 1)" "1 \<le> k"
    using c by (auto simp: civil_def split: prod.splits)
  from find_year_inverse [OF _ y] have "days_to_year y + d = n" "d < sum_list (month_lengths y)"
    by (simp_all add: days_to_year_def month_lengths_sum)
  with find_month_inverse [OF m(1)] show ?thesis by (simp add: day_number_def)
qed

lemma civil_inj: "civil a = civil b \<Longrightarrow> a = b"
  by (cases "civil b") (metis day_number_civil)

subsection \<open>Text\<close>

definition pad :: "nat \<Rightarrow> nat \<Rightarrow> string" where
  "pad w n = replicate (w - length (show_nat n)) (CHR ''0'') @ show_nat n"

lemma read_pad [simp]: "read_nat (pad w n) = n"
  by (simp add: pad_def)

lemma pad_digits: "list_all is_digit (pad w n)"
  by (simp add: pad_def show_nat_digits digits_zeros)

lemma pad_inj [simp]: "pad w m = pad w n \<longleftrightarrow> m = n"
  by (metis read_pad)

lemma digits_prefix_eq:
  assumes "list_all is_digit xs" "list_all is_digit ys" "\<not> is_digit c" "\<not> is_digit d"
    and "xs @ c # r = ys @ d # s"
  shows "xs = ys \<and> c = d \<and> r = s"
proof -
  have t: "takeWhile is_digit (zs @ e # u) = zs" if "list_all is_digit zs" "\<not> is_digit e" for zs e u
    using that by (induction zs) auto
  from assms t [of xs c r] t [of ys d s] have "xs = ys" by simp
  with assms(5) show ?thesis by simp
qed

lemma pad_prefix_eq:
  assumes "pad w m @ c # r = pad w' n @ d # s" "\<not> is_digit c" "\<not> is_digit d"
  shows "m = n \<and> c = d \<and> r = s"
  using digits_prefix_eq [OF pad_digits pad_digits assms(2,3,1)] by (metis read_pad)

definition date_iso :: "nat \<Rightarrow> string" where
  "date_iso n = (case civil n of (y, m, k) \<Rightarrow> pad 4 y @ CHR ''-'' # pad 2 m @ CHR ''-'' # pad 2 k)"

lemma non_digits [simp]: "\<not> is_digit (CHR ''-'')" "\<not> is_digit (CHR '':'')" "\<not> is_digit (CHR ''.'')"
    "\<not> is_digit (CHR ''+'')" "\<not> is_digit (CHR ''T'')"
  by (simp_all add: is_digit_def)

lemma date_iso_append_eq:
  assumes "date_iso a @ CHR ''T'' # r = date_iso b @ CHR ''T'' # s"
  shows "a = b \<and> r = s"
proof -
  obtain y m k y' m' k' where c: "civil a = (y, m, k)" "civil b = (y', m', k')"
    by (cases "civil a"; cases "civil b") auto
  with assms have 1: "pad 4 y @ CHR ''-'' # pad 2 m @ CHR ''-'' # pad 2 k @ CHR ''T'' # r =
      pad 4 y' @ CHR ''-'' # pad 2 m' @ CHR ''-'' # pad 2 k' @ CHR ''T'' # s"
    by (simp add: date_iso_def)
  from pad_prefix_eq [OF 1] have y: "y = y'"
    and 2: "pad 2 m @ CHR ''-'' # pad 2 k @ CHR ''T'' # r = pad 2 m' @ CHR ''-'' # pad 2 k' @ CHR ''T'' # s"
    by simp_all
  from pad_prefix_eq [OF 2] have m: "m = m'"
    and 3: "pad 2 k @ CHR ''T'' # r = pad 2 k' @ CHR ''T'' # s" by simp_all
  from pad_prefix_eq [OF 3] have "k = k'" "r = s" by simp_all
  with y m c civil_inj show ?thesis by metis
qed

lemma date_iso_inj [simp]: "date_iso a = date_iso b \<longleftrightarrow> a = b"
  using date_iso_append_eq [of a "[]" b "[]"] by auto

text \<open>\<open>date.fromisoformat\<close> on the form \<open>isoformat\<close> writes.\<close>

definition date_of_iso :: "string \<Rightarrow> nat option" where
  "date_of_iso s =
     (let ys = take 4 s; ms = take 2 (drop 5 s); ds = drop 8 s;
          y = read_nat ys; m = read_nat ms; k = read_nat ds
      in if length s = 10 \<and> s ! 4 = CHR ''-'' \<and> s ! 7 = CHR ''-'' \<and> list_all is_digit (ys @ ms @ ds)
            \<and> 1 \<le> y \<and> 1 \<le> m \<and> m \<le> 12 \<and> 1 \<le> k \<and> k \<le> month_lengths y ! (m - 1)
         then Some (day_number y m k) else None)"

definition day_us :: nat where "day_us = 86400000000"

text \<open>\<open>astimezone(timezone.utc).isoformat()\<close>\<close>

definition iso_utc :: "instant \<Rightarrow> string" where
  "iso_utc t =
     (let n = nat t; day = n div day_us; u = n mod day_us; sec = u div 1000000; us = u mod 1000000
      in date_iso day @ CHR ''T'' # pad 2 (sec div 3600) @ CHR '':'' # pad 2 (sec div 60 mod 60)
         @ CHR '':'' # pad 2 (sec mod 60)
         @ (if us = 0 then ''+00:00'' else CHR ''.'' # pad 6 us @ ''+00:00''))"

lemma clock_split: "(sec::nat) = sec div 3600 * 3600 + sec div 60 mod 60 * 60 + sec mod 60"
proof -
  have "sec div 3600 = sec div 60 div 60" by (simp flip: div_mult2_eq)
  then show ?thesis using div_mult_mod_eq [of sec 60] div_mult_mod_eq [of "sec div 60" 60] by linarith
qed

lemma iso_utc_inj:
  assumes "iso_utc s = iso_utc t" "0 \<le> s" "0 \<le> t"
  shows "s = t"
proof -
  define f where "f us = (if us = 0 then ''+00:00'' else CHR ''.'' # pad 6 us @ ''+00:00'')" for us :: nat
  have f: "us = us'" if "f us = f us'" for us us'
    using that pad_prefix_eq [of 6 us "CHR ''+''" "''00:00''" 6 us' "CHR ''+''" "''00:00''"]
    by (auto simp: f_def split: if_splits)
  have fh: "\<exists>c r. f us = c # r \<and> \<not> is_digit c" for us
    by (simp add: f_def)
  define a b where "a = nat s" and "b = nat t"
  define sa sb where "sa = a mod day_us div 1000000" and "sb = b mod day_us div 1000000"
  from assms(1) have eq: "date_iso (a div day_us) @ CHR ''T'' # pad 2 (sa div 3600) @ CHR '':'' #
        pad 2 (sa div 60 mod 60) @ CHR '':'' # pad 2 (sa mod 60) @ f (a mod day_us mod 1000000) =
      date_iso (b div day_us) @ CHR ''T'' # pad 2 (sb div 3600) @ CHR '':'' #
        pad 2 (sb div 60 mod 60) @ CHR '':'' # pad 2 (sb mod 60) @ f (b mod day_us mod 1000000)"
    by (simp add: iso_utc_def Let_def a_def b_def sa_def sb_def f_def)
  from date_iso_append_eq [OF eq] have day: "a div day_us = b div day_us"
    and 2: "pad 2 (sa div 3600) @ CHR '':'' # pad 2 (sa div 60 mod 60) @ CHR '':'' # pad 2 (sa mod 60) @
        f (a mod day_us mod 1000000) = pad 2 (sb div 3600) @ CHR '':'' # pad 2 (sb div 60 mod 60) @
        CHR '':'' # pad 2 (sb mod 60) @ f (b mod day_us mod 1000000)" by simp_all
  from pad_prefix_eq [OF 2] have h: "sa div 3600 = sb div 3600"
    and 3: "pad 2 (sa div 60 mod 60) @ CHR '':'' # pad 2 (sa mod 60) @ f (a mod day_us mod 1000000) =
        pad 2 (sb div 60 mod 60) @ CHR '':'' # pad 2 (sb mod 60) @ f (b mod day_us mod 1000000)" by simp_all
  from pad_prefix_eq [OF 3] have m: "sa div 60 mod 60 = sb div 60 mod 60"
    and 4: "pad 2 (sa mod 60) @ f (a mod day_us mod 1000000) = pad 2 (sb mod 60) @ f (b mod day_us mod 1000000)"
    by simp_all
  obtain c r c' r' where "f (a mod day_us mod 1000000) = c # r" "\<not> is_digit c"
    "f (b mod day_us mod 1000000) = c' # r'" "\<not> is_digit c'" using fh by metis
  with 4 pad_prefix_eq [of 2 "sa mod 60" c r 2 "sb mod 60" c' r']
  have sec: "sa mod 60 = sb mod 60" and us: "a mod day_us mod 1000000 = b mod day_us mod 1000000"
    by (auto intro: f)
  have "sa = sb" using clock_split [of sa] clock_split [of sb] h m sec by simp
  then have "a mod day_us = b mod day_us"
    using us by (metis sa_def sb_def div_mult_mod_eq)
  with day have "a = b" by (metis div_mult_mod_eq)
  with assms(2,3) show ?thesis by (simp add: a_def b_def)
qed

lemma iso_utc_eq_iff: "0 \<le> s \<Longrightarrow> 0 \<le> t \<Longrightarrow> iso_utc s = iso_utc t \<longleftrightarrow> s = t"
  using iso_utc_inj by blast

text \<open>The civil day in \<open>Asia/Kolkata\<close> (UTC+05:30 since 1945).\<close>

definition kolkata_day :: "instant \<Rightarrow> nat" where
  "kolkata_day t = nat (t + 19800000000) div day_us"

text \<open>\<open>strftime("%Y-%m")\<close>\<close>

definition month_text :: "instant \<Rightarrow> string" where
  "month_text t = (case civil (nat t div day_us) of (y, m, k) \<Rightarrow> pad 4 y @ CHR ''-'' # pad 2 m)"

end
