(* ===== verification/Domain.thy ===== *)
theory Domain
  imports DecText Json Calendar
begin

text \<open>
  \<^verbatim>\<open>src/quant_ai/domain/models.py\<close> and \<^verbatim>\<open>src/quant_ai/instruments/identity.py\<close>: markets, asset
  classes, instruments with their contract identity, order intents, and the canonical text of
  an instrument. An instrument-bound order is an order whose \<open>oi_instrument\<close> is \<open>Some\<close>. Dates
  are day numbers. Values of another type than the annotated one are outside the model, except
  where they come out of parsed JSON.
\<close>

subsection \<open>Enumerations\<close>

datatype Market = INDIA | USA | GLOBAL

definition market_value :: "Market \<Rightarrow> string" where
  "market_value m = (case m of INDIA \<Rightarrow> ''INDIA'' | USA \<Rightarrow> ''USA'' | GLOBAL \<Rightarrow> ''GLOBAL'')"

definition market_of :: "string \<Rightarrow> Market option" where
  "market_of s = find (\<lambda>m. market_value m = s) [INDIA, USA, GLOBAL]"

datatype AssetClass = EQUITY | ETF | INDEX | OPTION | FUTURE | FX | COMMODITY | METAL | BOND
  | DEBT | FUND | REIT | INVIT | SLB | IPO | SGB | CRYPTO

definition asset_classes :: "AssetClass list" where
  "asset_classes = [EQUITY, ETF, INDEX, OPTION, FUTURE, FX, COMMODITY, METAL, BOND, DEBT, FUND,
     REIT, INVIT, SLB, IPO, SGB, CRYPTO]"

definition asset_value :: "AssetClass \<Rightarrow> string" where
  "asset_value a = (case a of EQUITY \<Rightarrow> ''EQUITY'' | ETF \<Rightarrow> ''ETF'' | INDEX \<Rightarrow> ''INDEX''
     | OPTION \<Rightarrow> ''OPTION'' | FUTURE \<Rightarrow> ''FUTURE'' | FX \<Rightarrow> ''FX'' | COMMODITY \<Rightarrow> ''COMMODITY''
     | METAL \<Rightarrow> ''METAL'' | BOND \<Rightarrow> ''BOND'' | DEBT \<Rightarrow> ''DEBT'' | FUND \<Rightarrow> ''FUND'' | REIT \<Rightarrow> ''REIT''
     | INVIT \<Rightarrow> ''INVIT'' | SLB \<Rightarrow> ''SLB'' | IPO \<Rightarrow> ''IPO'' | SGB \<Rightarrow> ''SGB'' | CRYPTO \<Rightarrow> ''CRYPTO'')"

definition asset_of :: "string \<Rightarrow> AssetClass option" where
  "asset_of s = find (\<lambda>a. asset_value a = s) asset_classes"

datatype Side = BUY | SELL

definition side_value :: "Side \<Rightarrow> string" where
  "side_value s = (case s of BUY \<Rightarrow> ''BUY'' | SELL \<Rightarrow> ''SELL'')"

definition side_of :: "string \<Rightarrow> Side option" where
  "side_of s = find (\<lambda>d. side_value d = s) [BUY, SELL]"

lemma market_of_value [simp]: "market_of (market_value m) = Some m"
  by (cases m) (simp_all add: market_of_def market_value_def)

lemma asset_of_value [simp]: "asset_of (asset_value a) = Some a"
  by (cases a) (simp_all add: asset_of_def asset_value_def asset_classes_def)

lemma side_of_value [simp]: "side_of (side_value s) = Some s"
  by (cases s) (simp_all add: side_of_def side_value_def)

lemma enum_value_inj [simp]:
  "market_value m = market_value m' \<longleftrightarrow> m = m'"
  "asset_value a = asset_value a' \<longleftrightarrow> a = a'"
  "side_value s = side_value s' \<longleftrightarrow> s = s'"
  by (metis market_of_value option.inject, metis asset_of_value option.inject,
      metis side_of_value option.inject)

subsection \<open>Instruments and orders\<close>

definition derivative_exchanges :: "string list" where
  "derivative_exchanges = [''MCX'', ''NCDEX'', ''NFO'', ''BFO'', ''CDS'', ''BCD'', ''MSEI'', ''IFSC'']"

definition derivative_asset_classes :: "AssetClass list" where
  "derivative_asset_classes = [FUTURE, OPTION]"

record Instrument =
  in_symbol :: string
  in_market :: Market
  in_asset_class :: AssetClass
  currency :: string
  exchange :: string
  tradable :: bool
  metadata :: "(string \<times> string) list"
  expiry :: "nat option"
  lot_size :: "int option"
  tick_size :: "dec option"
  underlying :: "string option"

definition upper :: "char \<Rightarrow> char" where
  "upper c = (if is_lower c then char_of ((of_char c :: nat) - 32) else c)"

definition is_dated_contract :: "Instrument \<Rightarrow> bool" where
  "is_dated_contract i \<longleftrightarrow> map upper (exchange i) \<in> set derivative_exchanges
     \<or> in_asset_class i \<in> set derivative_asset_classes"

text \<open>The constructor check \<open>Instrument.__post_init__\<close>.\<close>

definition new_instrument :: "Instrument \<Rightarrow> Instrument res" where
  "new_instrument i =
     (if lot_size i \<noteq> None \<and> the (lot_size i) < 1
        then Inl (ValueError (''instrument_lot_size_must_be_positive:'' @ in_symbol i))
      else if tick_size i \<noteq> None \<and> dle (the (tick_size i)) dzero
        then Inl (ValueError (''instrument_tick_size_must_be_positive:'' @ in_symbol i))
      else if \<not> tradable i then Inr i
      else if is_dated_contract i then
        (if expiry i = None \<or> lot_size i = None
         then Inl (ValueError (''contract_identity_required:'' @ in_symbol i @ '':'' @ exchange i @ '':'' @
           (if expiry i = None then ''expiry'' @ (if lot_size i = None then ''+lot_size'' else [])
            else ''lot_size'')))
         else Inr i)
      else if expiry i \<noteq> None
        then Inl (ValueError (''cash_instrument_cannot_expire:'' @ in_symbol i @ '':'' @ exchange i @ '':'' @
               date_iso (the (expiry i))))
      else Inr i)"

record OrderIntent =
  oi_symbol :: string
  oi_market :: Market
  oi_side :: Side
  oi_quantity :: int
  reference_price :: dec
  strategy_id :: string
  oi_asset_class :: AssetClass
  tenant_id :: string
  stop_price :: "dec option"
  take_profit_price :: "dec option"
  oi_instrument :: "Instrument option"

subsection \<open>Instrument identity\<close>

definition identity_text :: "string \<Rightarrow> string \<Rightarrow> string res" where
  "identity_text field v =
     (if v = [] \<or> v \<noteq> strip v \<or> 256 < length v \<or> list_ex control v
      then Inl (ValueError (''instrument_identity_'' @ field @ ''_invalid''))
      else Inr v)"

definition identity_metadata :: "(string \<times> string) list \<Rightarrow> (string \<times> string) list res" where
  "identity_metadata md =
     (if 32 < length md then Inl (ValueError ''instrument_identity_metadata_too_large'')
      else if list_ex (\<lambda>(k, v). k = [] \<or> 256 < length k \<or> 256 < length v \<or> list_ex control (k @ v)) md
        then Inl (ValueError ''instrument_identity_metadata_invalid'')
      else Inr (sort_key fst md))"

text \<open>\<open>format(x, "f")\<close> of a nonzero decimal.\<close>

definition dec_fixed :: "dec \<Rightarrow> string" where
  "dec_fixed x =
     (let digits = show_nat (dcoef x); n = int (length digits); dotplace = dexp x + n;
          ip = (if dotplace < 0 then ''0'' else if n < dotplace then digits @ replicate (nat (dotplace - n)) (CHR ''0'')
                else if dotplace = 0 then ''0'' else take (nat dotplace) digits);
          fp = (if dotplace < 0 then replicate (nat (- dotplace)) (CHR ''0'') @ digits
                else if n < dotplace then [] else drop (nat dotplace) digits)
      in (if dsign x then ''-'' else []) @ ip @ (if fp = [] then [] else CHR ''.'' # fp))"

definition rstrip_char :: "char \<Rightarrow> string \<Rightarrow> string" where
  "rstrip_char c s = rev (dropWhile (\<lambda>d. d = c) (rev s))"

definition tick_text :: "dec \<Rightarrow> string" where
  "tick_text x = (let t = dec_fixed x in
     if CHR ''.'' \<in> set t then rstrip_char (CHR ''.'') (rstrip_char (CHR ''0'') t) else t)"

definition adjusted :: "dec \<Rightarrow> int" where
  "adjusted x = dexp x + int (ndigits (dcoef x)) - 1"

definition opt_json :: "('a \<Rightarrow> json) \<Rightarrow> 'a option \<Rightarrow> json" where
  "opt_json f v = (case v of None \<Rightarrow> JNull | Some x \<Rightarrow> f x)"

definition instrument_identity_payload :: "Instrument \<Rightarrow> json res" where
  "instrument_identity_payload i =
     (if \<not> tradable i then Inl (ValueError ''instrument_identity_requires_tradable_instrument'')
      else
      ebind (identity_text ''symbol'' (in_symbol i)) (\<lambda>symbol.
      ebind (identity_text ''exchange'' (exchange i)) (\<lambda>exch.
      ebind (identity_text ''currency'' (currency i)) (\<lambda>cur.
      if length cur \<noteq> 3 \<or> \<not> list_all is_upper cur
        then Inl (ValueError ''instrument_identity_currency_invalid'')
      else if lot_size i \<noteq> None \<and> \<not> (0 < the (lot_size i) \<and> the (lot_size i) \<le> 2 ^ 53 - 1)
        then Inl (ValueError ''instrument_identity_lot_size_invalid'')
      else if tick_size i \<noteq> None \<and> dle (the (tick_size i)) dzero
        then Inl (ValueError ''instrument_identity_tick_size_invalid'')
      else if is_dated_contract i \<and> (expiry i = None \<or> lot_size i = None \<or> tick_size i = None)
        then Inl (ValueError ''instrument_identity_dated_contract_fields_required'')
      else
      ebind (case underlying i of None \<Rightarrow> Inr [] | Some u \<Rightarrow> identity_text ''underlying'' u) (\<lambda>_.
      if tick_size i \<noteq> None \<and>
          (256 < length (dec_str (the (tick_size i))) \<or> 100 < \<bar>adjusted (the (tick_size i))\<bar>)
        then Inl (ValueError ''instrument_identity_tick_size_invalid'')
      else
      ebind (identity_metadata (metadata i)) (\<lambda>md.
      Inr (JObj [(''schema'', JStr ''pramana.instrument_identity.v1''), (''symbol'', JStr symbol),
        (''market'', JStr (market_value (in_market i))),
        (''assetClass'', JStr (asset_value (in_asset_class i))), (''currency'', JStr cur),
        (''exchange'', JStr exch), (''expiry'', opt_json (JStr \<circ> date_iso) (expiry i)),
        (''lotSize'', opt_json JInt (lot_size i)),
        (''tickSize'', opt_json (JStr \<circ> tick_text) (tick_size i)),
        (''underlying'', opt_json JStr (underlying i)),
        (''metadata'', JObj (map (\<lambda>(k, v). (k, JStr v)) md))])))))))"

definition canonical_instrument_identity :: "Instrument \<Rightarrow> string res" where
  "canonical_instrument_identity i = ebind (instrument_identity_payload i) (\<lambda>p. Inr (dumps_unicode p))"

definition instrument_identity_sha256 :: "(string \<Rightarrow> string) \<Rightarrow> Instrument \<Rightarrow> string res" where
  "instrument_identity_sha256 sha i = ebind (canonical_instrument_identity i) (\<lambda>t. Inr (sha t))"

definition utf8_len :: "string \<Rightarrow> nat" where
  "utf8_len s = sum_list (map (\<lambda>c. if (of_char c :: nat) < 128 then 1 else 2) s)"

definition json_str :: "json option \<Rightarrow> string option" where
  "json_str j = (case j of Some (JStr s) \<Rightarrow> Some s | _ \<Rightarrow> None)"

definition str_members :: "(string \<times> json) list \<Rightarrow> (string \<times> string) list option" where
  "str_members ms = (if list_all (\<lambda>(k, v). case v of JStr _ \<Rightarrow> True | _ \<Rightarrow> False) ms
     then Some (map (\<lambda>(k, v). (k, case v of JStr s \<Rightarrow> s | _ \<Rightarrow> [])) ms) else None)"

text \<open>A nullable text field: \<open>Some None\<close> for null, \<open>Some (Some s)\<close> for valid text, \<open>None\<close> otherwise.\<close>

definition opt_text :: "json option \<Rightarrow> string option option" where
  "opt_text j = (case j of Some JNull \<Rightarrow> Some None
     | Some (JStr s) \<Rightarrow> (case identity_text [] s of Inr _ \<Rightarrow> Some (Some s) | Inl _ \<Rightarrow> None)
     | _ \<Rightarrow> None)"

definition decode_instrument :: "(string \<times> json) list \<Rightarrow> Instrument option" where
  "decode_instrument ms =
     (case (opt_text (jget ''expiry'' ms), opt_text (jget ''tickSize'' ms), opt_text (jget ''underlying'' ms)) of
        (Some ex, Some tk, Some un) \<Rightarrow>
          (case (case ex of None \<Rightarrow> Some None | Some t \<Rightarrow> map_option Some (date_of_iso t),
                 case tk of None \<Rightarrow> Some None
                 | Some t \<Rightarrow> (case dec_of_str t of Some (Finite d) \<Rightarrow> Some (Some d) | _ \<Rightarrow> None),
                 case jget ''lotSize'' ms of Some JNull \<Rightarrow> Some None | Some (JInt n) \<Rightarrow> Some (Some n) | _ \<Rightarrow> None,
                 case jget ''metadata'' ms of Some (JObj md) \<Rightarrow> str_members md | _ \<Rightarrow> None) of
             (Some expv, Some tick, Some lot, Some md) \<Rightarrow>
               (case (json_str (jget ''symbol'' ms), Option.bind (json_str (jget ''market'' ms)) market_of,
                      Option.bind (json_str (jget ''assetClass'' ms)) asset_of, json_str (jget ''currency'' ms),
                      json_str (jget ''exchange'' ms)) of
                  (Some sy, Some mk, Some ac, Some cu, Some exch) \<Rightarrow>
                    (case identity_metadata md of
                       Inl _ \<Rightarrow> None
                     | Inr md' \<Rightarrow> Some \<lparr>in_symbol = sy, in_market = mk, in_asset_class = ac, currency = cu,
                         exchange = exch, tradable = True, metadata = md', expiry = expv, lot_size = lot,
                         tick_size = tick, underlying = un\<rparr>)
                | _ \<Rightarrow> None)
           | _ \<Rightarrow> None)
      | _ \<Rightarrow> None)"

definition identity_fields :: "string list" where
  "identity_fields = [''schema'', ''symbol'', ''market'', ''assetClass'', ''currency'', ''exchange'',
     ''expiry'', ''lotSize'', ''tickSize'', ''underlying'', ''metadata'']"

definition instrument_from_identity :: "string \<Rightarrow> Instrument res" where
  "instrument_from_identity raw =
     (if 32768 < utf8_len raw then Inl (ValueError ''instrument_identity_invalid_json'')
      else case loads raw of
        Some (JObj ms) \<Rightarrow>
          if \<not> unique_keys (JObj ms) then Inl (ValueError ''instrument_identity_invalid_json'')
          else if \<not> has_keys identity_fields ms
              \<or> jget ''schema'' ms \<noteq> Some (JStr ''pramana.instrument_identity.v1'')
            then Inl (ValueError ''instrument_identity_schema_mismatch'')
          else (case decode_instrument ms of
              None \<Rightarrow> Inl (ValueError ''instrument_identity_instrument_invalid'')
            | Some i \<Rightarrow>
                (case ebind (new_instrument i) instrument_identity_payload of
                   Inl _ \<Rightarrow> Inl (ValueError ''instrument_identity_instrument_invalid'')
                 | Inr _ \<Rightarrow> Inr i))
      | _ \<Rightarrow> Inl (ValueError ''instrument_identity_invalid_json''))"

definition immutable_instrument_snapshot :: "Instrument \<Rightarrow> Instrument res" where
  "immutable_instrument_snapshot i = ebind (canonical_instrument_identity i) instrument_from_identity"

text \<open>The constructor check of \<open>InstrumentBoundOrderIntent\<close>.\<close>

definition new_bound_order :: "OrderIntent \<Rightarrow> OrderIntent res" where
  "new_bound_order o1 =
     (case oi_instrument o1 of
        None \<Rightarrow> Inl (ValueError ''instrument_bound_order_requires_instrument'')
      | Some i \<Rightarrow>
          if \<not> tradable i then Inl (ValueError ''instrument_bound_order_requires_tradable_instrument'')
          else ebind (immutable_instrument_snapshot i) (\<lambda>s.
            if oi_symbol o1 \<noteq> in_symbol s \<or> oi_market o1 \<noteq> in_market s \<or> oi_asset_class o1 \<noteq> in_asset_class s
              then Inl (ValueError ''instrument_bound_order_identity_mismatch'')
            else if lot_size s \<noteq> None \<and> (oi_quantity o1 \<le> 0 \<or> oi_quantity o1 mod the (lot_size s) \<noteq> 0)
              then Inl (ValueError (''instrument_bound_order_not_whole_lots:'' @ in_symbol s @ '':'' @
                     show_int (the (lot_size s))))
            else Inr (o1\<lparr>oi_instrument := Some s\<rparr>)))"

text \<open>\<open>stored_identity\<close>: the identity text of a row against the row's own symbol, market and class.\<close>

definition stored_identity :: "string option \<Rightarrow> string \<Rightarrow> string \<Rightarrow> string \<Rightarrow> string option res" where
  "stored_identity raw symbol market asset =
     (case raw of
        None \<Rightarrow> Inr None
      | Some t \<Rightarrow> ebind (instrument_from_identity t) (\<lambda>i.
          if (in_symbol i, market_value (in_market i), asset_value (in_asset_class i)) \<noteq> (symbol, market, asset)
          then Inl (ValueError ''stored_instrument_identity_mismatch'')
          else ebind (canonical_instrument_identity i) (\<lambda>c. Inr (Some c))))"

end
