(* ===== verification/Orders.thy ===== *)
theory Orders
  imports Domain
begin

text \<open>
  \<^verbatim>\<open>src/quant_ai/orders/state.py\<close>, \<^verbatim>\<open>orders/intent.py\<close> and \<^verbatim>\<open>orders/execution_identity.py\<close>: the
  life cycle of an order, the canonical text of an approved order with its reader, and the
  account-scoped identity of a broker execution. SHA-256 (\<open>hashlib\<close>) is the parameter \<open>sha\<close>.
\<close>

subsection \<open>Order states\<close>

datatype OrderState = CREATED | RISK_APPROVED | SUBMITTED | SUBMISSION_UNCERTAIN
  | PARTIALLY_FILLED | FILLED | CANCELLED | REJECTED

definition order_states :: "OrderState list" where
  "order_states = [CREATED, RISK_APPROVED, SUBMITTED, SUBMISSION_UNCERTAIN, PARTIALLY_FILLED,
     FILLED, CANCELLED, REJECTED]"

definition state_value :: "OrderState \<Rightarrow> string" where
  "state_value s = (case s of CREATED \<Rightarrow> ''CREATED'' | RISK_APPROVED \<Rightarrow> ''RISK_APPROVED''
     | SUBMITTED \<Rightarrow> ''SUBMITTED'' | SUBMISSION_UNCERTAIN \<Rightarrow> ''SUBMISSION_UNCERTAIN''
     | PARTIALLY_FILLED \<Rightarrow> ''PARTIALLY_FILLED'' | FILLED \<Rightarrow> ''FILLED'' | CANCELLED \<Rightarrow> ''CANCELLED''
     | REJECTED \<Rightarrow> ''REJECTED'')"

definition state_of :: "string \<Rightarrow> OrderState option" where
  "state_of v = find (\<lambda>s. state_value s = v) order_states"

lemma state_of_value [simp]: "state_of (state_value s) = Some s"
  by (cases s) (simp_all add: state_of_def state_value_def order_states_def)

lemma state_value_inj [simp]: "state_value s = state_value t \<longleftrightarrow> s = t"
  by (metis state_of_value option.inject)

fun allowed_targets :: "OrderState \<Rightarrow> OrderState list" where
  "allowed_targets CREATED = [RISK_APPROVED, REJECTED, CANCELLED]"
| "allowed_targets RISK_APPROVED = [SUBMITTED, SUBMISSION_UNCERTAIN, REJECTED, CANCELLED]"
| "allowed_targets SUBMITTED = [SUBMISSION_UNCERTAIN, PARTIALLY_FILLED, FILLED, REJECTED, CANCELLED]"
| "allowed_targets SUBMISSION_UNCERTAIN = [SUBMITTED, PARTIALLY_FILLED, FILLED, REJECTED, CANCELLED]"
| "allowed_targets PARTIALLY_FILLED = [PARTIALLY_FILLED, FILLED, CANCELLED]"
| "allowed_targets FILLED = []"
| "allowed_targets CANCELLED = []"
| "allowed_targets REJECTED = []"

definition allowed :: "OrderState \<Rightarrow> OrderState \<Rightarrow> bool" where
  "allowed s t \<longleftrightarrow> t \<in> set (allowed_targets s)"

text \<open>\<open>OrderLifecycle.transition\<close>: the state after it.\<close>

definition lifecycle_transition :: "OrderState \<Rightarrow> OrderState \<Rightarrow> OrderState res" where
  "lifecycle_transition s t =
     (if \<not> allowed s t
      then Inl (ValueError (''invalid order transition '' @ state_value s @ ''->'' @ state_value t))
      else Inr t)"

definition terminal :: "OrderState \<Rightarrow> bool" where
  "terminal s \<longleftrightarrow> s \<in> {FILLED, CANCELLED, REJECTED}"

fun state_rank :: "OrderState \<Rightarrow> nat" where
  "state_rank CREATED = 0"
| "state_rank RISK_APPROVED = 1"
| "state_rank SUBMITTED = 2"
| "state_rank SUBMISSION_UNCERTAIN = 2"
| "state_rank PARTIALLY_FILLED = 3"
| "state_rank FILLED = 4"
| "state_rank CANCELLED = 4"
| "state_rank REJECTED = 4"

interpretation order_cycle: life_cycle allowed terminal state_rank
proof unfold_locales
  show "\<not> allowed s t" if "terminal s" for s t
    using that by (auto simp: terminal_def allowed_def)
  show "state_rank s \<le> state_rank t" if "allowed s t" for s t
    using that by (cases s) (auto simp: allowed_def)
qed

lemma lifecycle_transition_Inr [res_simps]:
  "lifecycle_transition s t = Inr u \<longleftrightarrow> allowed s t \<and> u = t"
  by (auto simp: lifecycle_transition_def)

text \<open>A sequence of transitions of one \<open>OrderLifecycle\<close>, stopping at the first refused one.\<close>

definition run_lifecycle :: "OrderState \<Rightarrow> OrderState list \<Rightarrow> OrderState res" where
  "run_lifecycle s ts = foldr_res lifecycle_transition s ts"

lemma run_lifecycle_walk: "run_lifecycle s ts = Inr u \<longleftrightarrow> order_cycle.walk s ts \<and> u = last (s # ts)"
proof (induction ts arbitrary: s)
  case Nil
  then show ?case by (auto simp: run_lifecycle_def)
next
  case (Cons t ts)
  then show ?case by (auto simp: run_lifecycle_def res_simps)
qed

text \<open>C5: an order's life cycle never goes back and a final state ends it: along any sequence of
  accepted transitions no state of lower rank than the start is reached, a transition after a
  final state is refused, and an order that left CREATED is never CREATED again.\<close>

theorem lifecycle_no_return:
  assumes "run_lifecycle s ts = Inr u"
  shows "(\<forall>t \<in> set ts. state_rank s \<le> state_rank t) \<and> (terminal s \<longrightarrow> ts = [])
    \<and> CREATED \<notin> set ts \<and> (\<forall>xs t ys. ts = xs @ t # ys \<and> terminal t \<longrightarrow> ys = [])"
proof -
  from assms have w: "order_cycle.walk s ts" by (simp add: run_lifecycle_walk)
  have created: "\<not> allowed x CREATED" for x by (cases x) (simp_all add: allowed_def)
  have "CREATED \<notin> set ts"
    using w by (induction ts arbitrary: s) (auto simp: created)
  then show ?thesis
    using order_cycle.walk_rank [OF w] order_cycle.walk_final [of s ts] w order_cycle.walk_final_last by blast
qed

theorem lifecycle_no_return_witness:
  "run_lifecycle CREATED [RISK_APPROVED, SUBMITTED, PARTIALLY_FILLED, FILLED] = Inr FILLED
   \<and> CREATED \<notin> set [RISK_APPROVED, SUBMITTED, PARTIALLY_FILLED, FILLED]"
proof -
  have r: "run_lifecycle CREATED [RISK_APPROVED, SUBMITTED, PARTIALLY_FILLED, FILLED] = Inr FILLED"
    by (simp add: run_lifecycle_walk allowed_def)
  from lifecycle_no_return [OF r] r show ?thesis by blast
qed

subsection \<open>The canonical order snapshot\<close>

definition bound_identity :: "OrderIntent \<Rightarrow> string option res" where
  "bound_identity o1 =
     (case oi_instrument o1 of
        None \<Rightarrow> Inr None
      | Some _ \<Rightarrow> ebind (new_bound_order o1) (\<lambda>c.
          (case oi_instrument c of
             None \<Rightarrow> Inr None
           | Some i \<Rightarrow> ebind (canonical_instrument_identity i) (\<lambda>t. Inr (Some t)))))"

definition snapshot_name_ok :: "string \<Rightarrow> bool" where
  "snapshot_name_ok v \<longleftrightarrow> v \<noteq> [] \<and> v = strip v \<and> length v \<le> 256 \<and> \<not> list_ex control v"

definition canonical_order_intent :: "OrderIntent \<Rightarrow> string res" where
  "canonical_order_intent o1 =
     (if \<not> (snapshot_name_ok (tenant_id o1) \<and> snapshot_name_ok (strategy_id o1) \<and> snapshot_name_ok (oi_symbol o1))
        then Inl (ValueError ''order_snapshot_identity_invalid'')
      else if \<not> (0 < oi_quantity o1 \<and> oi_quantity o1 \<le> 2 ^ 53 - 1)
        then Inl (ValueError ''order_snapshot_quantity_invalid'')
      else if dle (reference_price o1) dzero
        then Inl (ValueError ''order_snapshot_money_invalid'')
      else ebind (bound_identity o1) (\<lambda>ident.
        Inr (dumps (JObj [(''schema'', JStr ''pramana.order_intent_snapshot.v1''),
          (''tenantId'', JStr (tenant_id o1)), (''strategyId'', JStr (strategy_id o1)),
          (''symbol'', JStr (oi_symbol o1)), (''market'', JStr (market_value (oi_market o1))),
          (''assetClass'', JStr (asset_value (oi_asset_class o1))),
          (''side'', JStr (side_value (oi_side o1))), (''quantity'', JInt (oi_quantity o1)),
          (''referencePrice'', JStr (dec_str (reference_price o1))),
          (''stopPrice'', opt_json (JStr \<circ> dec_str) (stop_price o1)),
          (''takeProfitPrice'', opt_json (JStr \<circ> dec_str) (take_profit_price o1)),
          (''instrumentIdentity'', opt_json JStr ident)]))))"

definition snapshot_fields :: "string list" where
  "snapshot_fields = [''schema'', ''tenantId'', ''strategyId'', ''symbol'', ''market'', ''assetClass'',
     ''side'', ''quantity'', ''referencePrice'', ''stopPrice'', ''takeProfitPrice'', ''instrumentIdentity'']"

definition money_text_ok :: "json option \<Rightarrow> bool" where
  "money_text_ok j = (case j of Some JNull \<Rightarrow> True | Some (JStr s) \<Rightarrow> length s \<le> 256 | _ \<Rightarrow> False)"

text \<open>\<open>Decimal(text)\<close> inside the reader: malformed text is its payload error, NaN and infinities
  are refused by the canonical writer.\<close>

definition snapshot_decimal :: "json option \<Rightarrow> dec res" where
  "snapshot_decimal j =
     (case j of
        Some (JStr s) \<Rightarrow>
          (case dec_of_str s of
             None \<Rightarrow> Inl (ValueError ''order_snapshot_payload_invalid'')
           | Some NonFinite \<Rightarrow> Inl (ValueError ''order_snapshot_money_invalid'')
           | Some (Finite d) \<Rightarrow> Inr d)
      | _ \<Rightarrow> Inl (ValueError ''order_snapshot_payload_invalid''))"

definition snapshot_opt_decimal :: "json option \<Rightarrow> dec option res" where
  "snapshot_opt_decimal j =
     (if j = Some JNull then Inr None else ebind (snapshot_decimal j) (\<lambda>d. Inr (Some d)))"

definition snapshot_text :: "json option \<Rightarrow> string res" where
  "snapshot_text j = (case j of Some (JStr s) \<Rightarrow> Inr s
     | _ \<Rightarrow> Inl (ValueError ''order_snapshot_identity_invalid''))"

definition snapshot_enum :: "string \<Rightarrow> (string \<Rightarrow> 'a option) \<Rightarrow> json option \<Rightarrow> 'a res" where
  "snapshot_enum label f j = of_option (ValueError label) (Option.bind (json_str j) f)"

definition decode_order :: "(string \<times> json) list \<Rightarrow> OrderIntent res" where
  "decode_order ms =
     ebind (snapshot_enum ''invalid Market'' market_of (jget ''market'' ms)) (\<lambda>mk.
     ebind (snapshot_enum ''invalid Side'' side_of (jget ''side'' ms)) (\<lambda>sd.
     ebind (snapshot_decimal (jget ''referencePrice'' ms)) (\<lambda>ref.
     ebind (snapshot_enum ''invalid AssetClass'' asset_of (jget ''assetClass'' ms)) (\<lambda>ac.
     ebind (snapshot_opt_decimal (jget ''stopPrice'' ms)) (\<lambda>stop.
     ebind (snapshot_opt_decimal (jget ''takeProfitPrice'' ms)) (\<lambda>take_profit.
     ebind (snapshot_text (jget ''tenantId'' ms)) (\<lambda>tenant.
     ebind (snapshot_text (jget ''strategyId'' ms)) (\<lambda>strategy.
     ebind (snapshot_text (jget ''symbol'' ms)) (\<lambda>symbol.
     ebind (case jget ''quantity'' ms of Some (JInt q) \<Rightarrow> Inr q
            | _ \<Rightarrow> Inl (ValueError ''order_snapshot_quantity_invalid'')) (\<lambda>q.
     Inr \<lparr>oi_symbol = symbol, oi_market = mk, oi_side = sd, oi_quantity = q, reference_price = ref,
          strategy_id = strategy, oi_asset_class = ac, tenant_id = tenant, stop_price = stop,
          take_profit_price = take_profit, oi_instrument = None\<rparr>))))))))))"

definition order_from_snapshot :: "string \<Rightarrow> OrderIntent res" where
  "order_from_snapshot raw =
     (if 65536 < utf8_len raw then Inl (ValueError ''order_snapshot_payload_invalid'')
      else case loads raw of
        None \<Rightarrow> Inl (ValueError ''order_snapshot_payload_invalid'')
      | Some j \<Rightarrow>
          if \<not> unique_keys j then Inl (ValueError ''order_snapshot_duplicate_key'')
          else (case j of
              JObj ms \<Rightarrow>
                if \<not> has_keys snapshot_fields ms then Inl (ValueError ''order_snapshot_fields_invalid'')
                else if jget ''schema'' ms \<noteq> Some (JStr ''pramana.order_intent_snapshot.v1'')
                  then Inl (ValueError ''order_snapshot_schema_invalid'')
                else if \<not> (money_text_ok (jget ''referencePrice'' ms) \<and> money_text_ok (jget ''stopPrice'' ms)
                    \<and> money_text_ok (jget ''takeProfitPrice'' ms))
                  then Inl (ValueError ''order_snapshot_money_invalid'')
                else
                  ebind (decode_order ms) (\<lambda>base.
                  ebind (case jget ''instrumentIdentity'' ms of
                      Some JNull \<Rightarrow> Inr base
                    | Some (JStr t) \<Rightarrow> ebind (instrument_from_identity t) (\<lambda>i. new_bound_order (base\<lparr>oi_instrument := Some i\<rparr>))
                    | _ \<Rightarrow> Inl (ValueError ''order_snapshot_payload_invalid'')) (\<lambda>result.
                  ebind (canonical_order_intent result) (\<lambda>text.
                  if text \<noteq> raw then Inl (ValueError ''order_snapshot_noncanonical'') else Inr result)))
            | _ \<Rightarrow> Inl (ValueError ''order_snapshot_fields_invalid'')))"

subsubsection \<open>Round trip\<close>

text \<open>The members of the snapshot in canonical order.\<close>

definition snapshot_members :: "OrderIntent \<Rightarrow> string option \<Rightarrow> (string \<times> json) list" where
  "snapshot_members o1 ident =
     [(''assetClass'', JStr (asset_value (oi_asset_class o1))), (''instrumentIdentity'', opt_json JStr ident),
      (''market'', JStr (market_value (oi_market o1))), (''quantity'', JInt (oi_quantity o1)),
      (''referencePrice'', JStr (dec_str (reference_price o1))),
      (''schema'', JStr ''pramana.order_intent_snapshot.v1''), (''side'', JStr (side_value (oi_side o1))),
      (''stopPrice'', opt_json (JStr \<circ> dec_str) (stop_price o1)), (''strategyId'', JStr (strategy_id o1)),
      (''symbol'', JStr (oi_symbol o1)), (''takeProfitPrice'', opt_json (JStr \<circ> dec_str) (take_profit_price o1)),
      (''tenantId'', JStr (tenant_id o1))]"

lemma canon_opt_dec [simp]: "canon (opt_json (JStr \<circ> f) v) = opt_json (JStr \<circ> f) v"
  by (cases v) (simp_all add: opt_json_def)

lemma canon_opt_str [simp]: "canon (opt_json JStr w) = opt_json JStr w"
  by (cases w) (simp_all add: opt_json_def)

lemma snapshot_canon:
  "canon_members [(''schema'', JStr ''pramana.order_intent_snapshot.v1''),
          (''tenantId'', JStr (tenant_id o1)), (''strategyId'', JStr (strategy_id o1)),
          (''symbol'', JStr (oi_symbol o1)), (''market'', JStr (market_value (oi_market o1))),
          (''assetClass'', JStr (asset_value (oi_asset_class o1))),
          (''side'', JStr (side_value (oi_side o1))), (''quantity'', JInt (oi_quantity o1)),
          (''referencePrice'', JStr (dec_str (reference_price o1))),
          (''stopPrice'', opt_json (JStr \<circ> dec_str) (stop_price o1)),
          (''takeProfitPrice'', opt_json (JStr \<circ> dec_str) (take_profit_price o1)),
          (''instrumentIdentity'', opt_json JStr ident)] = snapshot_members o1 ident"
  by (simp add: canon_members_def snapshot_members_def less_char_def less_eq_char_def)

text \<open>What the writer checked and what it wrote.\<close>

definition snapshot_valid :: "OrderIntent \<Rightarrow> bool" where
  "snapshot_valid o1 \<longleftrightarrow> snapshot_name_ok (tenant_id o1) \<and> snapshot_name_ok (strategy_id o1)
     \<and> snapshot_name_ok (oi_symbol o1) \<and> 0 < oi_quantity o1 \<and> oi_quantity o1 \<le> 2 ^ 53 - 1
     \<and> \<not> dle (reference_price o1) dzero"

lemma canonical_order_intent_Inr:
  "canonical_order_intent o1 = Inr t \<longleftrightarrow> snapshot_valid o1
     \<and> (\<exists>ident. bound_identity o1 = Inr ident \<and> t = jprint True (JObj (snapshot_members o1 ident)))"
  unfolding canonical_order_intent_def snapshot_valid_def dumps_def canon_JObj snapshot_canon
  by (auto simp: res_simps split: if_splits)

lemma snapshot_jget [simp]:
  "jget ''schema'' (snapshot_members o1 i) = Some (JStr ''pramana.order_intent_snapshot.v1'')"
  "jget ''tenantId'' (snapshot_members o1 i) = Some (JStr (tenant_id o1))"
  "jget ''strategyId'' (snapshot_members o1 i) = Some (JStr (strategy_id o1))"
  "jget ''symbol'' (snapshot_members o1 i) = Some (JStr (oi_symbol o1))"
  "jget ''market'' (snapshot_members o1 i) = Some (JStr (market_value (oi_market o1)))"
  "jget ''assetClass'' (snapshot_members o1 i) = Some (JStr (asset_value (oi_asset_class o1)))"
  "jget ''side'' (snapshot_members o1 i) = Some (JStr (side_value (oi_side o1)))"
  "jget ''quantity'' (snapshot_members o1 i) = Some (JInt (oi_quantity o1))"
  "jget ''referencePrice'' (snapshot_members o1 i) = Some (JStr (dec_str (reference_price o1)))"
  "jget ''stopPrice'' (snapshot_members o1 i) = Some (opt_json (JStr \<circ> dec_str) (stop_price o1))"
  "jget ''takeProfitPrice'' (snapshot_members o1 i) = Some (opt_json (JStr \<circ> dec_str) (take_profit_price o1))"
  "jget ''instrumentIdentity'' (snapshot_members o1 i) = Some (opt_json JStr i)"
  by (simp_all add: snapshot_members_def jget_def)

lemma snapshot_opt_decimal_text [simp]:
  "snapshot_opt_decimal (Some (opt_json (JStr \<circ> dec_str) v)) = Inr v"
  by (cases v) (simp_all add: snapshot_opt_decimal_def snapshot_decimal_def opt_json_def dec_of_str_dec_str)

lemma decode_snapshot: "decode_order (snapshot_members o1 i) = Inr (o1\<lparr>oi_instrument := None\<rparr>)"
  by (simp add: decode_order_def snapshot_enum_def json_str_def snapshot_decimal_def snapshot_text_def
      dec_of_str_dec_str)

lemma snapshot_shape: "has_keys snapshot_fields (snapshot_members o1 i)"
  "unique_keys (JObj (snapshot_members o1 i))"
  by (auto simp: has_keys_def snapshot_members_def snapshot_fields_def jkeys_def opt_json_def
      split: option.splits)

definition money_fits :: "OrderIntent \<Rightarrow> bool" where
  "money_fits o1 \<longleftrightarrow> (\<forall>d \<in> {reference_price o1} \<union> set_option (stop_price o1) \<union> set_option (take_profit_price o1).
     length (dec_str d) \<le> 256)"

lemma snapshot_money_ok: "money_fits o1 \<Longrightarrow> money_text_ok (jget ''referencePrice'' (snapshot_members o1 i))
    \<and> money_text_ok (jget ''stopPrice'' (snapshot_members o1 i))
    \<and> money_text_ok (jget ''takeProfitPrice'' (snapshot_members o1 i))"
  by (auto simp: money_fits_def money_text_ok_def opt_json_def split: option.splits)

text \<open>The text of a cash order is far below the reader's size bound.\<close>

lemma utf8_len_bound: "utf8_len s \<le> 2 * length s"
  by (induction s) (auto simp: utf8_len_def)

lemma jstring_length: "length (jstring a s) \<le> 6 * length s + 2"
proof -
  have "length (concat (map (esc_char a) s)) \<le> 6 * length s"
    by (induction s) (simp_all add: esc_char_def Let_def)
  then show ?thesis by (simp add: jstring_def)
qed

lemma show_int_length: "0 \<le> q \<Longrightarrow> q < 10 ^ 16 \<Longrightarrow> length (show_int q) \<le> 16"
  using ndigits_le [of "nat q" 16] by (simp add: show_int_def ndigits_def)

lemma opt_text_length:
  assumes "\<And>d. v = Some d \<Longrightarrow> length (dec_str d) \<le> 256"
  shows "length (jprint True (opt_json (JStr \<circ> dec_str) v)) \<le> 1538"
proof (cases v)
  case None
  then show ?thesis by (simp add: opt_json_def)
next
  case (Some d)
  then show ?thesis using assms [OF Some] jstring_length [of True "dec_str d"] by (simp add: opt_json_def)
qed

lemma snapshot_length:
  assumes "snapshot_valid o1" "money_fits o1"
  shows "utf8_len (jprint True (JObj (snapshot_members o1 None))) \<le> 65536"
proof -
  have names: "length (tenant_id o1) \<le> 256" "length (strategy_id o1) \<le> 256" "length (oi_symbol o1) \<le> 256"
    using assms(1) by (auto simp: snapshot_valid_def snapshot_name_ok_def)
  have q: "length (show_int (oi_quantity o1)) \<le> 16"
    using assms(1) by (intro show_int_length) (auto simp: snapshot_valid_def)
  have enums: "length (market_value (oi_market o1)) \<le> 6" "length (asset_value (oi_asset_class o1)) \<le> 9"
    "length (side_value (oi_side o1)) \<le> 4"
    by (cases "oi_market o1"; cases "oi_asset_class o1"; cases "oi_side o1";
        simp add: market_value_def asset_value_def side_value_def)+
  have money: "length (dec_str (reference_price o1)) \<le> 256"
    "length (jprint True (opt_json (JStr \<circ> dec_str) (stop_price o1))) \<le> 1538"
    "length (jprint True (opt_json (JStr \<circ> dec_str) (take_profit_price o1))) \<le> 1538"
    using assms(2) by (auto simp: money_fits_def intro!: opt_text_length)
  have str: "length (jstring True k) \<le> 1538" if "length k \<le> 256" for k
    using jstring_length [of True k] that by simp
  have key: "length (jstring True k) \<le> 200" if "length k \<le> 33" for k
    using jstring_length [of True k] that by simp
  note strs = str [OF names(1)] str [OF names(2)] str [OF names(3)] str [OF money(1)]
    key [of "market_value (oi_market o1)"] key [of "asset_value (oi_asset_class o1)"]
    key [of "side_value (oi_side o1)"] key [of "''schema''"] key [of "''tenantId''"] key [of "''strategyId''"]
    key [of "''symbol''"] key [of "''market''"] key [of "''assetClass''"] key [of "''side''"] key [of "''quantity''"]
    key [of "''referencePrice''"] key [of "''stopPrice''"] key [of "''takeProfitPrice''"]
    key [of "''instrumentIdentity''"] key [of "''pramana.order_intent_snapshot.v1''"]
  have "length (jprint True (JObj (snapshot_members o1 None))) \<le> 16000"
    using strs q money(2,3) enums by (simp add: snapshot_members_def opt_json_def [of JStr])
  then show ?thesis using utf8_len_bound [of "jprint True (JObj (snapshot_members o1 None))"] by simp
qed

text \<open>The reader only returns an order whose canonical text is the text it read.\<close>

lemma order_from_snapshot_canonical:
  assumes "order_from_snapshot t = Inr o1"
  shows "canonical_order_intent o1 = Inr t"
proof -
  obtain ms where ms: "loads t = Some (JObj ms)"
    using assms by (cases "loads t"; cases "the (loads t)") (auto simp: order_from_snapshot_def split: if_splits)
  have "\<exists>u. canonical_order_intent o1 = Inr u \<and> u = t"
    using assms unfolding order_from_snapshot_def ms option.case json.case if_Inl_eq_Inr ebind_eq_Inr
    by (elim conjE exE) (simp only: sum.inject not_not, fast)
  then show ?thesis by blast
qed

lemma order_snapshot_reads:
  assumes "canonical_order_intent o1 = Inr t" "oi_instrument o1 = None" "money_fits o1"
  shows "order_from_snapshot t = Inr o1"
proof -
  from assms(1,2) have v: "snapshot_valid o1" and t: "t = jprint True (JObj (snapshot_members o1 None))"
    by (auto simp: canonical_order_intent_Inr bound_identity_def)
  have "o1\<lparr>oi_instrument := None\<rparr> = o1" using assms(2) by simp
  with assms(1) snapshot_length [OF v assms(3)] snapshot_money_ok [OF assms(3), of None]
  show ?thesis
    unfolding order_from_snapshot_def t loads_jprint
    by (simp add: snapshot_shape decode_snapshot opt_json_def [of JStr] del: unique_keys.simps)
qed


definition sample_order :: OrderIntent where
  "sample_order = \<lparr>oi_symbol = ''INFY'', oi_market = INDIA, oi_side = BUY, oi_quantity = 10,
     reference_price = Fin False 150050 (- 2), strategy_id = ''momentum'', oi_asset_class = EQUITY,
     tenant_id = ''t1'', stop_price = Some (Fin False 1400 0), take_profit_price = None, oi_instrument = None\<rparr>"

lemma sample_order_facts: "oi_instrument sample_order = None" "money_fits sample_order"
  "snapshot_valid sample_order"
  by (simp_all add: sample_order_def money_fits_def snapshot_valid_def snapshot_name_ok_def dec_evals
      dec_str_def strip_def lstrip_def control_def is_space_def)


subsection \<open>Identity of a broker execution\<close>

text \<open>
  An execution is its identity mapping: \<open>fills\<close> of a broker are keyed by the digest of this
  mapping, never by price or quantity. A mapping is a list of distinct members.
\<close>

type_synonym execution = "(string \<times> string) list"

definition execution_fields :: "string list" where
  "execution_fields = [''schema'', ''broker'', ''tenantId'', ''accountRef'', ''tradingDay'', ''exchange'',
     ''tradeId'', ''brokerOrderId'']"

definition execution_value :: "execution \<Rightarrow> string \<Rightarrow> string" where
  "execution_value v k = (case map_of v k of None \<Rightarrow> [] | Some x \<Rightarrow> x)"

definition execution_identity :: "execution \<Rightarrow> execution res" where
  "execution_identity v =
     (if set (map fst v) \<noteq> set execution_fields then Inl (ValueError ''external_execution_identity_fields_invalid'')
      else if list_ex (\<lambda>(k, x). strip x = [] \<or> 160 < length x \<or> list_ex control x) v
        then Inl (ValueError ''external_execution_identity_value_invalid'')
      else if execution_value v ''schema'' \<noteq> ''pramana.broker_execution_identity.v1''
          \<or> execution_value v ''broker'' \<noteq> ''zerodha-kite''
        then Inl (ValueError ''external_execution_identity_provider_invalid'')
      else if \<not> sha_match (execution_value v ''accountRef'')
        then Inl (ValueError ''external_execution_account_invalid'')
      else case date_of_iso (execution_value v ''tradingDay'') of
          None \<Rightarrow> Inl (ValueError ''Invalid isoformat string'')
        | Some n \<Rightarrow> if date_iso n \<noteq> execution_value v ''tradingDay''
            then Inl (ValueError ''external_execution_day_invalid'') else Inr v)"

definition external_fill_id :: "(string \<Rightarrow> string) \<Rightarrow> execution \<Rightarrow> string res" where
  "external_fill_id sha v = ebind (execution_identity v) (\<lambda>r.
     Inr (''KITE2:'' @ sha (dumps (JObj (map (\<lambda>(k, x). (k, JStr x)) r)))))"

record broker_binding =
  bd_broker :: string
  bd_account_ref :: string
  bd_order_id :: string
  bd_exchange :: string

definition assert_fill_source ::
    "execution \<Rightarrow> string \<Rightarrow> string option \<Rightarrow> datetime \<Rightarrow> broker_binding option \<Rightarrow> unit res" where
  "assert_fill_source source tenant broker_order when binding =
     ebind (utc_instant (ValueError ''external_fill_time_must_be_timezone_aware'') when) (\<lambda>t.
     if execution_value source ''tradingDay'' \<noteq> date_iso (kolkata_day t)
       then Inl (ValueError ''external_fill_trading_day_mismatch'')
     else if execution_value source ''tenantId'' \<noteq> tenant
         \<or> Some (execution_value source ''brokerOrderId'') \<noteq> broker_order
       then Inl (ValueError ''external_fill_order_scope_mismatch'')
     else case binding of
         None \<Rightarrow> Inl (ValueError ''external_fill_broker_binding_required'')
       | Some b \<Rightarrow>
           if execution_value source ''broker'' \<noteq> bd_broker b
             \<or> execution_value source ''accountRef'' \<noteq> bd_account_ref b
             \<or> execution_value source ''brokerOrderId'' \<noteq> bd_order_id b
             \<or> execution_value source ''exchange'' \<noteq> bd_exchange b
           then Inl (ValueError ''external_fill_broker_scope_mismatch'')
           else Inr ())"

lemma execution_identity_Inr: "execution_identity v = Inr r \<Longrightarrow> r = v"
  by (auto simp: execution_identity_def split: if_splits option.splits)

lemma sort_members: "sort_key fst (map (\<lambda>(k, x). (k, JStr x)) (v :: execution)) = map (\<lambda>(k, x). (k, JStr x)) (sort_key fst v)"
proof -
  have "insort_key fst (k, JStr x) (map (\<lambda>(k, x). (k, JStr x)) xs)
      = map (\<lambda>(k, x). (k, JStr x)) (insort_key fst (k, x) xs)" for k x and xs :: execution
    by (induction xs) auto
  then show ?thesis by (induction v) (auto simp del: insort_key.simps)
qed

lemma execution_canon: "canon_members (map (\<lambda>(k, x). (k, JStr x)) (v :: execution)) = map (\<lambda>(k, x). (k, JStr x)) (sort_key fst v)"
proof -
  have "map (\<lambda>(k, v). (k, canon v)) (map (\<lambda>(k, x). (k, JStr x)) v) = map (\<lambda>(k, x). (k, JStr x)) v"
    by (induction v) auto
  then show ?thesis by (simp only: canon_members_def sort_members)
qed

lemma members_inj: "map (\<lambda>(k, x). (k, JStr x)) v = map (\<lambda>(k, x). (k, JStr x)) w \<longleftrightarrow> v = w"
  by (auto simp: inj_map_eq_map inj_on_def)

lemma sort_key_eq_iff:
  assumes "distinct (map fst v)" "distinct (map fst w)"
  shows "sort_key fst v = sort_key fst w \<longleftrightarrow> map_of v = map_of w"
proof
  assume "sort_key fst v = sort_key fst w"
  then show "map_of v = map_of w" by (metis assms map_of_sort_key)
next
  assume "map_of v = map_of w"
  with assms have "set v = set w" by (simp add: map_of_inject_set)
  then show "sort_key fst v = sort_key fst w"
    using assms by (intro map_sorted_distinct_set_unique [of fst]) (auto simp: distinct_map)
qed


definition sample_execution :: execution where
  "sample_execution = [(''schema'', ''pramana.broker_execution_identity.v1''), (''broker'', ''zerodha-kite''),
     (''tenantId'', ''t1''), (''accountRef'', replicate 64 (CHR ''0'')), (''tradingDay'', ''0001-02-03''),
     (''exchange'', ''NSE''), (''tradeId'', ''T1''), (''brokerOrderId'', ''B1'')]"

lemma list_all_replicate: "list_all P (replicate n x) \<longleftrightarrow> n = 0 \<or> P x"
  by (induction n) auto

lemma list_ex_replicate: "list_ex P (replicate n x) \<longleftrightarrow> n \<noteq> 0 \<and> P x"
  by (induction n) auto

lemma dropWhile_replicate: "dropWhile P (replicate n x) = (if P x then [] else replicate n x)"
  by (induction n) auto

lemma sample_execution_valid: "execution_identity sample_execution = Inr sample_execution"
  "distinct (map fst sample_execution)"
proof -
  have day: "day_number 1 2 3 = 33" by (simp add: day_number_def days_to_year_def month_lengths_def leap_def)
  have "read_nat ''0001'' = 1" "read_nat ''02'' = 2" "read_nat ''03'' = 3"
    by (simp_all add: read_nat_def digit_val_def)
  with day have day_text: "date_of_iso ''0001-02-03'' = Some 33"
    by (simp add: date_of_iso_def is_digit_def Let_def month_lengths_def leap_def)
  have zeros: "replicate 3 (CHR ''0'') = ''000''" by (simp add: eval_nat_numeral)
  from day_text have "date_of_iso ''0001-02-03'' = Some 33" .
  moreover have "date_iso 33 = ''0001-02-03''"
    by (simp add: date_iso_def civil_def find_year.simps [of _ 33] year_days_def leap_def month_lengths_def
        pad_def show_nat.simps digit_char_def zeros)
  ultimately show "execution_identity sample_execution = Inr sample_execution"
    by (simp add: execution_identity_def sample_execution_def execution_fields_def execution_value_def
        strip_def lstrip_def control_def is_space_def sha_match_def list_all_replicate list_ex_replicate
        dropWhile_replicate)
  show "distinct (map fst sample_execution)" by (simp add: sample_execution_def)
qed

lemma sample_execution_rev: "execution_identity (rev sample_execution) = Inr (rev sample_execution)"
proof -
  have "execution_value (rev sample_execution) k = execution_value sample_execution k" for k
    using map_of_rev_distinct [OF sample_execution_valid(2)] by (simp add: execution_value_def)
  with sample_execution_valid(1) show ?thesis
    by (auto simp: execution_identity_def split: if_splits option.splits)
qed


end
