(* ===== verification/OmsStore.thy ===== *)
theory OmsStore
  imports Orders
begin

text \<open>
  \<^verbatim>\<open>src/quant_ai/orders/oms.py\<close>, part 1: the tables of the durable order-management journal,
  its hash-chained event log, and \<open>verify\<close>, which replays the log against the projection.

  A table is the list of its rows in rowid order. TEXT columns that hold decimals, states and
  timestamps are rows' typed values (their texts read back, by \<open>dec_of_str_dec_str\<close>,
  \<open>state_of_value\<close> and \<open>iso_utc_inj\<close>); the event payload and the recovery record stay texts.
\<close>

subsection \<open>Tables\<close>

record oms_order =
  om_id :: string
  om_tenant :: string
  om_strategy :: string
  om_state :: OrderState
  om_symbol :: string
  om_market :: string
  om_asset_class :: string
  om_side :: string
  requested_quantity :: int
  om_reference_price :: dec
  filled_quantity :: int
  average_fill_price :: "dec option"
  broker_order_id :: "string option"
  created_at :: instant
  updated_at :: instant
  last_event_sequence :: nat
  instrument_identity :: "string option"

definition pending_quantity :: "oms_order \<Rightarrow> int" where
  "pending_quantity r = requested_quantity r - filled_quantity r"

record oms_event =
  ev_order :: string
  ev_sequence :: nat
  ev_kind :: string
  ev_at :: instant
  previous_hash :: "string option"
  event_hash :: string
  ev_payload :: string

record oms_fill =
  fl_id :: string
  fl_order :: string
  fl_quantity :: int
  fl_price :: dec
  fl_at :: instant
  fl_broker :: "string option"

record evidence_binding =
  eb_order :: string
  eb_broker :: string
  eb_account_ref :: string
  eb_broker_order_id :: string
  eb_instrument_id :: string
  eb_exchange :: string
  eb_product :: string

record replacement =
  rl_original :: string
  rl_replacement :: string
  rl_reason :: string
  rl_at :: instant

text \<open>A row of \<open>oms_paper_recoveries\<close>, which the paper recovery tool writes; the table may be absent.\<close>

record paper_recovery_row =
  rc_order :: string
  rc_payload :: string
  rc_sha256 :: string
  rc_tenant :: string

record oms =
  orders :: "oms_order list"
  events :: "oms_event list"
  fills :: "oms_fill list"
  bindings :: "evidence_binding list"
  replacements :: "replacement list"
  recoveries :: "paper_recovery_row list option"
  schema_version :: int

definition oms_empty :: oms where
  "oms_empty = \<lparr>orders = [], events = [], fills = [], bindings = [], replacements = [],
     recoveries = None, schema_version = 1\<rparr>"

subsection \<open>Reading an order\<close>

definition check_id :: "string \<Rightarrow> string \<Rightarrow> unit res" where
  "check_id name v = (if id_match 128 v then Inr () else Inl (ValueError (''invalid_'' @ name)))"

definition decode_row :: "oms_order \<Rightarrow> oms_order res" where
  "decode_row r =
     (if \<not> dpos (om_reference_price r) then Inl (ValueError ''invalid_reference_price'')
      else if (case average_fill_price r of None \<Rightarrow> False | Some a \<Rightarrow> \<not> dpos a)
        then Inl (ValueError ''invalid_average_fill_price'')
      else ebind (stored_identity (instrument_identity r) (om_symbol r) (om_market r) (om_asset_class r))
        (\<lambda>i. Inr (r\<lparr>instrument_identity := i\<rparr>)))"

definition get_order :: "string \<Rightarrow> oms \<Rightarrow> oms_order res" where
  "get_order cid s =
     ebind (check_id ''client_order_id'' cid) (\<lambda>_.
       case row_get om_id cid (orders s) of None \<Rightarrow> Inl (KeyError cid) | Some r \<Rightarrow> decode_row r)"

definition broker_evidence_binding :: "string \<Rightarrow> oms \<Rightarrow> evidence_binding option" where
  "broker_evidence_binding cid s = row_get eb_order cid (bindings s)"

definition replacement_for :: "string \<Rightarrow> oms \<Rightarrow> string option" where
  "replacement_for cid s = map_option rl_replacement (row_get rl_original cid (replacements s))"

definition replacement_parent :: "string \<Rightarrow> oms \<Rightarrow> string option" where
  "replacement_parent cid s = map_option rl_original (row_get rl_replacement cid (replacements s))"

definition fill_ids :: "string \<Rightarrow> oms \<Rightarrow> string list res" where
  "fill_ids cid s =
     ebind (check_id ''client_order_id'' cid) (\<lambda>_.
       if row_get om_id cid (orders s) = None then Inl (KeyError cid)
       else Inr (map fl_id (sort_key fl_at (sort_key fl_id (filter (\<lambda>f. fl_order f = cid) (fills s))))))"

definition all_orders :: "string \<Rightarrow> oms \<Rightarrow> oms_order list res" where
  "all_orders tenant s =
     map_res decode_row (sort_key created_at (sort_key om_id (filter (\<lambda>r. om_tenant r = tenant) (orders s))))"

definition open_orders :: "string \<Rightarrow> oms \<Rightarrow> oms_order list res" where
  "open_orders tenant s = ebind (all_orders tenant s) (\<lambda>rs. Inr (filter (\<lambda>r. \<not> terminal (om_state r)) rs))"

definition broker_identity :: "string option \<Rightarrow> string option \<Rightarrow> string option res" where
  "broker_identity existing supplied =
     (if existing \<noteq> None \<and> supplied \<noteq> None \<and> existing \<noteq> supplied
      then Inl (ValueError ''broker_order_identity_changed'')
      else Inr (if existing = None \<or> existing = Some [] then supplied else existing))"

subsection \<open>The event log\<close>

definition oms_hash :: "(string \<Rightarrow> string) \<Rightarrow> json \<Rightarrow> string" where
  "oms_hash sha j = sha (dumps j)"

definition event_body :: "string \<Rightarrow> nat \<Rightarrow> string \<Rightarrow> instant \<Rightarrow> string option \<Rightarrow> json \<Rightarrow> json" where
  "event_body cid n kind t prev payload =
     JObj [(''clientOrderId'', JStr cid), (''sequence'', JInt (int n)), (''kind'', JStr kind),
           (''at'', JStr (iso_utc t)), (''previousHash'', opt_json JStr prev), (''payload'', payload)]"

definition events_of :: "string \<Rightarrow> oms \<Rightarrow> oms_event list" where
  "events_of cid s = sort_key ev_sequence (filter (\<lambda>e. ev_order e = cid) (events s))"

definition head_hash :: "oms_event list \<Rightarrow> string option" where
  "head_hash es = (if es = [] then None else Some (event_hash (last es)))"

definition append_event ::
    "(string \<Rightarrow> string) \<Rightarrow> string \<Rightarrow> string \<Rightarrow> datetime \<Rightarrow> (string \<times> json) list \<Rightarrow> oms \<Rightarrow> oms res" where
  "append_event sha cid kind when payload s =
     (case row_get om_id cid (orders s) of
        None \<Rightarrow> Inl (KeyError cid)
      | Some r \<Rightarrow>
          ebind (utc_instant (ValueError ''oms_event_at_must_be_timezone_aware'') when) (\<lambda>t.
          let n = last_event_sequence r + 1;
              prev = head_hash (events_of cid s);
              h = oms_hash sha (event_body cid n kind t prev (JObj payload))
          in if list_ex (\<lambda>e. (ev_order e = cid \<and> ev_sequence e = n) \<or> event_hash e = h) (events s)
             then Inl (IntegrityError ''oms_events'')
             else Inr (s\<lparr>events := events s @ [\<lparr>ev_order = cid, ev_sequence = n, ev_kind = kind, ev_at = t,
                           previous_hash = prev, event_hash = h, ev_payload = dumps (JObj payload)\<rparr>],
                        orders := row_upd om_id cid (\<lambda>r. r\<lparr>last_event_sequence := n\<rparr>) (orders s)\<rparr>)))"

subsection \<open>Paper recovery proofs\<close>

definition instant_of_iso :: "string \<Rightarrow> instant option" where
  "instant_of_iso s =
     (case date_of_iso (take 10 s) of
        None \<Rightarrow> None
      | Some day \<Rightarrow>
          (let hh = read_nat (take 2 (drop 11 s)); mm = read_nat (take 2 (drop 14 s));
               ss = read_nat (take 2 (drop 17 s));
               us = (if length s = 25 then 0 else read_nat (take 6 (drop 20 s)));
               t = int (day * day_us + (hh * 3600 + mm * 60 + ss) * 1000000 + us)
           in if iso_utc t = s then Some t else None))"

definition printable :: "char \<Rightarrow> bool" where
  "printable c = (let n = (of_char c :: nat) in (32 \<le> n \<and> n \<le> 126) \<or> (161 \<le> n \<and> n \<noteq> 173))"

definition recovery_fields :: "string list" where
  "recovery_fields = [''schema'', ''plan_sha256'', ''receipt_sha256'', ''reviewer'', ''recovered_at'']"

definition sha_field :: "json option \<Rightarrow> bool" where
  "sha_field j = (case j of Some (JStr s) \<Rightarrow> sha_match s | _ \<Rightarrow> False)"

definition reviewer_ok :: "json option \<Rightarrow> bool" where
  "reviewer_ok j = (case j of
       Some (JStr s) \<Rightarrow> s \<noteq> [] \<and> length s \<le> 256 \<and> s = strip s \<and> list_all printable s
     | _ \<Rightarrow> False)"

definition recovered_at_ok :: "json option \<Rightarrow> bool" where
  "recovered_at_ok j = (case j of Some (JStr s) \<Rightarrow> instant_of_iso s \<noteq> None | _ \<Rightarrow> False)"

definition paper_recovery_proof :: "json \<Rightarrow> (string \<times> json) list res" where
  "paper_recovery_proof j =
     (case j of
        JObj ms \<Rightarrow>
          if has_keys recovery_fields ms
            \<and> jget ''schema'' ms = Some (JStr ''pramana.paper_oms_recovery.v1'')
            \<and> sha_field (jget ''plan_sha256'' ms) \<and> sha_field (jget ''receipt_sha256'' ms)
            \<and> reviewer_ok (jget ''reviewer'' ms) \<and> recovered_at_ok (jget ''recovered_at'' ms)
          then Inr ms else Inl (ValueError ''oms_paper_recovery_proof_invalid'')
      | _ \<Rightarrow> Inl (ValueError ''oms_paper_recovery_proof_invalid''))"

subsection \<open>Replay\<close>

record replay =
  rp_previous :: "string option"
  rp_total :: int
  rp_weighted :: dec
  rp_state :: OrderState
  rp_broker :: "string option"
  rp_fills :: "(string \<times> int \<times> dec \<times> instant \<times> string option) list"
  rp_evidence :: "evidence_binding option"

definition replay_init :: replay where
  "replay_init = \<lparr>rp_previous = None, rp_total = 0, rp_weighted = dzero, rp_state = CREATED,
     rp_broker = None, rp_fills = [], rp_evidence = None\<rparr>"

text \<open>What the queries of \<open>verify\<close> read beside the order itself.\<close>

record oms_view =
  vw_fills :: "oms_fill list"
  vw_binding :: "evidence_binding option"
  vw_replacement :: "string option"
  vw_recovery :: "paper_recovery_row option option"
  vw_version :: int

definition view_of :: "string \<Rightarrow> oms \<Rightarrow> oms_view" where
  "view_of cid s = \<lparr>vw_fills = filter (\<lambda>f. fl_order f = cid) (fills s),
     vw_binding = broker_evidence_binding cid s, vw_replacement = replacement_for cid s,
     vw_recovery = map_option (row_get rc_order cid) (recoveries s), vw_version = schema_version s\<rparr>"

definition dict_eq :: "(string \<times> json) list \<Rightarrow> (string \<times> json) list \<Rightarrow> bool" where
  "dict_eq ms ns \<longleftrightarrow> list_all (\<lambda>k. jget k ms = jget k ns) (jkeys ms @ jkeys ns)"

definition order_identity :: "oms_order \<Rightarrow> (string \<times> json) list" where
  "order_identity c =
     [(''tenantId'', JStr (om_tenant c)), (''strategyId'', JStr (om_strategy c)),
      (''market'', JStr (om_market c)), (''assetClass'', JStr (om_asset_class c)),
      (''symbol'', JStr (om_symbol c)), (''side'', JStr (om_side c)),
      (''quantity'', JInt (requested_quantity c)),
      (''referencePrice'', JStr (dec_str (om_reference_price c)))]
     @ (case instrument_identity c of None \<Rightarrow> [] | Some t \<Rightarrow> [(''instrumentIdentity'', JStr t)])"

definition check_full_intent :: "oms_order \<Rightarrow> json option \<Rightarrow> unit res" where
  "check_full_intent c j =
     (case j of
        None \<Rightarrow> Inr ()
      | Some (JStr raw) \<Rightarrow>
          ebind (order_from_snapshot raw) (\<lambda>o1.
          ebind (canonical_order_intent o1) (\<lambda>text1.
          (case loads text1 of
             Some (JObj full) \<Rightarrow>
               if list_ex (\<lambda>(k, v). jget k full \<noteq> Some v) (order_identity c)
                 then Inl (ValueError ''oms_full_intent_projection_mismatch'')
               else if jget ''instrumentIdentity'' full \<noteq> Some (opt_json JStr (instrument_identity c))
                 then Inl (ValueError ''oms_full_intent_contract_mismatch'')
               else Inr ()
           | _ \<Rightarrow> Inl (ValueError ''oms_full_intent_projection_mismatch''))))
      | _ \<Rightarrow> Inl (ValueError ''order_snapshot_payload_invalid''))"

definition replay_created :: "oms_order \<Rightarrow> nat \<Rightarrow> oms_event \<Rightarrow> (string \<times> json) list \<Rightarrow> replay \<Rightarrow> replay res" where
  "replay_created c n e ms st =
     (if n \<noteq> 1 \<or> \<not> (case jget ''order'' ms of Some (JObj os) \<Rightarrow> dict_eq os (order_identity c) | _ \<Rightarrow> False)
        then Inl (ValueError ''oms_identity_projection_mismatch'')
      else ebind (check_full_intent c (jget ''approvedIntent'' ms)) (\<lambda>_.
        if ev_at e \<noteq> created_at c then Inl (ValueError ''oms_created_at_projection_mismatch'') else Inr st))"

text \<open>\<open>_decimal\<close> of a JSON value.\<close>

definition decimal_field :: "string \<Rightarrow> bool \<Rightarrow> json option \<Rightarrow> dec res" where
  "decimal_field name positive j =
     (case (case j of Some (JStr t) \<Rightarrow> dec_of_str t | Some (JInt i) \<Rightarrow> Some (Finite (dec_of_int i)) | _ \<Rightarrow> None) of
        Some (Finite d) \<Rightarrow>
          if positive \<and> dle d dzero then Inl (ValueError (''invalid_'' @ name)) else Inr d
      | _ \<Rightarrow> Inl (ValueError (''invalid_'' @ name)))"

definition broker_field :: "(string \<times> json) list \<Rightarrow> string option res" where
  "broker_field ms =
     (case jget ''brokerOrderId'' ms of
        None \<Rightarrow> Inr None
      | Some JNull \<Rightarrow> Inr None
      | Some (JStr b) \<Rightarrow> Inr (Some b)
      | _ \<Rightarrow> Inl (ValueError ''broker_order_identity_changed''))"

definition check_recovery ::
    "(string \<Rightarrow> string) \<Rightarrow> oms_order \<Rightarrow> oms_view \<Rightarrow> oms_event \<Rightarrow> string \<Rightarrow> (string \<times> json) list \<Rightarrow> unit res" where
  "check_recovery sha c v e fid ms =
     (case jget ''paperRecovery'' ms of
        None \<Rightarrow> Inr ()
      | Some j \<Rightarrow>
          if vw_version v \<noteq> 2 then Inl (ValueError ''oms_paper_recovery_schema_mismatch'')
          else ebind (paper_recovery_proof j) (\<lambda>proof1.
          (case vw_recovery v of
             Some (Some audit) \<Rightarrow>
               (case loads (rc_payload audit) of
                  Some (JObj rec) \<Rightarrow>
                    (case jget ''plan'' rec of
                       Some (JObj plan) \<Rightarrow>
                         if oms_hash sha (JObj rec) = rc_sha256 audit
                           \<and> rc_tenant audit = om_tenant c
                           \<and> jget ''schema'' rec = jget ''schema'' proof1
                           \<and> jget ''plan_sha256'' rec = jget ''plan_sha256'' proof1
                           \<and> Some (JStr (oms_hash sha (JObj plan))) = jget ''plan_sha256'' proof1
                           \<and> jget ''client_order_id'' plan = Some (JStr (om_id c))
                           \<and> jget ''tenant_id'' plan = Some (JStr (om_tenant c))
                           \<and> jget ''paper_order_id'' plan = Some (JStr fid)
                           \<and> jget ''receipt_sha256'' plan = jget ''receipt_sha256'' proof1
                           \<and> jget ''reviewer'' rec = jget ''reviewer'' proof1
                           \<and> jget ''recovered_at'' rec = jget ''recovered_at'' proof1
                           \<and> jget ''after_oms_head'' rec = Some (JStr (event_hash e))
                         then (if jget ''sourceIdentity'' ms \<noteq> None \<or> starts_with ''KITE'' fid
                               then Inl (ValueError ''oms_paper_recovery_external_fill_forbidden'') else Inr ())
                         else Inl (ValueError ''oms_paper_recovery_audit_mismatch'')
                     | _ \<Rightarrow> Inl (ValueError ''oms_paper_recovery_audit_mismatch''))
                | _ \<Rightarrow> Inl (ValueError ''oms_paper_recovery_audit_mismatch''))
           | _ \<Rightarrow> Inl (ValueError ''oms_paper_recovery_audit_missing''))))"

definition binding_scope :: "evidence_binding \<Rightarrow> broker_binding" where
  "binding_scope b = \<lparr>bd_broker = eb_broker b, bd_account_ref = eb_account_ref b,
     bd_order_id = eb_broker_order_id b, bd_exchange = eb_exchange b\<rparr>"

definition check_source ::
    "(string \<Rightarrow> string) \<Rightarrow> oms_order \<Rightarrow> replay \<Rightarrow> oms_event \<Rightarrow> string option \<Rightarrow> string \<Rightarrow> (string \<times> json) list \<Rightarrow> unit res" where
  "check_source sha c st e broker fid ms =
     (case jget ''sourceIdentity'' ms of
        None \<Rightarrow> if starts_with ''KITE2:'' fid then Inl (ValueError ''oms_external_fill_source_missing'') else Inr ()
      | Some (JObj xs) \<Rightarrow>
          (case str_members xs of
             None \<Rightarrow> Inl (ValueError ''external_execution_identity_value_invalid'')
           | Some src \<Rightarrow>
               ebind (execution_identity src) (\<lambda>source.
               ebind (assert_fill_source source (om_tenant c) broker (Aware (ev_at e))
                        (map_option binding_scope (rp_evidence st))) (\<lambda>_.
               ebind (external_fill_id sha source) (\<lambda>x.
               if x \<noteq> fid \<or> execution_value source ''tenantId'' \<noteq> om_tenant c
                 \<or> Some (execution_value source ''brokerOrderId'') \<noteq> broker
               then Inl (ValueError ''oms_external_fill_identity_mismatch'') else Inr ()))))
      | _ \<Rightarrow> Inl (TypeError ''external_execution_identity_must_be_mapping''))"

definition fill_target :: "oms_order \<Rightarrow> int \<Rightarrow> OrderState" where
  "fill_target c filled = (if filled = requested_quantity c then FILLED else PARTIALLY_FILLED)"

definition replay_fill ::
    "(string \<Rightarrow> string) \<Rightarrow> oms_order \<Rightarrow> oms_view \<Rightarrow> oms_event \<Rightarrow> (string \<times> json) list \<Rightarrow> replay \<Rightarrow> replay res" where
  "replay_fill sha c v e ms st =
     ebind (case jget ''quantity'' ms of
        None \<Rightarrow> Inl (KeyError ''quantity'')
      | Some (JInt q) \<Rightarrow> if q \<le> 0 then Inl (ValueError ''oms_fill_event_invalid'') else Inr q
      | _ \<Rightarrow> Inl (ValueError ''oms_fill_event_invalid'')) (\<lambda>qty.
     ebind (decimal_field ''fill_price'' True (jget ''price'' ms)) (\<lambda>price.
     let filled = rp_total st + qty;
         weighted = dadd (rp_weighted st) (dmul price (dec_of_int qty));
         target = fill_target c filled
     in
     if requested_quantity c < filled \<or> jget ''cumulativeFilled'' ms \<noteq> Some (JInt filled)
         \<or> jget ''state'' ms \<noteq> Some (JStr (state_value target))
       then Inl (ValueError ''oms_fill_event_projection_mismatch'')
     else
     ebind (decimal_field ''fill_average'' False (jget ''averageFillPrice'' ms)) (\<lambda>average.
     ebind (ddiv weighted (dec_of_int filled)) (\<lambda>mean.
     if \<not> deq average mean then Inl (ValueError ''oms_fill_event_projection_mismatch'')
     else
     ebind (lifecycle_transition (rp_state st) target) (\<lambda>state1.
     ebind (broker_field ms) (\<lambda>supplied.
     ebind (broker_identity (rp_broker st) supplied) (\<lambda>broker.
     ebind (case jget ''fillId'' ms of Some (JStr f) \<Rightarrow> Inr f | _ \<Rightarrow> Inl (KeyError ''fillId'')) (\<lambda>fid.
     ebind (check_recovery sha c v e fid ms) (\<lambda>_.
     ebind (check_source sha c st e broker fid ms) (\<lambda>_.
     if fid \<in> fst ` set (rp_fills st) then Inl (ValueError ''oms_duplicate_fill_event'')
     else Inr (st\<lparr>rp_total := filled, rp_weighted := weighted, rp_state := state1, rp_broker := broker,
       rp_fills := rp_fills st @ [(fid, qty, price, ev_at e, broker)]\<rparr>)))))))))))"

definition binding_members :: "evidence_binding \<Rightarrow> (string \<times> json) list" where
  "binding_members b = [(''broker'', JStr (eb_broker b)), (''account_ref'', JStr (eb_account_ref b)),
     (''broker_order_id'', JStr (eb_broker_order_id b)), (''instrument_id'', JStr (eb_instrument_id b)),
     (''exchange'', JStr (eb_exchange b)), (''product'', JStr (eb_product b))]"

definition replay_binding :: "oms_view \<Rightarrow> (string \<times> json) list \<Rightarrow> replay \<Rightarrow> replay res" where
  "replay_binding v ms st =
     (if rp_evidence st \<noteq> None \<or> rp_state st = CREATED
        then Inl (ValueError ''oms_broker_evidence_event_invalid'')
      else case vw_binding v of
          Some b \<Rightarrow> if dict_eq ms (binding_members b) then Inr (st\<lparr>rp_evidence := Some b\<rparr>)
            else Inl (ValueError ''oms_broker_evidence_projection_mismatch'')
        | None \<Rightarrow> Inl (ValueError ''oms_broker_evidence_projection_mismatch''))"

definition replay_broker_observed :: "(string \<times> json) list \<Rightarrow> replay \<Rightarrow> replay res" where
  "replay_broker_observed ms st =
     (if jget ''state'' ms \<noteq> Some (JStr (state_value (rp_state st)))
        then Inl (ValueError ''oms_state_projection_mismatch'')
      else ebind (broker_field ms) (\<lambda>supplied.
        ebind (broker_identity (rp_broker st) supplied) (\<lambda>broker. Inr (st\<lparr>rp_broker := broker\<rparr>))))"

definition replay_replaced :: "oms_view \<Rightarrow> (string \<times> json) list \<Rightarrow> replay \<Rightarrow> replay res" where
  "replay_replaced v ms st =
     (if rp_state st \<noteq> CANCELLED then Inl (ValueError ''oms_replacement_without_cancellation'')
      else if (case jget ''replacementClientOrderId'' ms of
           None \<Rightarrow> vw_replacement v \<noteq> None
         | Some j \<Rightarrow> j \<noteq> opt_json JStr (vw_replacement v))
        then Inl (ValueError ''oms_replacement_projection_mismatch'')
      else Inr st)"

definition replay_transition :: "OrderState \<Rightarrow> (string \<times> json) list \<Rightarrow> replay \<Rightarrow> replay res" where
  "replay_transition target ms st =
     (if jget ''from'' ms \<noteq> Some (JStr (state_value (rp_state st)))
         \<or> jget ''to'' ms \<noteq> Some (JStr (state_value target))
        then Inl (ValueError ''oms_state_projection_mismatch'')
      else ebind (lifecycle_transition (rp_state st) target) (\<lambda>state1.
        ebind (broker_field ms) (\<lambda>supplied.
        ebind (broker_identity (rp_broker st) supplied) (\<lambda>broker.
          Inr (st\<lparr>rp_state := state1, rp_broker := broker\<rparr>)))))"

definition replay_kind ::
    "(string \<Rightarrow> string) \<Rightarrow> oms_order \<Rightarrow> oms_view \<Rightarrow> nat \<Rightarrow> oms_event \<Rightarrow> (string \<times> json) list \<Rightarrow> replay \<Rightarrow> replay res" where
  "replay_kind sha c v n e ms st =
     (if ev_kind e = ''CREATED'' then replay_created c n e ms st
      else if ev_kind e = ''FILL'' then replay_fill sha c v e ms st
      else if ev_kind e = ''BROKER_EVIDENCE_BOUND'' then replay_binding v ms st
      else if ev_kind e = ''BROKER_ID_OBSERVED'' then replay_broker_observed ms st
      else if ev_kind e = ''REPLACED_BY'' then replay_replaced v ms st
      else ebind (of_option (ValueError ''invalid OrderState'') (state_of (ev_kind e)))
             (\<lambda>target. replay_transition target ms st))"

text \<open>One event: its place in the chain, its hash, then its meaning.\<close>

definition replay_event ::
    "(string \<Rightarrow> string) \<Rightarrow> oms_order \<Rightarrow> oms_view \<Rightarrow> replay \<Rightarrow> nat \<times> oms_event \<Rightarrow> replay res" where
  "replay_event sha c v st ne =
     (let n = fst ne; e = snd ne in
      if ev_sequence e \<noteq> n \<or> previous_hash e \<noteq> rp_previous st
        then Inl (ValueError ''oms_event_chain_incomplete'')
      else case loads (ev_payload e) of
          None \<Rightarrow> Inl (ValueError ''invalid JSON'')
        | Some payload \<Rightarrow>
            if event_hash e \<noteq> oms_hash sha (event_body (om_id c) n (ev_kind e) (ev_at e) (rp_previous st) payload)
              then Inl (ValueError ''oms_event_hash_mismatch'')
            else (case payload of
                JObj ms \<Rightarrow> replay_kind sha c v n e ms (st\<lparr>rp_previous := Some (event_hash e)\<rparr>)
              | _ \<Rightarrow> Inl (TypeError ''payload'')))"

definition replay_events ::
    "(string \<Rightarrow> string) \<Rightarrow> oms_order \<Rightarrow> oms_view \<Rightarrow> oms_event list \<Rightarrow> replay res" where
  "replay_events sha c v es = foldr_res (replay_event sha c v) replay_init (zip [1..<length es + 1] es)"

text \<open>The fill table against the fills of the log.\<close>

definition fill_matches :: "(string \<times> int \<times> dec \<times> instant \<times> string option) list \<Rightarrow> oms_fill \<Rightarrow> bool" where
  "fill_matches xs f =
     (case map_of xs (fl_id f) of
        None \<Rightarrow> False
      | Some (qty, price, t, broker) \<Rightarrow>
          fl_quantity f = qty \<and> deq (fl_price f) price \<and> fl_at f = t
          \<and> (fl_broker f = None \<or> fl_broker f = broker))"

definition projection_average :: "replay \<Rightarrow> dec option res" where
  "projection_average rp = (if rp_total rp = 0 then Inr None
     else ebind (ddiv (rp_weighted rp) (dec_of_int (rp_total rp))) (\<lambda>a. Inr (Some a)))"

definition opt_deq :: "dec option \<Rightarrow> dec option \<Rightarrow> bool" where
  "opt_deq x y = (case (x, y) of (None, None) \<Rightarrow> True | (Some a, Some b) \<Rightarrow> deq a b | _ \<Rightarrow> False)"

definition check_projection :: "oms_order \<Rightarrow> oms_view \<Rightarrow> nat \<Rightarrow> replay \<Rightarrow> unit res" where
  "check_projection c v n rp =
     (if n \<noteq> last_event_sequence c then Inl (ValueError ''oms_projection_event_sequence_mismatch'')
      else if vw_binding v \<noteq> rp_evidence rp then Inl (ValueError ''oms_broker_evidence_projection_mismatch'')
      else if rp_state rp = FILLED \<and> rp_total rp \<noteq> requested_quantity c
        then Inl (ValueError ''oms_fill_projection_mismatch'')
      else if rp_state rp \<noteq> om_state c \<or> rp_broker rp \<noteq> broker_order_id c
        then Inl (ValueError ''oms_state_or_broker_projection_mismatch'')
      else ebind (projection_average rp) (\<lambda>average.
        if rp_total rp \<noteq> filled_quantity c \<or> \<not> opt_deq average (average_fill_price c)
          then Inl (ValueError ''oms_fill_projection_mismatch'')
        else if \<not> list_all (fill_matches (rp_fills rp)) (vw_fills v)
            \<or> fl_id ` set (vw_fills v) \<noteq> fst ` set (rp_fills rp)
          then Inl (ValueError ''oms_fill_history_projection_mismatch'')
        else Inr ()))"

record oms_report =
  rep_order :: string
  rep_state :: OrderState
  rep_events :: nat
  rep_filled :: int
  rep_pending :: int
  rep_head :: "string option"

definition verify_order ::
    "(string \<Rightarrow> string) \<Rightarrow> oms_order \<Rightarrow> oms_view \<Rightarrow> oms_event list \<Rightarrow> oms_report res" where
  "verify_order sha c v es =
     (if es = [] \<or> ev_kind (hd es) \<noteq> ''CREATED'' then Inl (ValueError ''oms_event_chain_incomplete'')
      else ebind (replay_events sha c v es) (\<lambda>rp.
      ebind (check_projection c v (length es) rp) (\<lambda>_.
        Inr \<lparr>rep_order = om_id c, rep_state = om_state c, rep_events = length es,
             rep_filled = rp_total rp, rep_pending = pending_quantity c, rep_head = rp_previous rp\<rparr>)))"

definition verify_oms :: "(string \<Rightarrow> string) \<Rightarrow> string \<Rightarrow> oms \<Rightarrow> oms_report res" where
  "verify_oms sha cid s =
     ebind (get_order cid s) (\<lambda>c. verify_order sha c (view_of cid s) (events_of cid s))"

end
