(* ===== verification/Oms.thy ===== *)
theory Oms
  imports OmsStore
begin

text \<open>
  \<^verbatim>\<open>src/quant_ai/orders/oms.py\<close>, part 2: the operations of \<open>DurableOms\<close> that change the
  journal. Each takes the instant its clock argument denotes and returns the new journal with
  the order it returns or the exception it raises; a transaction that raises leaves the journal
  as it was. \<open>body\<close> results are \<open>Inl\<close> an order returned at once, or \<open>Inr\<close> the id of the order
  that is read back after the commit.
\<close>

type_synonym oms_outcome = "oms \<times> oms_order res"

definition finish :: "oms \<Rightarrow> (oms \<times> (oms_order + string)) res \<Rightarrow> oms_outcome" where
  "finish s body =
     (case body of
        Inl e \<Rightarrow> (s, Inl e)
      | Inr (s', Inl r) \<Rightarrow> (s', Inr r)
      | Inr (s', Inr cid) \<Rightarrow> (s', get_order cid s'))"

subsection \<open>Creation\<close>

definition order_members :: "OrderIntent \<Rightarrow> string option \<Rightarrow> (string \<times> json) list" where
  "order_members o1 ident =
     [(''tenantId'', JStr (tenant_id o1)), (''strategyId'', JStr (strategy_id o1)),
      (''market'', JStr (market_value (oi_market o1))),
      (''assetClass'', JStr (asset_value (oi_asset_class o1))), (''symbol'', JStr (oi_symbol o1)),
      (''side'', JStr (side_value (oi_side o1))), (''quantity'', JInt (oi_quantity o1)),
      (''referencePrice'', JStr (dec_str (reference_price o1)))]
     @ (case ident of None \<Rightarrow> [] | Some t \<Rightarrow> [(''instrumentIdentity'', JStr t)])"

definition make_client_order_id :: "(string \<Rightarrow> string) \<Rightarrow> OrderIntent \<Rightarrow> string \<Rightarrow> string res" where
  "make_client_order_id sha o1 decision =
     (if strip decision = [] then Inl (ValueError ''decision_id_required'')
      else ebind (bound_identity o1) (\<lambda>ident.
        Inr (''OMS-'' @ List.take 40 (oms_hash sha (JObj (
          [(''tenant'', JStr (tenant_id o1)), (''strategy'', JStr (strategy_id o1)),
           (''market'', JStr (market_value (oi_market o1))),
           (''assetClass'', JStr (asset_value (oi_asset_class o1))), (''symbol'', JStr (oi_symbol o1)),
           (''side'', JStr (side_value (oi_side o1))), (''quantity'', JInt (oi_quantity o1)),
           (''referencePrice'', JStr (dec_str (reference_price o1))), (''decisionId'', JStr decision)]
          @ (case ident of None \<Rightarrow> [] | Some t \<Rightarrow> [(''instrumentIdentity'', JStr t)])))))))"

definition intent_snapshot :: "(string \<Rightarrow> string) \<Rightarrow> string \<Rightarrow> oms \<Rightarrow> json option res" where
  "intent_snapshot sha cid s =
     ebind (verify_oms sha cid s) (\<lambda>_.
       case find (\<lambda>e. ev_sequence e = 1) (events_of cid s) of
         None \<Rightarrow> Inl (TypeError ''no creation event'')
       | Some e \<Rightarrow> (case loads (ev_payload e) of
             Some (JObj ms) \<Rightarrow> Inr (jget ''approvedIntent'' ms)
           | _ \<Rightarrow> Inl (TypeError ''payload'')))"

definition get_intent :: "(string \<Rightarrow> string) \<Rightarrow> string \<Rightarrow> oms \<Rightarrow> OrderIntent res" where
  "get_intent sha cid s =
     ebind (intent_snapshot sha cid s) (\<lambda>raw.
       case raw of
         Some (JStr t) \<Rightarrow> order_from_snapshot t
       | None \<Rightarrow> Inl (ValueError ''oms_legacy_full_intent_unavailable'')
       | Some JNull \<Rightarrow> Inl (ValueError ''oms_legacy_full_intent_unavailable'')
       | _ \<Rightarrow> Inl (ValueError ''order_snapshot_payload_invalid''))"

definition assert_same_intent :: "(string \<Rightarrow> string) \<Rightarrow> oms_order \<Rightarrow> OrderIntent \<Rightarrow> oms \<Rightarrow> unit res" where
  "assert_same_intent sha c o1 s =
     ebind (if om_tenant c \<noteq> tenant_id o1 \<or> om_strategy c \<noteq> strategy_id o1 \<or> om_symbol c \<noteq> oi_symbol o1
              \<or> om_market c \<noteq> market_value (oi_market o1) \<or> om_asset_class c \<noteq> asset_value (oi_asset_class o1)
              \<or> om_side c \<noteq> side_value (oi_side o1) \<or> requested_quantity c \<noteq> oi_quantity o1
              \<or> \<not> deq (om_reference_price c) (reference_price o1)
            then Inl (ValueError ''client_order_id_intent_mismatch'') else bound_identity o1) (\<lambda>ident.
     if instrument_identity c \<noteq> ident then Inl (ValueError ''client_order_id_intent_mismatch'')
     else ebind (intent_snapshot sha (om_id c) s) (\<lambda>original.
       if original = None \<or> original = Some JNull then Inr ()
       else ebind (canonical_order_intent o1) (\<lambda>text1.
         if original \<noteq> Some (JStr text1) then Inl (ValueError ''client_order_id_intent_mismatch'') else Inr ())))"

text \<open>The row \<open>INSERT INTO oms_orders\<close> writes.\<close>

definition new_row :: "string \<Rightarrow> OrderIntent \<Rightarrow> string option \<Rightarrow> instant \<Rightarrow> oms_order" where
  "new_row cid o1 ident t =
     \<lparr>om_id = cid, om_tenant = tenant_id o1, om_strategy = strategy_id o1, om_state = CREATED,
      om_symbol = oi_symbol o1, om_market = market_value (oi_market o1),
      om_asset_class = asset_value (oi_asset_class o1), om_side = side_value (oi_side o1),
      requested_quantity = oi_quantity o1, om_reference_price = reference_price o1,
      filled_quantity = 0, average_fill_price = None, broker_order_id = None, created_at = t,
      updated_at = t, last_event_sequence = 0, instrument_identity = ident\<rparr>"

definition insert_created ::
    "(string \<Rightarrow> string) \<Rightarrow> OrderIntent \<Rightarrow> string \<Rightarrow> string \<Rightarrow> datetime \<Rightarrow> instant \<Rightarrow> (string \<times> json) list \<Rightarrow> oms \<Rightarrow> oms res" where
  "insert_created sha o1 decision cid when t lineage s =
     ebind (bound_identity o1) (\<lambda>ident.
     ebind (canonical_order_intent o1) (\<lambda>snapshot.
       append_event sha cid ''CREATED'' when
         ((''decisionId'', JStr decision) # lineage @
          [(''approvedIntent'', JStr snapshot), (''order'', JObj (order_members o1 ident))])
         (s\<lparr>orders := orders s @ [new_row cid o1 ident t]\<rparr>)))"

definition create ::
    "(string \<Rightarrow> string) \<Rightarrow> OrderIntent \<Rightarrow> string \<Rightarrow> datetime \<Rightarrow> oms \<Rightarrow> oms_outcome" where
  "create sha o1 decision when s = finish s
     (if oi_quantity o1 \<le> 0 \<or> dle (reference_price o1) dzero
        then Inl (ValueError ''oms_invalid_order_geometry'')
      else ebind (utc_instant (ValueError ''order_created_at_must_be_timezone_aware'') when) (\<lambda>t.
        ebind (make_client_order_id sha o1 decision) (\<lambda>cid.
        case row_get om_id cid (orders s) of
          Some r \<Rightarrow>
            ebind (decode_row r) (\<lambda>c. ebind (assert_same_intent sha c o1 s) (\<lambda>_. Inr (s, Inl c)))
        | None \<Rightarrow> ebind (insert_created sha o1 decision cid when t [] s) (\<lambda>s'. Inr (s', Inr cid)))))"

subsection \<open>Transitions\<close>

definition opt_id :: "string \<Rightarrow> string option \<Rightarrow> unit res" where
  "opt_id name v = (case v of None \<Rightarrow> Inr () | Some x \<Rightarrow> check_id name x)"

definition stored_order :: "string \<Rightarrow> oms \<Rightarrow> oms_order res" where
  "stored_order cid s =
     (case row_get om_id cid (orders s) of None \<Rightarrow> Inl (KeyError cid) | Some r \<Rightarrow> decode_row r)"

definition clean_reason :: "string \<Rightarrow> json" where
  "clean_reason reason = (if strip reason = [] then JNull else JStr (strip reason))"

definition transition ::
    "(string \<Rightarrow> string) \<Rightarrow> string \<Rightarrow> OrderState \<Rightarrow> string \<Rightarrow> string option \<Rightarrow> datetime \<Rightarrow> oms \<Rightarrow> oms_outcome" where
  "transition sha cid target reason broker_id when s = finish s
     (ebind (check_id ''client_order_id'' cid) (\<lambda>_.
      ebind (opt_id ''broker_order_id'' broker_id) (\<lambda>_.
      ebind (stored_order cid s) (\<lambda>c.
      ebind (lifecycle_transition (om_state c) target) (\<lambda>_.
      ebind (broker_identity (broker_order_id c) broker_id) (\<lambda>broker.
      ebind (utc_instant (ValueError ''order_transition_at_must_be_timezone_aware'') when) (\<lambda>t.
      ebind (append_event sha cid (state_value target) when
          [(''from'', JStr (state_value (om_state c))), (''to'', JStr (state_value target)),
           (''reason'', clean_reason reason), (''brokerOrderId'', opt_json JStr broker)]
          (s\<lparr>orders := row_upd om_id cid
             (\<lambda>r. r\<lparr>om_state := target, broker_order_id := broker, updated_at := t\<rparr>) (orders s)\<rparr>))
        (\<lambda>s'. Inr (s', Inr cid)))))))))"

definition approve_risk :: "(string \<Rightarrow> string) \<Rightarrow> string \<Rightarrow> datetime \<Rightarrow> oms \<Rightarrow> oms_outcome" where
  "approve_risk sha cid when s = transition sha cid RISK_APPROVED [] None when s"

definition submitted :: "(string \<Rightarrow> string) \<Rightarrow> string \<Rightarrow> string option \<Rightarrow> datetime \<Rightarrow> oms \<Rightarrow> oms_outcome" where
  "submitted sha cid broker_id when s = transition sha cid SUBMITTED [] broker_id when s"

definition with_reason :: "string \<Rightarrow> string \<Rightarrow> oms \<Rightarrow> oms_outcome \<Rightarrow> oms_outcome" where
  "with_reason label reason s out = (if strip reason = [] then (s, Inl (ValueError label)) else out)"

definition submission_uncertain :: "(string \<Rightarrow> string) \<Rightarrow> string \<Rightarrow> string \<Rightarrow> datetime \<Rightarrow> oms \<Rightarrow> oms_outcome" where
  "submission_uncertain sha cid reason when s =
     with_reason ''uncertain_submission_reason_required'' reason s
       (transition sha cid SUBMISSION_UNCERTAIN reason None when s)"

definition reject :: "(string \<Rightarrow> string) \<Rightarrow> string \<Rightarrow> string \<Rightarrow> datetime \<Rightarrow> oms \<Rightarrow> oms_outcome" where
  "reject sha cid reason when s =
     with_reason ''order_rejection_reason_required'' reason s (transition sha cid REJECTED reason None when s)"

definition cancel_order :: "(string \<Rightarrow> string) \<Rightarrow> string \<Rightarrow> string \<Rightarrow> datetime \<Rightarrow> oms \<Rightarrow> oms_outcome" where
  "cancel_order sha cid reason when s =
     with_reason ''order_cancel_reason_required'' reason s (transition sha cid CANCELLED reason None when s)"

subsection \<open>Broker identity and evidence\<close>

definition bind_broker_identity ::
    "(string \<Rightarrow> string) \<Rightarrow> string \<Rightarrow> string \<Rightarrow> string \<Rightarrow> datetime \<Rightarrow> oms \<Rightarrow> oms_outcome" where
  "bind_broker_identity sha cid broker_id reason when s = finish s
     (ebind (check_id ''client_order_id'' cid) (\<lambda>_.
      ebind (check_id ''broker_order_id'' broker_id) (\<lambda>_.
      if strip reason = [] then Inl (ValueError ''broker_identity_binding_reason_required'')
      else
      ebind (stored_order cid s) (\<lambda>c.
      ebind (broker_identity (broker_order_id c) (Some broker_id)) (\<lambda>broker.
      if broker_order_id c = broker then Inr (s, Inl c)
      else
      ebind (utc_instant (ValueError ''broker_identity_observed_at_must_be_timezone_aware'') when) (\<lambda>t.
      ebind (append_event sha cid ''BROKER_ID_OBSERVED'' when
          [(''brokerOrderId'', opt_json JStr broker), (''reason'', JStr (strip reason)),
           (''state'', JStr (state_value (om_state c)))]
          (s\<lparr>orders := row_upd om_id cid (\<lambda>r. r\<lparr>broker_order_id := broker, updated_at := t\<rparr>) (orders s)\<rparr>))
        (\<lambda>s'. Inr (s', Inr cid))))))))"

text \<open>The argument is the binding with its order, as the table stores it; the result is a pair too.\<close>

definition bind_evidence_body :: "(string \<Rightarrow> string) \<Rightarrow> evidence_binding \<Rightarrow> datetime \<Rightarrow> oms \<Rightarrow> oms res" where
  "bind_evidence_body sha b when s =
     (if eb_broker b \<noteq> ''zerodha-kite'' then Inl (ValueError ''broker_evidence_binding_invalid'')
      else if \<not> sha_match (eb_account_ref b) then Inl (ValueError ''broker_evidence_account_invalid'')
      else
      ebind (check_id ''broker_order_id'' (eb_broker_order_id b)) (\<lambda>_.
      ebind (check_id ''instrument_id'' (eb_instrument_id b)) (\<lambda>_.
      ebind (check_id ''exchange'' (eb_exchange b)) (\<lambda>_.
      ebind (check_id ''product'' (eb_product b)) (\<lambda>_.
      ebind (get_order (eb_order b) s) (\<lambda>c.
      if om_state c = CREATED then Inl (ValueError ''broker_evidence_requires_risk_approval'')
      else
      ebind (broker_identity (broker_order_id c) (Some (eb_broker_order_id b))) (\<lambda>_.
      case broker_evidence_binding (eb_order b) s of
        Some old \<Rightarrow> if old \<noteq> b then Inl (ValueError ''broker_evidence_binding_changed'') else Inr s
      | None \<Rightarrow>
          if list_ex (\<lambda>x. eb_broker x = eb_broker b \<and> eb_account_ref x = eb_account_ref b
               \<and> eb_broker_order_id x = eb_broker_order_id b) (bindings s)
          then Inl (IntegrityError ''oms_broker_evidence_bindings'')
          else append_event sha (eb_order b) ''BROKER_EVIDENCE_BOUND'' when (binding_members b)
                 (s\<lparr>bindings := bindings s @ [b]\<rparr>))))))))"

definition bind_broker_evidence ::
    "(string \<Rightarrow> string) \<Rightarrow> evidence_binding \<Rightarrow> datetime \<Rightarrow> oms \<Rightarrow> oms \<times> unit res" where
  "bind_broker_evidence sha b when s =
     (case bind_evidence_body sha b when s of Inl e \<Rightarrow> (s, Inl e) | Inr s' \<Rightarrow> (s', Inr ()))"

subsection \<open>Replacement of a cancelled order\<close>

definition replaced_link ::
    "(string \<Rightarrow> string) \<Rightarrow> replacement \<Rightarrow> string \<Rightarrow> string \<Rightarrow> OrderIntent \<Rightarrow> oms \<Rightarrow> oms_order res" where
  "replaced_link sha l rid reason o1 s =
     (if rl_replacement l \<noteq> rid \<or> rl_reason l \<noteq> strip reason
        then Inl (ValueError ''replacement_lineage_payload_mismatch'')
      else case row_get om_id rid (orders s) of
          None \<Rightarrow> Inl (ValueError ''replacement_lineage_missing_order'')
        | Some r \<Rightarrow> ebind (decode_row r) (\<lambda>c. ebind (assert_same_intent sha c o1 s) (\<lambda>_. Inr c)))"

definition check_replaceable :: "oms_order \<Rightarrow> OrderIntent \<Rightarrow> unit res" where
  "check_replaceable c o1 =
     (if om_state c \<noteq> CANCELLED then Inl (ValueError ''replacement_requires_confirmed_cancel'')
      else if pending_quantity c \<le> 0 then Inl (ValueError ''cancelled_order_has_no_replaceable_quantity'')
      else
      ebind (if om_tenant c \<noteq> tenant_id o1 \<or> om_strategy c \<noteq> strategy_id o1 \<or> om_symbol c \<noteq> oi_symbol o1
               \<or> om_market c \<noteq> market_value (oi_market o1)
               \<or> om_asset_class c \<noteq> asset_value (oi_asset_class o1)
               \<or> om_side c \<noteq> side_value (oi_side o1)
             then Inl (ValueError ''replacement_economic_identity_changed'') else bound_identity o1) (\<lambda>ident.
      if instrument_identity c \<noteq> ident then Inl (ValueError ''replacement_economic_identity_changed'')
      else if pending_quantity c < oi_quantity o1 then Inl (ValueError ''replacement_exceeds_cancelled_remainder'')
      else Inr ()))"

definition insert_link :: "replacement \<Rightarrow> oms \<Rightarrow> oms res" where
  "insert_link l s =
     (if list_ex (\<lambda>x. rl_original x = rl_original l \<or> rl_replacement x = rl_replacement l) (replacements s)
      then Inl (IntegrityError ''oms_replacements'')
      else Inr (s\<lparr>replacements := replacements s @ [l]\<rparr>))"

definition replace_cancelled ::
    "(string \<Rightarrow> string) \<Rightarrow> string \<Rightarrow> OrderIntent \<Rightarrow> string \<Rightarrow> string \<Rightarrow> datetime \<Rightarrow> oms \<Rightarrow> oms_outcome" where
  "replace_cancelled sha orig o1 decision reason when s = finish s
     (ebind (check_id ''client_order_id'' orig) (\<lambda>_.
      if strip reason = [] then Inl (ValueError ''replacement_reason_required'')
      else if oi_quantity o1 \<le> 0 \<or> dle (reference_price o1) dzero
        then Inl (ValueError ''oms_invalid_order_geometry'')
      else if strip decision = [] then Inl (ValueError ''decision_id_required'')
      else
      ebind (utc_instant (ValueError ''replacement_at_must_be_timezone_aware'') when) (\<lambda>t.
      ebind (make_client_order_id sha o1 decision) (\<lambda>rid.
      case row_get rl_original orig (replacements s) of
        Some l \<Rightarrow> ebind (replaced_link sha l rid reason o1 s) (\<lambda>c. Inr (s, Inl c))
      | None \<Rightarrow>
          ebind (stored_order orig s) (\<lambda>c.
          ebind (check_replaceable c o1) (\<lambda>_.
          if row_get om_id rid (orders s) \<noteq> None
            then Inl (ValueError ''replacement_order_preexists_without_lineage'')
          else
          ebind (insert_created sha o1 decision rid when t [(''replacesClientOrderId'', JStr orig)] s) (\<lambda>s1.
          ebind (insert_link \<lparr>rl_original = orig, rl_replacement = rid, rl_reason = strip reason, rl_at = t\<rparr> s1) (\<lambda>s2.
          ebind (append_event sha orig ''REPLACED_BY'' when
                   [(''replacementClientOrderId'', JStr rid), (''reason'', JStr (strip reason))] s2)
            (\<lambda>s3. Inr (s3, Inr rid))))))))))"

subsection \<open>Fills\<close>

definition check_fill_source ::
    "string option \<Rightarrow> string \<Rightarrow> datetime \<Rightarrow> execution option \<Rightarrow> oms \<Rightarrow> unit res" where
  "check_fill_source broker_id cid when source s =
     (case source of
        None \<Rightarrow> Inr ()
      | Some src \<Rightarrow> ebind (get_order cid s) (\<lambda>c.
          assert_fill_source src (om_tenant c) broker_id when
            (map_option binding_scope (broker_evidence_binding cid s))))"

text \<open>A fill id delivered before.\<close>

definition duplicate_fill ::
    "oms_fill \<Rightarrow> string \<Rightarrow> int \<Rightarrow> dec \<Rightarrow> string option \<Rightarrow> datetime \<Rightarrow> execution option \<Rightarrow> oms \<Rightarrow> (oms \<times> (oms_order + string)) res" where
  "duplicate_fill f cid qty price broker_id when source s =
     (if fl_order f \<noteq> cid \<or> fl_quantity f \<noteq> qty \<or> \<not> deq (fl_price f) price \<or> fl_broker f \<noteq> broker_id
         \<or> (source \<noteq> None \<and> when \<noteq> Aware (fl_at f))
      then Inl (ValueError ''fill_id_payload_mismatch'')
      else ebind (get_order cid s) (\<lambda>c. Inr (s, Inl c)))"

definition fillable :: "OrderState \<Rightarrow> bool" where
  "fillable st \<longleftrightarrow> st \<in> {SUBMITTED, SUBMISSION_UNCERTAIN, PARTIALLY_FILLED}"

definition prior_notional :: "string \<Rightarrow> oms \<Rightarrow> dec" where
  "prior_notional cid s =
     dsum (map (\<lambda>f. dmul (fl_price f) (dec_of_int (fl_quantity f))) (filter (\<lambda>f. fl_order f = cid) (fills s)))"

definition fill_members ::
    "string \<Rightarrow> int \<Rightarrow> dec \<Rightarrow> int \<Rightarrow> dec \<Rightarrow> OrderState \<Rightarrow> string option \<Rightarrow> execution option
      \<Rightarrow> (string \<times> json) list option \<Rightarrow> (string \<times> json) list" where
  "fill_members fid qty price filled average target broker source recovery =
     [(''fillId'', JStr fid), (''quantity'', JInt qty), (''price'', JStr (dec_str price)),
      (''cumulativeFilled'', JInt filled), (''averageFillPrice'', JStr (dec_str average)),
      (''state'', JStr (state_value target)), (''brokerOrderId'', opt_json JStr broker)]
     @ (case source of None \<Rightarrow> [] | Some src \<Rightarrow> [(''sourceIdentity'', JObj (map (\<lambda>(k, x). (k, JStr x)) src))])
     @ (case recovery of None \<Rightarrow> [] | Some ms \<Rightarrow> [(''paperRecovery'', JObj ms)])"

definition apply_fill ::
    "(string \<Rightarrow> string) \<Rightarrow> oms_order \<Rightarrow> string \<Rightarrow> int \<Rightarrow> dec \<Rightarrow> string option \<Rightarrow> datetime \<Rightarrow> execution option
      \<Rightarrow> (string \<times> json) list option \<Rightarrow> oms \<Rightarrow> oms res" where
  "apply_fill sha c fid qty price broker_id when source recovery s =
     (if \<not> fillable (om_state c)
        then Inl (ValueError (''fill_not_allowed_from_state:'' @ state_value (om_state c)))
      else let filled = filled_quantity c + qty in
      if requested_quantity c < filled then Inl (ValueError ''fill_exceeds_requested_quantity'')
      else
      ebind (ddiv (dadd (prior_notional (om_id c) s) (dmul price (dec_of_int qty))) (dec_of_int filled)) (\<lambda>average.
      ebind (lifecycle_transition (om_state c) (fill_target c filled)) (\<lambda>target.
      ebind (broker_identity (broker_order_id c) broker_id) (\<lambda>broker.
      ebind (utc_instant (ValueError ''fill_at_must_be_timezone_aware'') when) (\<lambda>t.
      append_event sha (om_id c) ''FILL'' when
        (fill_members fid qty price filled average target broker source recovery)
        (s\<lparr>fills := fills s @ [\<lparr>fl_id = fid, fl_order = om_id c, fl_quantity = qty, fl_price = price,
              fl_at = t, fl_broker = broker_id\<rparr>],
           orders := row_upd om_id (om_id c) (\<lambda>r. r\<lparr>om_state := target, filled_quantity := filled,
              average_fill_price := Some average, broker_order_id := broker, updated_at := t\<rparr>) (orders s)\<rparr>))))))"

text \<open>The checks before the transaction: the price, the source and the recovery proof they
  accept. \<open>outer\<close>: the caller holds an open transaction on the journal's connection.\<close>

definition fill_checks ::
    "(string \<Rightarrow> string) \<Rightarrow> bool \<Rightarrow> string \<Rightarrow> string \<Rightarrow> int \<Rightarrow> dec_lit \<Rightarrow> string option
      \<Rightarrow> execution option \<Rightarrow> json option \<Rightarrow> (dec \<times> execution option \<times> (string \<times> json) list option) res" where
  "fill_checks sha outer cid fid qty amount broker_id source_identity paper_recovery =
     ebind (check_id ''client_order_id'' cid) (\<lambda>_.
     ebind (check_id ''fill_id'' fid) (\<lambda>_.
     ebind (opt_id ''broker_order_id'' broker_id) (\<lambda>_.
     if qty \<le> 0 then Inl (ValueError ''fill_quantity_must_be_positive_integer'')
     else
     ebind (case amount of
         Finite d \<Rightarrow> if dle d dzero then Inl (ValueError ''invalid_fill_price'') else Inr d
       | NonFinite \<Rightarrow> Inl (ValueError ''invalid_fill_price'')) (\<lambda>price.
     ebind (case source_identity of
         None \<Rightarrow> Inr None
       | Some v \<Rightarrow> ebind (execution_identity v) (\<lambda>src. Inr (Some src))) (\<lambda>source.
     ebind (case paper_recovery of
         None \<Rightarrow> Inr None
       | Some j \<Rightarrow> ebind (paper_recovery_proof j) (\<lambda>ms. Inr (Some ms))) (\<lambda>recovery.
     if recovery \<noteq> None \<and> \<not> outer then Inl (ValueError ''oms_paper_recovery_outer_transaction_required'')
     else if recovery \<noteq> None \<and> (source \<noteq> None \<or> starts_with ''KITE'' fid)
       then Inl (ValueError ''oms_paper_recovery_external_fill_forbidden'')
     else if starts_with ''KITE2:'' fid \<and> source = None
       then Inl (ValueError ''external_fill_source_required'')
     else
     ebind (case source of
         None \<Rightarrow> Inr ()
       | Some src \<Rightarrow> ebind (external_fill_id sha src) (\<lambda>x.
           if x \<noteq> fid \<or> Some (execution_value src ''brokerOrderId'') \<noteq> broker_id
           then Inl (ValueError ''external_fill_identity_mismatch'') else Inr ())) (\<lambda>_.
     Inr (price, source, recovery))))))))"

definition fill_order ::
    "(string \<Rightarrow> string) \<Rightarrow> bool \<Rightarrow> string \<Rightarrow> string \<Rightarrow> int \<Rightarrow> dec_lit \<Rightarrow> string option \<Rightarrow> datetime
      \<Rightarrow> execution option \<Rightarrow> json option \<Rightarrow> oms \<Rightarrow> oms_outcome" where
  "fill_order sha outer cid fid qty amount broker_id when source_identity paper_recovery s = finish s
     (ebind (fill_checks sha outer cid fid qty amount broker_id source_identity paper_recovery)
        (\<lambda>(price, source, recovery).
      ebind (check_fill_source broker_id cid when source s) (\<lambda>_.
      case row_get fl_id fid (fills s) of
        Some f \<Rightarrow> duplicate_fill f cid qty price broker_id when source s
      | None \<Rightarrow>
          ebind (stored_order cid s) (\<lambda>c.
          ebind (apply_fill sha c fid qty price broker_id when source recovery s)
            (\<lambda>s'. Inr (s', Inr cid))))))"

end
