(* ===== verification/OmsReplay.thy ===== *)
theory OmsReplay
  imports Oms
begin

text \<open>
  Replaying the event log of an order: what \<open>verify\<close> computes when one event is appended, and
  when the rest of the journal changes around the order. \<open>order_ok\<close> is the invariant of one
  order: its log replays, and the replay agrees with its row and its fills.
\<close>

subsection \<open>Sorting and appending\<close>

lemma insort_key_snoc: "f x \<le> f e \<Longrightarrow> insort_key f x (ys @ [e]) = insort_key f x ys @ [e]"
  by (induction ys) auto

lemma sort_key_snoc: "(\<And>x. x \<in> set xs \<Longrightarrow> f x \<le> f e) \<Longrightarrow> sort_key f (xs @ [e]) = sort_key f xs @ [e]"
  by (induction xs) (auto simp: insort_key_snoc)

lemma zip_from_one_snoc:
  "zip [1..<length (es @ [e]) + 1] (es @ [e]) = zip [1..<length es + 1] es @ [(length es + 1, e)]"
proof -
  have "[1..<length (es @ [e]) + 1] = [1..<length es + 1] @ [length es + 1]"
    by (simp add: upt_Suc_append del: upt_Suc)
  then show ?thesis by (simp del: upt_Suc)
qed

lemma replay_snoc:
  "replay_events sha c v (es @ [e]) =
    ebind (replay_events sha c v es) (\<lambda>st. replay_event sha c v st (length es + 1, e))"
  unfolding replay_events_def zip_from_one_snoc foldr_res_snoc ..

lemma foldr_res_mono:
  assumes "\<And>s x s'. x \<in> set xs \<Longrightarrow> f s x = Inr s' \<Longrightarrow> g s x = Inr s'"
    and "foldr_res f s xs = Inr r"
  shows "foldr_res g s xs = Inr r"
  using assms
proof (induction xs arbitrary: s)
  case Nil
  then show ?case by simp
next
  case (Cons x xs)
  then obtain t where t: "f s x = Inr t" "foldr_res f t xs = Inr r" by (auto simp: res_simps)
  have "g s x = Inr t" using Cons.prems(1) t(1) by simp
  moreover have "foldr_res g t xs = Inr r" using Cons.IH [OF _ t(2)] Cons.prems(1) by simp
  ultimately show ?case by simp
qed

subsection \<open>Framing\<close>

text \<open>The fields of an order the replay reads: none of them is ever updated.\<close>

definition same_order :: "oms_order \<Rightarrow> oms_order \<Rightarrow> bool" where
  "same_order c d \<longleftrightarrow> om_id c = om_id d \<and> om_tenant c = om_tenant d \<and> om_strategy c = om_strategy d
     \<and> om_symbol c = om_symbol d \<and> om_market c = om_market d \<and> om_asset_class c = om_asset_class d
     \<and> om_side c = om_side d \<and> requested_quantity c = requested_quantity d
     \<and> om_reference_price c = om_reference_price d \<and> created_at c = created_at d
     \<and> instrument_identity c = instrument_identity d"

definition view_grows :: "oms_view \<Rightarrow> oms_view \<Rightarrow> bool" where
  "view_grows v w \<longleftrightarrow> (vw_binding v = None \<or> vw_binding w = vw_binding v)
     \<and> vw_recovery w = vw_recovery v \<and> vw_version w = vw_version v"

lemma order_identity_same: "same_order c d \<Longrightarrow> order_identity c = order_identity d"
  by (simp add: same_order_def order_identity_def)

lemma replay_created_frame:
  "same_order c d \<Longrightarrow> replay_created c n e ms st = replay_created d n e ms st"
proof -
  assume same: "same_order c d"
  then have eqs: "instrument_identity d = instrument_identity c" "created_at d = created_at c"
    by (simp_all add: same_order_def)
  show ?thesis
    unfolding replay_created_def check_full_intent_def eqs order_identity_same [OF same] ..
qed

lemma replay_fill_frame:
  assumes "same_order c d" "vw_recovery w = vw_recovery v" "vw_version w = vw_version v"
  shows "replay_fill sha c v e ms st = replay_fill sha d w e ms st"
proof -
  have eqs: "om_id d = om_id c" "om_tenant d = om_tenant c"
    using assms(1) by (simp_all add: same_order_def)
  have recovery: "check_recovery sha c v e f ms = check_recovery sha d w e f ms" for f
    unfolding check_recovery_def eqs assms(2,3) ..
  have source: "check_source sha c st e b f ms = check_source sha d st e b f ms" for b f
    unfolding check_source_def eqs ..
  have quantity: "fill_target c = fill_target d" "requested_quantity c = requested_quantity d"
    using assms(1) by (auto simp: same_order_def fill_target_def)
  show ?thesis unfolding replay_fill_def recovery source quantity ..
qed

lemma replay_binding_frame:
  assumes "vw_binding v = None \<or> vw_binding w = vw_binding v" "replay_binding v ms st = Inr st'"
  shows "replay_binding w ms st = Inr st'"
  using assms by (auto simp: replay_binding_def split: if_splits option.splits)

lemma replay_kind_frame:
  assumes "same_order c d" "view_grows v w"
    and "ev_kind e = ''REPLACED_BY'' \<longrightarrow> vw_replacement w = vw_replacement v"
    and "replay_kind sha c v n e ms st = Inr st'"
  shows "replay_kind sha d w n e ms st = Inr st'"
proof -
  have v: "vw_binding v = None \<or> vw_binding w = vw_binding v" "vw_recovery w = vw_recovery v"
    "vw_version w = vw_version v" using assms(2) by (simp_all add: view_grows_def)
  have "replay_replaced v ms st = replay_replaced w ms st" if "ev_kind e = ''REPLACED_BY''"
  proof -
    have "vw_replacement w = vw_replacement v" using assms(3) that by blast
    then show ?thesis unfolding replay_replaced_def by (simp only:)
  qed
  then show ?thesis
    using assms(4) replay_created_frame [OF assms(1)] replay_fill_frame [OF assms(1) v(2,3)]
      replay_binding_frame [OF v(1)]
    by (auto simp: replay_kind_def split: if_splits)
qed

lemma replay_event_frame:
  assumes "same_order c d" "view_grows v w"
    and "ev_kind (snd ne) = ''REPLACED_BY'' \<longrightarrow> vw_replacement w = vw_replacement v"
    and "replay_event sha c v st ne = Inr st'"
  shows "replay_event sha d w st ne = Inr st'"
proof -
  have "om_id c = om_id d" using assms(1) by (simp add: same_order_def)
  then show ?thesis
    using assms(4) replay_kind_frame [OF assms(1,2,3)]
    by (auto simp: replay_event_def Let_def split: if_splits option.splits json.splits)
qed

lemma replay_events_frame:
  assumes "same_order c d" "view_grows v w"
    and "(\<exists>e \<in> set es. ev_kind e = ''REPLACED_BY'') \<longrightarrow> vw_replacement w = vw_replacement v"
    and "replay_events sha c v es = Inr rp"
  shows "replay_events sha d w es = Inr rp"
  using assms(4) unfolding replay_events_def
proof (rule foldr_res_mono [rotated])
  fix st ne st'
  assume "ne \<in> set (zip [1..<length es + 1] es)" and "replay_event sha c v st ne = Inr st'"
  moreover from calculation have "snd ne \<in> set es"
    by (metis prod.collapse set_zip_rightD)
  ultimately show "replay_event sha d w st ne = Inr st'"
    using assms(3) by (blast intro: replay_event_frame [OF assms(1,2)])
qed

subsection \<open>An event just written\<close>

definition new_event ::
    "(string \<Rightarrow> string) \<Rightarrow> string \<Rightarrow> nat \<Rightarrow> string \<Rightarrow> instant \<Rightarrow> string option \<Rightarrow> (string \<times> json) list \<Rightarrow> oms_event" where
  "new_event sha cid n kind t prev p =
     \<lparr>ev_order = cid, ev_sequence = n, ev_kind = kind, ev_at = t, previous_hash = prev,
      event_hash = oms_hash sha (event_body cid n kind t prev (JObj p)), ev_payload = dumps (JObj p)\<rparr>"

lemma event_hash_canon:
  "oms_hash sha (event_body cid n kind t prev (JObj (canon_members p))) = oms_hash sha (event_body cid n kind t prev (JObj p))"
proof -
  have "dumps (event_body cid n kind t prev (JObj (canon_members p))) = dumps (event_body cid n kind t prev (JObj p))"
    by (simp add: event_body_def canon_members_def [of "[(''clientOrderId'', _), _, _, _, _, _]"])
  then show ?thesis unfolding oms_hash_def by (rule arg_cong)
qed

lemma replay_new_event:
  assumes "om_id c = cid" "rp_previous rp = prev"
  shows "replay_event sha c v rp (n, new_event sha cid n kind t prev p) =
    replay_kind sha c v n (new_event sha cid n kind t prev p) (canon_members p)
      (rp\<lparr>rp_previous := Some (event_hash (new_event sha cid n kind t prev p))\<rparr>)"
  using assms
  by (simp add: replay_event_def new_event_def loads_dumps event_hash_canon)

subsection \<open>The invariant of one order\<close>

definition row_ok :: "oms_order \<Rightarrow> bool" where
  "row_ok c \<longleftrightarrow> id_match 128 (om_id c) \<and> instrument_identity c = None \<and> dpos (om_reference_price c)
     \<and> 0 < requested_quantity c \<and> 0 \<le> filled_quantity c \<and> filled_quantity c \<le> requested_quantity c
     \<and> (om_state c = FILLED \<longleftrightarrow> filled_quantity c = requested_quantity c)
     \<and> broker_order_id c \<noteq> Some []"

definition state_agrees :: "oms_order \<Rightarrow> oms_view \<Rightarrow> oms_event list \<Rightarrow> replay \<Rightarrow> bool" where
  "state_agrees c v es rp \<longleftrightarrow> es \<noteq> [] \<and> ev_kind (hd es) = ''CREATED'' \<and> length es = last_event_sequence c
     \<and> rp_previous rp = head_hash es \<and> vw_binding v = rp_evidence rp
     \<and> rp_state rp = om_state c \<and> rp_broker rp = broker_order_id c
     \<and> ((\<exists>e \<in> set es. ev_kind e = ''REPLACED_BY'') \<longrightarrow> vw_replacement v \<noteq> None)
     \<and> (vw_replacement v \<noteq> None \<longrightarrow> om_state c = CANCELLED)"

definition fill_entry :: "string \<times> int \<times> dec \<times> instant \<times> string option \<Rightarrow> oms_fill \<Rightarrow> bool" where
  "fill_entry x f = (case x of (fid, qty, price, t, broker) \<Rightarrow>
     fid = fl_id f \<and> qty = fl_quantity f \<and> price = fl_price f \<and> t = fl_at f
     \<and> (fl_broker f = None \<or> fl_broker f = broker))"

definition fill_notional :: "oms_fill \<Rightarrow> dec" where
  "fill_notional f = dmul (fl_price f) (dec_of_int (fl_quantity f))"

definition average_agrees :: "oms_order \<Rightarrow> dec \<Rightarrow> bool" where
  "average_agrees c weighted \<longleftrightarrow>
     (if filled_quantity c = 0 then average_fill_price c = None
      else \<exists>a. average_fill_price c = Some a \<and> dpos a \<and> ddiv weighted (dec_of_int (filled_quantity c)) = Inr a)"

definition fills_agree :: "oms_order \<Rightarrow> oms_view \<Rightarrow> replay \<Rightarrow> bool" where
  "fills_agree c v rp \<longleftrightarrow> rp_total rp = filled_quantity c
     \<and> filled_quantity c = sum_list (map fl_quantity (vw_fills v))
     \<and> rp_weighted rp = dsum (map fill_notional (vw_fills v))
     \<and> list_all2 fill_entry (rp_fills rp) (vw_fills v) \<and> distinct (map fl_id (vw_fills v))
     \<and> list_all (\<lambda>f. 0 < fl_quantity f \<and> dpos (fl_price f)) (vw_fills v)
     \<and> average_agrees c (rp_weighted rp)"

definition order_ok :: "(string \<Rightarrow> string) \<Rightarrow> oms_order \<Rightarrow> oms_view \<Rightarrow> oms_event list \<Rightarrow> bool" where
  "order_ok sha c v es \<longleftrightarrow> row_ok c
     \<and> (\<exists>rp. replay_events sha c v es = Inr rp \<and> state_agrees c v es rp \<and> fills_agree c v rp)"

lemma fill_entries_ids: "list_all2 fill_entry xs fs \<Longrightarrow> map fst xs = map fl_id fs"
  by (induction xs fs rule: list_all2_induct) (auto simp: fill_entry_def split: prod.splits)

lemma fill_entries_match:
  assumes "list_all2 fill_entry xs fs" "distinct (map fl_id fs)"
  shows "list_all (fill_matches xs) fs"
proof -
  have d: "distinct (map fst xs)" using assms fill_entries_ids by metis
  have "fill_matches xs f" if "f \<in> set fs" for f
  proof -
    from assms(1) that obtain x where x: "x \<in> set xs" "fill_entry x f"
      by (metis in_set_conv_nth list_all2_conv_all_nth)
    obtain fid qty price t b where fields: "x = (fid, qty, price, t, b)" by (cases x) auto
    with x(1) d have "map_of xs fid = Some (qty, price, t, b)" by simp
    with x(2) fields show ?thesis by (auto simp: fill_matches_def fill_entry_def)
  qed
  then show ?thesis by (simp add: list_all_iff)
qed

lemma decode_cash: "instrument_identity r = None \<Longrightarrow> decode_row r =
    (if \<not> dpos (om_reference_price r) then Inl (ValueError ''invalid_reference_price'')
     else if (case average_fill_price r of None \<Rightarrow> False | Some a \<Rightarrow> \<not> dpos a)
       then Inl (ValueError ''invalid_average_fill_price'') else Inr r)"
  by (simp add: decode_row_def stored_identity_def)

lemma decode_ok:
  assumes "row_ok c" "average_agrees c w"
  shows "decode_row c = Inr c"
  using assms by (auto simp: decode_cash row_ok_def average_agrees_def split: option.splits if_splits)

lemma projection_ok:
  assumes "row_ok c" "state_agrees c v es rp" "fills_agree c v rp"
  shows "check_projection c v (length es) rp = Inr ()"
proof -
  have total: "rp_total rp = filled_quantity c" using assms(3) by (simp add: fills_agree_def)
  obtain a where average: "projection_average rp = Inr a" "opt_deq a (average_fill_price c)"
    using assms(3) total
    by (auto simp: fills_agree_def average_agrees_def projection_average_def opt_deq_def split: if_splits)
  have "list_all (fill_matches (rp_fills rp)) (vw_fills v)"
    using assms(3) by (auto simp: fills_agree_def intro: fill_entries_match)
  moreover have "fl_id ` set (vw_fills v) = fst ` set (rp_fills rp)"
  proof -
    have "map fl_id (vw_fills v) = map fst (rp_fills rp)"
      using fill_entries_ids [of "rp_fills rp" "vw_fills v"] assms(3) by (simp add: fills_agree_def)
    from arg_cong [OF this, of set] show ?thesis by simp
  qed
  moreover have "rp_state rp = FILLED \<longrightarrow> rp_total rp = requested_quantity c"
    using assms(1,2) total by (simp add: row_ok_def state_agrees_def)
  moreover have "length es = last_event_sequence c" "vw_binding v = rp_evidence rp"
      "rp_state rp = om_state c" "rp_broker rp = broker_order_id c"
    using assms(2) by (simp_all add: state_agrees_def)
  ultimately show ?thesis
    using total average by (simp add: check_projection_def)
qed

lemma order_ok_verifies:
  assumes "order_ok sha c v es"
  shows "verify_order sha c v es = Inr \<lparr>rep_order = om_id c, rep_state = om_state c, rep_events = last_event_sequence c,
      rep_filled = filled_quantity c, rep_pending = pending_quantity c, rep_head = head_hash es\<rparr>"
proof -
  from assms obtain rp where rp: "row_ok c" "replay_events sha c v es = Inr rp" "state_agrees c v es rp"
    "fills_agree c v rp" by (auto simp: order_ok_def)
  then show ?thesis
    using projection_ok [OF rp(1,3,4)]
    by (auto simp: verify_order_def state_agrees_def fills_agree_def)
qed

end
