(* ===== verification/OmsInv.thy ===== *)
theory OmsInv
  imports OmsReplay
begin

text \<open>
  Every operation of the journal appends one event to the log of the order it changes (a
  replacement to the logs of two orders). This theory shows, event kind by event kind, that the
  invariant \<open>order_ok\<close> of that order is kept.
\<close>

lemma order_ok_append:
  assumes "replay_events sha c v es = Inr rp" "same_order c d" "view_grows v w"
    and "(\<exists>e \<in> set es. ev_kind e = ''REPLACED_BY'') \<longrightarrow> vw_replacement w = vw_replacement v"
    and "rp_previous rp = head_hash es"
    and "ev = new_event sha (om_id d) (length es + 1) kind t (head_hash es) p"
    and "replay_kind sha d w (length es + 1) ev (canon_members p) (rp\<lparr>rp_previous := Some (event_hash ev)\<rparr>) = Inr rp'"
    and "row_ok d" "state_agrees d w (es @ [ev]) rp'" "fills_agree d w rp'"
  shows "order_ok sha d w (es @ [ev])"
proof -
  have "replay_events sha d w es = Inr rp"
    using replay_events_frame [OF assms(2,3,4,1)] .
  then have "replay_events sha d w (es @ [ev]) = Inr rp'"
    using replay_new_event [of d "om_id d" rp "head_hash es" sha w "length es + 1" kind t p] assms(5,6,7)
    by (simp add: replay_snoc)
  with assms(8-10) show ?thesis by (auto simp: order_ok_def)
qed

lemma order_okE:
  assumes "order_ok sha c v es"
  obtains rp where "row_ok c" "replay_events sha c v es = Inr rp" "state_agrees c v es rp" "fills_agree c v rp"
  using assms by (auto simp: order_ok_def)

lemma broker_identity_again:
  assumes "broker_identity x y = Inr z" "x \<noteq> Some []" "y \<noteq> Some []"
  shows "broker_identity x z = Inr z" "z \<noteq> Some []" "y \<noteq> None \<Longrightarrow> z = y"
  using assms by (auto simp: broker_identity_def split: if_splits)

lemma broker_field_opt: "jget ''brokerOrderId'' ms = Some (opt_json JStr b) \<Longrightarrow> broker_field ms = Inr b"
  by (cases b) (simp_all add: broker_field_def opt_json_def)

text \<open>The update of an order's row that each event comes with.\<close>

definition bump :: "oms_order \<Rightarrow> oms_order" where
  "bump c = c\<lparr>last_event_sequence := last_event_sequence c + 1\<rparr>"

lemma state_agrees_append:
  assumes "state_agrees c v es rp"
    and "last_event_sequence d = last_event_sequence c + 1"
    and "vw_binding w = rp_evidence rp'" "rp_state rp' = om_state d" "rp_broker rp' = broker_order_id d"
    and "rp_previous rp' = Some (event_hash ev)"
    and "(\<exists>e \<in> set (es @ [ev]). ev_kind e = ''REPLACED_BY'') \<longrightarrow> vw_replacement w \<noteq> None"
    and "vw_replacement w \<noteq> None \<longrightarrow> om_state d = CANCELLED"
  shows "state_agrees d w (es @ [ev]) rp'"
  using assms by (auto simp: state_agrees_def head_hash_def)

lemma fills_agree_unchanged:
  assumes "fills_agree c v rp" "vw_fills w = vw_fills v" "filled_quantity d = filled_quantity c"
    and "average_fill_price d = average_fill_price c"
    and "rp_total rp' = rp_total rp" "rp_weighted rp' = rp_weighted rp" "rp_fills rp' = rp_fills rp"
  shows "fills_agree d w rp'"
proof -
  have average: "average_agrees d (rp_weighted rp) = average_agrees c (rp_weighted rp)"
    by (simp add: average_agrees_def assms(3,4))
  show ?thesis
    unfolding fills_agree_def assms(2,3,5,6,7) average
    using assms(1) unfolding fills_agree_def .
qed

subsection \<open>Transitions\<close>

definition plain_target :: "OrderState \<Rightarrow> bool" where
  "plain_target s \<longleftrightarrow> s \<notin> {CREATED, PARTIALLY_FILLED, FILLED}"

definition transition_members :: "OrderState \<Rightarrow> OrderState \<Rightarrow> string \<Rightarrow> string option \<Rightarrow> (string \<times> json) list" where
  "transition_members s target reason broker =
     [(''from'', JStr (state_value s)), (''to'', JStr (state_value target)),
      (''reason'', clean_reason reason), (''brokerOrderId'', opt_json JStr broker)]"

lemma transition_jget:
  "jget ''from'' (canon_members (transition_members s u r b)) = Some (JStr (state_value s))"
  "jget ''to'' (canon_members (transition_members s u r b)) = Some (JStr (state_value u))"
  "jget ''brokerOrderId'' (canon_members (transition_members s u r b)) = Some (opt_json JStr b)"
  by (simp_all add: jget_canon_members transition_members_def)

lemma state_value_kind: "state_value u = ''CREATED'' \<longleftrightarrow> u = CREATED" "state_value u \<noteq> ''FILL''"
  "state_value u \<noteq> ''BROKER_EVIDENCE_BOUND''" "state_value u \<noteq> ''BROKER_ID_OBSERVED''"
  "state_value u \<noteq> ''REPLACED_BY''"
  by (cases u; simp add: state_value_def)+

lemma order_ok_transition:
  assumes ok: "order_ok sha c v es" and allowed: "allowed (om_state c) target" and target: "plain_target target"
    and broker: "broker_identity (broker_order_id c) b = Inr broker" "b \<noteq> Some []"
    and d: "d = bump (c\<lparr>om_state := target, broker_order_id := broker, updated_at := t\<rparr>)"
    and ev: "ev = new_event sha (om_id c) (last_event_sequence c + 1) (state_value target) t (head_hash es)
               (transition_members (om_state c) target reason broker)"
  shows "order_ok sha d v (es @ [ev])"
proof -
  from ok obtain rp where rp: "row_ok c" "replay_events sha c v es = Inr rp" "state_agrees c v es rp"
    "fills_agree c v rp" by (rule order_okE)
  have c0: "broker_order_id c \<noteq> Some []" using rp(1) by (simp add: row_ok_def)
  note again = broker_identity_again [OF broker(1) c0 broker(2)]
  have len: "length es = last_event_sequence c" "rp_state rp = om_state c" "rp_broker rp = broker_order_id c"
    "rp_previous rp = head_hash es" using rp(3) by (simp_all add: state_agrees_def)
  let ?rp = "rp\<lparr>rp_previous := Some (event_hash ev), rp_state := target, rp_broker := broker\<rparr>"
  have kind: "ev_kind ev = state_value target" by (simp add: ev new_event_def)
  have k: "replay_kind sha d v (length es + 1) ev
      (canon_members (transition_members (om_state c) target reason broker))
      (rp\<lparr>rp_previous := Some (event_hash ev)\<rparr>) = Inr ?rp"
    using target allowed len again(1)
    by (simp add: replay_kind_def kind state_value_kind plain_target_def replay_transition_def transition_jget
        broker_field_opt lifecycle_transition_def)
  have open_state: "om_state c \<noteq> CANCELLED" "om_state c \<noteq> FILLED"
    using allowed by (auto simp: allowed_def)
  have repl: "vw_replacement v = None" using rp(3) open_state by (auto simp: state_agrees_def)
  have norepl: "\<not> (\<exists>e \<in> set es. ev_kind e = ''REPLACED_BY'')" using rp(3) repl by (auto simp: state_agrees_def)
  show ?thesis
  proof (rule order_ok_append [OF rp(2) _ _ _ len(4) _ k])
    show "same_order c d" by (simp add: d bump_def same_order_def)
    show "view_grows v v" by (simp add: view_grows_def)
    show "(\<exists>e \<in> set es. ev_kind e = ''REPLACED_BY'') \<longrightarrow> vw_replacement v = vw_replacement v" by simp
    show "ev = new_event sha (om_id d) (length es + 1) (state_value target) t (head_hash es)
        (transition_members (om_state c) target reason broker)"
      by (simp add: ev d bump_def len(1))
    show "row_ok d" using rp(1) again(2) target open_state
      by (auto simp: row_ok_def d bump_def plain_target_def)
    show "state_agrees d v (es @ [ev]) ?rp"
      using rp(3) norepl by (intro state_agrees_append [OF rp(3)])
        (auto simp: d bump_def repl kind state_value_kind state_agrees_def)
    show "fills_agree d v ?rp"
      by (rule fills_agree_unchanged [OF rp(4)]) (simp_all add: d bump_def)
  qed
qed

subsection \<open>Broker identity and evidence\<close>

definition observed_members :: "string option \<Rightarrow> string \<Rightarrow> OrderState \<Rightarrow> (string \<times> json) list" where
  "observed_members broker reason s =
     [(''brokerOrderId'', opt_json JStr broker), (''reason'', JStr (strip reason)),
      (''state'', JStr (state_value s))]"

lemma observed_jget:
  "jget ''state'' (canon_members (observed_members b r s)) = Some (JStr (state_value s))"
  "jget ''brokerOrderId'' (canon_members (observed_members b r s)) = Some (opt_json JStr b)"
  by (simp_all add: jget_canon_members observed_members_def)

lemma order_ok_observed:
  assumes ok: "order_ok sha c v es"
    and broker: "broker_identity (broker_order_id c) b = Inr broker" "b \<noteq> Some []"
    and d: "d = bump (c\<lparr>broker_order_id := broker, updated_at := t\<rparr>)"
    and ev: "ev = new_event sha (om_id c) (last_event_sequence c + 1) ''BROKER_ID_OBSERVED'' t (head_hash es)
               (observed_members broker reason (om_state c))"
  shows "order_ok sha d v (es @ [ev])"
proof -
  from ok obtain rp where rp: "row_ok c" "replay_events sha c v es = Inr rp" "state_agrees c v es rp"
    "fills_agree c v rp" by (rule order_okE)
  have c0: "broker_order_id c \<noteq> Some []" using rp(1) by (simp add: row_ok_def)
  note again = broker_identity_again [OF broker(1) c0 broker(2)]
  have len: "length es = last_event_sequence c" "rp_state rp = om_state c" "rp_broker rp = broker_order_id c"
    "rp_previous rp = head_hash es" using rp(3) by (simp_all add: state_agrees_def)
  let ?rp = "rp\<lparr>rp_previous := Some (event_hash ev), rp_broker := broker\<rparr>"
  have kind: "ev_kind ev = ''BROKER_ID_OBSERVED''" by (simp add: ev new_event_def)
  have k: "replay_kind sha d v (length es + 1) ev (canon_members (observed_members broker reason (om_state c)))
      (rp\<lparr>rp_previous := Some (event_hash ev)\<rparr>) = Inr ?rp"
    using len again(1)
    by (simp add: replay_kind_def kind replay_broker_observed_def observed_jget broker_field_opt)
  show ?thesis
  proof (rule order_ok_append [OF rp(2) _ _ _ len(4) _ k])
    show "same_order c d" by (simp add: d bump_def same_order_def)
    show "view_grows v v" by (simp add: view_grows_def)
    show "(\<exists>e \<in> set es. ev_kind e = ''REPLACED_BY'') \<longrightarrow> vw_replacement v = vw_replacement v" by simp
    show "ev = new_event sha (om_id d) (length es + 1) ''BROKER_ID_OBSERVED'' t (head_hash es)
        (observed_members broker reason (om_state c))"
      by (simp add: ev d bump_def len(1))
    show "row_ok d" using rp(1) again(2) by (simp add: row_ok_def d bump_def)
    show "state_agrees d v (es @ [ev]) ?rp"
      using rp(3) by (intro state_agrees_append [OF rp(3)]) (auto simp: d bump_def kind state_agrees_def)
    show "fills_agree d v ?rp"
      by (rule fills_agree_unchanged [OF rp(4)]) (simp_all add: d bump_def)
  qed
qed

lemma binding_dict: "dict_eq (canon_members (binding_members b)) (binding_members b)"
proof -
  have "jget k (canon_members (binding_members b)) = jget k (binding_members b)" for k
    by (rule canon_members_flat) (auto simp: binding_members_def)
  then show ?thesis by (simp add: dict_eq_def list_all_iff)
qed

lemma order_ok_binding:
  assumes ok: "order_ok sha c v es" and state: "om_state c \<noteq> CREATED"
    and none: "vw_binding v = None" and w: "w = v\<lparr>vw_binding := Some b\<rparr>"
    and d: "d = bump c"
    and ev: "ev = new_event sha (om_id c) (last_event_sequence c + 1) ''BROKER_EVIDENCE_BOUND'' t (head_hash es)
               (binding_members b)"
  shows "order_ok sha d w (es @ [ev])"
proof -
  from ok obtain rp where rp: "row_ok c" "replay_events sha c v es = Inr rp" "state_agrees c v es rp"
    "fills_agree c v rp" by (rule order_okE)
  have len: "length es = last_event_sequence c" "rp_state rp = om_state c" "rp_broker rp = broker_order_id c"
    "rp_previous rp = head_hash es" "rp_evidence rp = None"
    using rp(3) none by (simp_all add: state_agrees_def)
  let ?rp = "rp\<lparr>rp_previous := Some (event_hash ev), rp_evidence := Some b\<rparr>"
  have kind: "ev_kind ev = ''BROKER_EVIDENCE_BOUND''" by (simp add: ev new_event_def)
  have k: "replay_kind sha d w (length es + 1) ev (canon_members (binding_members b))
      (rp\<lparr>rp_previous := Some (event_hash ev)\<rparr>) = Inr ?rp"
    using len state by (simp add: replay_kind_def kind replay_binding_def w binding_dict)
  show ?thesis
  proof (rule order_ok_append [OF rp(2) _ _ _ len(4) _ k])
    show "same_order c d" by (simp add: d bump_def same_order_def)
    show "view_grows v w" by (simp add: view_grows_def w none)
    show "(\<exists>e \<in> set es. ev_kind e = ''REPLACED_BY'') \<longrightarrow> vw_replacement w = vw_replacement v" by (simp add: w)
    show "ev = new_event sha (om_id d) (length es + 1) ''BROKER_EVIDENCE_BOUND'' t (head_hash es) (binding_members b)"
      by (simp add: ev d bump_def len(1))
    show "row_ok d" using rp(1) by (simp add: row_ok_def d bump_def)
    show "state_agrees d w (es @ [ev]) ?rp"
      using rp(3) by (intro state_agrees_append [OF rp(3)]) (auto simp: d w bump_def kind state_agrees_def)
    show "fills_agree d w ?rp"
      by (rule fills_agree_unchanged [OF rp(4)]) (simp_all add: d w bump_def)
  qed
qed

subsection \<open>Replacement\<close>

definition replaced_members :: "string \<Rightarrow> string \<Rightarrow> (string \<times> json) list" where
  "replaced_members rid reason =
     [(''replacementClientOrderId'', JStr rid), (''reason'', JStr (strip reason))]"

lemma order_ok_replaced:
  assumes ok: "order_ok sha c v es" and state: "om_state c = CANCELLED"
    and none: "vw_replacement v = None" and w: "w = v\<lparr>vw_replacement := Some rid\<rparr>"
    and d: "d = bump c"
    and ev: "ev = new_event sha (om_id c) (last_event_sequence c + 1) ''REPLACED_BY'' t (head_hash es)
               (replaced_members rid reason)"
  shows "order_ok sha d w (es @ [ev])"
proof -
  from ok obtain rp where rp: "row_ok c" "replay_events sha c v es = Inr rp" "state_agrees c v es rp"
    "fills_agree c v rp" by (rule order_okE)
  have len: "length es = last_event_sequence c" "rp_state rp = om_state c" "rp_broker rp = broker_order_id c"
    "rp_previous rp = head_hash es" using rp(3) none by (simp_all add: state_agrees_def)
  have norepl: "\<not> (\<exists>e \<in> set es. ev_kind e = ''REPLACED_BY'')" using rp(3) none by (auto simp: state_agrees_def)
  let ?rp = "rp\<lparr>rp_previous := Some (event_hash ev)\<rparr>"
  have kind: "ev_kind ev = ''REPLACED_BY''" by (simp add: ev new_event_def)
  have "jget ''replacementClientOrderId'' (canon_members (replaced_members rid reason)) = Some (JStr rid)"
    by (simp add: jget_canon_members replaced_members_def)
  then have k: "replay_kind sha d w (length es + 1) ev (canon_members (replaced_members rid reason))
      (rp\<lparr>rp_previous := Some (event_hash ev)\<rparr>) = Inr ?rp"
    using len state by (simp add: replay_kind_def kind replay_replaced_def w opt_json_def)
  show ?thesis
  proof (rule order_ok_append [OF rp(2) _ _ _ len(4) _ k])
    show "same_order c d" by (simp add: d bump_def same_order_def)
    show "view_grows v w" by (simp add: view_grows_def w)
    show "(\<exists>e \<in> set es. ev_kind e = ''REPLACED_BY'') \<longrightarrow> vw_replacement w = vw_replacement v"
      using norepl by blast
    show "ev = new_event sha (om_id d) (length es + 1) ''REPLACED_BY'' t (head_hash es) (replaced_members rid reason)"
      by (simp add: ev d bump_def len(1))
    show "row_ok d" using rp(1) by (simp add: row_ok_def d bump_def)
    show "state_agrees d w (es @ [ev]) ?rp"
      using rp(3) by (intro state_agrees_append [OF rp(3)]) (auto simp: d w bump_def kind state state_agrees_def)
    show "fills_agree d w ?rp"
      by (rule fills_agree_unchanged [OF rp(4)]) (simp_all add: d w bump_def)
  qed
qed

subsection \<open>Fills\<close>

lemma str_members_map: "str_members (map (\<lambda>(k, x). (k, JStr x)) xs) = Some xs"
proof -
  have "map (\<lambda>(k, v). (k, case v of JStr s \<Rightarrow> s | _ \<Rightarrow> [])) (map (\<lambda>(k, x). (k, JStr x)) xs) = xs"
    by (induction xs) auto
  moreover have "list_all (\<lambda>(k, v). case v of JStr _ \<Rightarrow> True | _ \<Rightarrow> False) (map (\<lambda>(k, x). (k, JStr x)) xs)"
    by (induction xs) auto
  ultimately show ?thesis unfolding str_members_def by presburger
qed

text \<open>An execution mapping read back from the log: the same mapping in key order.\<close>

lemma execution_sorted:
  assumes "distinct (map fst (src :: execution))"
  shows "execution_value (sort_key fst src) = execution_value src"
    "execution_identity src = Inr src \<Longrightarrow> execution_identity (sort_key fst src) = Inr (sort_key fst src)"
    "external_fill_id sha src = Inr i \<Longrightarrow> external_fill_id sha (sort_key fst src) = Inr i"
proof -
  show same: "execution_value (sort_key fst src) = execution_value src"
    by (simp add: execution_value_def fun_eq_iff map_of_sort_key [OF assms])
  show ident: "execution_identity (sort_key fst src) = Inr (sort_key fst src)" if "execution_identity src = Inr src"
    using that unfolding execution_identity_def same
    by (auto simp: list_ex_iff split: if_splits option.splits)
  show "external_fill_id sha (sort_key fst src) = Inr i" if fill_id: "external_fill_id sha src = Inr i"
  proof -
    have valid: "execution_identity src = Inr src"
      using fill_id by (auto simp: external_fill_id_def res_simps dest: execution_identity_Inr)
    have "sort_key fst (sort_key fst src) = sort_key fst src" by (simp add: sort_key_sorted)
    then have text_eq: "dumps (JObj (map (\<lambda>(k, x). (k, JStr x)) (sort_key fst src))) = dumps (JObj (map (\<lambda>(k, x). (k, JStr x)) src))"
      by (simp add: execution_canon)
    from fill_id show ?thesis
      unfolding external_fill_id_def valid ident [OF valid] ebind_Inr text_eq .
  qed
qed

definition source_ok ::
    "(string \<Rightarrow> string) \<Rightarrow> oms_order \<Rightarrow> oms_view \<Rightarrow> string \<Rightarrow> instant \<Rightarrow> string option \<Rightarrow> execution option \<Rightarrow> bool" where
  "source_ok sha c v fid t b source =
     (case source of
        None \<Rightarrow> \<not> starts_with ''KITE2:'' fid
      | Some src \<Rightarrow> execution_identity src = Inr src \<and> distinct (map fst src)
          \<and> external_fill_id sha src = Inr fid \<and> Some (execution_value src ''brokerOrderId'') = b
          \<and> assert_fill_source src (om_tenant c) b (Aware t) (map_option binding_scope (vw_binding v)) = Inr ())"

lemma assert_fill_source_tenant:
  "assert_fill_source src tenant b t x = Inr () \<Longrightarrow> execution_value src ''tenantId'' = tenant"
  by (auto simp: assert_fill_source_def res_simps split: if_splits)

lemma check_source_ok:
  assumes "source_ok sha c v fid t b source" "rp_evidence rp = vw_binding v" "ev_at ev = t"
    and "b \<noteq> None \<Longrightarrow> broker = b"
    and "jget ''sourceIdentity'' ms = (case source of None \<Rightarrow> None
           | Some src \<Rightarrow> Some (JObj (map (\<lambda>(k, x). (k, JStr x)) (sort_key fst src))))"
  shows "check_source sha c rp ev broker fid ms = Inr ()"
proof (cases source)
  case None
  with assms show ?thesis by (simp add: check_source_def source_ok_def)
next
  case (Some src)
  with assms(1) have src: "execution_identity src = Inr src" "distinct (map fst src)"
    "external_fill_id sha src = Inr fid" "Some (execution_value src ''brokerOrderId'') = b"
    "assert_fill_source src (om_tenant c) b (Aware t) (map_option binding_scope (vw_binding v)) = Inr ()"
    by (simp_all add: source_ok_def)
  note sorted = execution_sorted [OF src(2)]
  have "broker = b" using assms(4) src(4) by auto
  moreover have "assert_fill_source (sort_key fst src) (om_tenant c) b (Aware t) (map_option binding_scope (vw_binding v)) = Inr ()"
    using src(5) unfolding assert_fill_source_def sorted(1) .
  moreover have "jget ''sourceIdentity'' ms = Some (JObj (map (\<lambda>(k, x). (k, JStr x)) (sort_key fst src)))"
    using assms(5) Some by simp
  ultimately show ?thesis
    using assms(2,3) sorted(2) [OF src(1)] sorted(3) [OF src(3)] src(4) assert_fill_source_tenant [OF src(5)]
    by (simp add: check_source_def str_members_map sorted(1))
qed

lemma dsum_snoc: "dsum (xs @ [x]) = dadd (dsum xs) x"
  by (simp add: dsum_def)

lemma notional_pos: "0 < fl_quantity f \<Longrightarrow> dpos (fl_price f) \<Longrightarrow> 0 < dval (fill_notional f)"
  by (simp add: fill_notional_def dmul_pos dval_pos)

lemma dsum_notional_nonneg:
  "list_all (\<lambda>f. 0 < fl_quantity f \<and> dpos (fl_price f)) fs \<Longrightarrow> 0 \<le> dval (dsum (map fill_notional fs))"
proof (induction fs rule: rev_induct)
  case Nil
  then show ?case by (simp add: dsum_def)
next
  case (snoc f fs)
  then have "0 < dval (dsum (map fill_notional fs)) + dval (fill_notional f)"
    using notional_pos [of f] by simp
  then show ?case by (simp add: dsum_snoc dadd_sign less_imp_le)
qed

lemma fill_jget:
  "jget ''quantity'' (canon_members (fill_members fid qty price n avg u b source None)) = Some (JInt qty)"
  "jget ''price'' (canon_members (fill_members fid qty price n avg u b source None)) = Some (JStr (dec_str price))"
  "jget ''cumulativeFilled'' (canon_members (fill_members fid qty price n avg u b source None)) = Some (JInt n)"
  "jget ''state'' (canon_members (fill_members fid qty price n avg u b source None)) = Some (JStr (state_value u))"
  "jget ''averageFillPrice'' (canon_members (fill_members fid qty price n avg u b source None)) = Some (JStr (dec_str avg))"
  "jget ''brokerOrderId'' (canon_members (fill_members fid qty price n avg u b source None)) = Some (opt_json JStr b)"
  "jget ''fillId'' (canon_members (fill_members fid qty price n avg u b source None)) = Some (JStr fid)"
  "jget ''paperRecovery'' (canon_members (fill_members fid qty price n avg u b source None)) = None"
  "jget ''sourceIdentity'' (canon_members (fill_members fid qty price n avg u b source None)) =
     (case source of None \<Rightarrow> None
      | Some src \<Rightarrow> Some (JObj (map (\<lambda>(k, x). (k, JStr x)) (sort_key fst src))))"
  by (cases source; simp add: jget_canon_members fill_members_def execution_canon)+

lemma decimal_field_text: "(positive \<Longrightarrow> dpos d) \<Longrightarrow> decimal_field name positive (Some (JStr (dec_str d))) = Inr d"
  by (auto simp: decimal_field_def dec_of_str_dec_str dec_order)

definition fill_row :: "string \<Rightarrow> string \<Rightarrow> int \<Rightarrow> dec \<Rightarrow> instant \<Rightarrow> string option \<Rightarrow> oms_fill" where
  "fill_row cid fid qty price t b = \<lparr>fl_id = fid, fl_order = cid, fl_quantity = qty, fl_price = price,
     fl_at = t, fl_broker = b\<rparr>"

lemma fills_agree_fill:
  assumes agree: "fills_agree c v rp" and new: "fid \<notin> fl_id ` set (vw_fills v)"
    and qty: "0 < qty" and price: "dpos price" and b: "b \<noteq> None \<Longrightarrow> broker = b"
    and average: "ddiv (dadd (rp_weighted rp) (dmul price (dec_of_int qty))) (dec_of_int (filled_quantity c + qty)) = Inr a"
    and nonneg: "0 \<le> filled_quantity c"
    and d: "filled_quantity d = filled_quantity c + qty" "average_fill_price d = Some a"
    and w: "vw_fills w = vw_fills v @ [fill_row cid fid qty price t b]"
    and rp': "rp_total rp' = rp_total rp + qty"
      "rp_weighted rp' = dadd (rp_weighted rp) (dmul price (dec_of_int qty))"
      "rp_fills rp' = rp_fills rp @ [(fid, qty, price, t, broker)]"
  shows "fills_agree d w rp'"
proof -
  let ?f = "fill_row cid fid qty price t b"
  have notional: "fill_notional ?f = dmul price (dec_of_int qty)" by (simp add: fill_notional_def fill_row_def)
  from agree have fs: "rp_total rp = filled_quantity c" "filled_quantity c = sum_list (map fl_quantity (vw_fills v))"
    "rp_weighted rp = dsum (map fill_notional (vw_fills v))" "list_all2 fill_entry (rp_fills rp) (vw_fills v)"
    "distinct (map fl_id (vw_fills v))"
    "list_all (\<lambda>f. 0 < fl_quantity f \<and> dpos (fl_price f)) (vw_fills v)"
    by (simp_all add: fills_agree_def)
  have "0 < dval (fill_notional ?f)" using qty price by (intro notional_pos) (simp_all add: fill_row_def)
  then have weighted: "0 < dval (dadd (rp_weighted rp) (dmul price (dec_of_int qty)))"
    using dsum_notional_nonneg [OF fs(6)] by (simp add: fs(3) dadd_sign notional)
  have "0 < dval (dec_of_int (filled_quantity c + qty))" using qty nonneg by simp
  from ddiv_pos [OF weighted this] average have "dpos a" by (simp add: dval_pos)
  then have "average_agrees d (rp_weighted rp')"
    using average qty nonneg by (auto simp: average_agrees_def d rp')
  moreover have "rp_weighted rp' = dsum (map fill_notional (vw_fills w))"
    by (simp add: rp' w dsum_snoc notional fs(3))
  moreover have "list_all2 fill_entry (rp_fills rp') (vw_fills w)"
  proof -
    have "fill_entry (fid, qty, price, t, broker) ?f" using b by (cases b) (auto simp: fill_entry_def fill_row_def)
    with list_all2_appendI [OF fs(4), of "[(fid, qty, price, t, broker)]" "[?f]"] show ?thesis by (simp add: rp' w)
  qed
  moreover have "distinct (map fl_id (vw_fills w))" using fs(5) new by (simp add: w fill_row_def)
  moreover have "list_all (\<lambda>f. 0 < fl_quantity f \<and> dpos (fl_price f)) (vw_fills w)"
    using fs(6) qty price by (simp add: w fill_row_def)
  moreover have "filled_quantity d = sum_list (map fl_quantity (vw_fills w))"
    by (simp add: d w fill_row_def fs(2))
  moreover have "rp_total rp' = filled_quantity d" by (simp add: rp' d fs(1))
  ultimately show ?thesis unfolding fills_agree_def by blast
qed

lemma order_ok_fill:
  assumes ok: "order_ok sha c v es" and state: "fillable (om_state c)" and qty: "0 < qty" and price: "dpos price"
    and new: "fid \<notin> fl_id ` set (vw_fills v)"
    and le: "filled_quantity c + qty \<le> requested_quantity c"
    and average: "ddiv (dadd (dsum (map fill_notional (vw_fills v))) (dmul price (dec_of_int qty)))
          (dec_of_int (filled_quantity c + qty)) = Inr a"
    and target: "target = fill_target c (filled_quantity c + qty)" "allowed (om_state c) target"
    and broker: "broker_identity (broker_order_id c) b = Inr broker" "b \<noteq> Some []"
    and source: "source_ok sha c v fid t b source"
    and w: "w = v\<lparr>vw_fills := vw_fills v @ [fill_row (om_id c) fid qty price t b]\<rparr>"
    and d: "d = bump (c\<lparr>om_state := target, filled_quantity := filled_quantity c + qty,
               average_fill_price := Some a, broker_order_id := broker, updated_at := t\<rparr>)"
    and ev: "ev = new_event sha (om_id c) (last_event_sequence c + 1) ''FILL'' t (head_hash es)
               (fill_members fid qty price (filled_quantity c + qty) a target broker source None)"
  shows "order_ok sha d w (es @ [ev])"
proof -
  from ok obtain rp where rp: "row_ok c" "replay_events sha c v es = Inr rp" "state_agrees c v es rp"
    "fills_agree c v rp" by (rule order_okE)
  have c0: "broker_order_id c \<noteq> Some []" "0 \<le> filled_quantity c" using rp(1) by (simp_all add: row_ok_def)
  note again = broker_identity_again [OF broker(1) c0(1) broker(2)]
  have len: "length es = last_event_sequence c" "rp_state rp = om_state c" "rp_broker rp = broker_order_id c"
    "rp_previous rp = head_hash es" "rp_evidence rp = vw_binding v" using rp(3) by (simp_all add: state_agrees_def)
  have tot: "rp_total rp = filled_quantity c" "rp_weighted rp = dsum (map fill_notional (vw_fills v))"
    "map fst (rp_fills rp) = map fl_id (vw_fills v)"
    using rp(4) by (simp_all add: fills_agree_def fill_entries_ids)
  have fresh: "fid \<notin> fst ` set (rp_fills rp)" using new arg_cong [OF tot(3), of set] by simp
  have repl: "vw_replacement v = None" using rp(3) state by (auto simp: state_agrees_def fillable_def)
  have norepl: "\<not> (\<exists>e \<in> set es. ev_kind e = ''REPLACED_BY'')" using rp(3) repl by (auto simp: state_agrees_def)
  let ?ms = "canon_members (fill_members fid qty price (filled_quantity c + qty) a target broker source None)"
  let ?start = "rp\<lparr>rp_previous := Some (event_hash ev)\<rparr>"
  let ?rp = "?start\<lparr>rp_total := filled_quantity c + qty,
      rp_weighted := dadd (rp_weighted rp) (dmul price (dec_of_int qty)), rp_state := target, rp_broker := broker,
      rp_fills := rp_fills rp @ [(fid, qty, price, t, broker)]\<rparr>"
  have kind: "ev_kind ev = ''FILL''" "ev_at ev = t" by (simp_all add: ev new_event_def)
  have src: "check_source sha d ?start ev broker fid ?ms = Inr ()"
  proof (rule check_source_ok)
    have "om_tenant d = om_tenant c" by (simp add: d bump_def)
    then show "source_ok sha d v fid t b source" using source unfolding source_ok_def by (simp only:)
  qed (simp_all add: len(5) kind again(3) fill_jget)
  have rec: "check_recovery sha d w ev fid ?ms = Inr ()" by (simp add: check_recovery_def fill_jget)
  have dq: "requested_quantity d = requested_quantity c" "fill_target d = fill_target c"
    by (simp_all add: d bump_def fill_target_def fun_eq_iff)
  have k: "replay_kind sha d w (length es + 1) ev ?ms ?start = Inr ?rp"
    using qty price le average target again(1) fresh tot len(2,3) src rec
    by (simp add: replay_kind_def kind replay_fill_def fill_jget decimal_field_text dq lifecycle_transition_def
        broker_field_opt Let_def)
  show ?thesis
  proof (rule order_ok_append [OF rp(2) _ _ _ len(4) _ k])
    show "same_order c d" by (simp add: d bump_def same_order_def)
    show "view_grows v w" by (simp add: view_grows_def w)
    show "(\<exists>e \<in> set es. ev_kind e = ''REPLACED_BY'') \<longrightarrow> vw_replacement w = vw_replacement v" by (simp add: w)
    show "ev = new_event sha (om_id d) (length es + 1) ''FILL'' t (head_hash es)
        (fill_members fid qty price (filled_quantity c + qty) a target broker source None)"
      by (simp add: ev d bump_def len(1))
    show "row_ok d" using rp(1) again(2) le qty
      by (auto simp: row_ok_def d bump_def target(1) fill_target_def)
    show "state_agrees d w (es @ [ev]) ?rp"
      using rp(3) norepl by (intro state_agrees_append [OF rp(3)]) (auto simp: d w bump_def kind repl len(5))
    show "fills_agree d w ?rp"
      by (rule fills_agree_fill [OF rp(4) new qty price again(3) _ c0(2)])
        (use average tot(1,2) in \<open>simp_all add: d w bump_def\<close>)
  qed
qed

subsection \<open>Creation\<close>

definition created_members :: "OrderIntent \<Rightarrow> string \<Rightarrow> (string \<times> json) list \<Rightarrow> string \<Rightarrow> (string \<times> json) list" where
  "created_members o1 decision lineage snapshot =
     (''decisionId'', JStr decision) # lineage @
       [(''approvedIntent'', JStr snapshot), (''order'', JObj (order_members o1 None))]"

definition lineage_ok :: "(string \<times> json) list \<Rightarrow> bool" where
  "lineage_ok ls \<longleftrightarrow> ls = [] \<or> (\<exists>x. ls = [(''replacesClientOrderId'', JStr x)])"

lemma created_jget:
  assumes "lineage_ok ls"
  shows "jget ''order'' (canon_members (created_members o1 decision ls snapshot)) =
      Some (JObj (canon_members (order_members o1 None)))"
    "jget ''approvedIntent'' (canon_members (created_members o1 decision ls snapshot)) = Some (JStr snapshot)"
  using assms by (auto simp: lineage_ok_def jget_canon_members created_members_def)

lemma order_members_dict: "dict_eq (canon_members (order_members o1 None)) (order_members o1 None)"
proof -
  have "jget k (canon_members (order_members o1 None)) = jget k (order_members o1 None)" for k
    by (rule canon_members_flat) (auto simp: order_members_def)
  then show ?thesis by (simp add: dict_eq_def list_all_iff)
qed

lemma full_intent_ok:
  assumes "canonical_order_intent o1 = Inr snapshot" "oi_instrument o1 = None" "money_fits o1"
    and "order_identity c = order_members o1 None" "instrument_identity c = None"
  shows "check_full_intent c (Some (JStr snapshot)) = Inr ()"
proof -
  have read: "order_from_snapshot snapshot = Inr o1" by (rule order_snapshot_reads [OF assms(1-3)])
  have "snapshot = jprint True (JObj (snapshot_members o1 None))"
    using assms(1,2) by (auto simp: canonical_order_intent_Inr bound_identity_def)
  then have "loads snapshot = Some (JObj (snapshot_members o1 None))" by (simp only: loads_jprint)
  moreover have "\<not> list_ex (\<lambda>(k, v). jget k (snapshot_members o1 None) \<noteq> Some v) (order_members o1 None)"
    by (simp add: order_members_def)
  ultimately show ?thesis
    by (simp add: check_full_intent_def read assms(1,4,5) opt_json_def)
qed

lemma order_ok_created:
  assumes snapshot: "canonical_order_intent o1 = Inr snapshot" "oi_instrument o1 = None" "money_fits o1"
    and cid: "id_match 128 cid" and lineage: "lineage_ok ls"
    and v: "vw_fills v = []" "vw_binding v = None" "vw_replacement v = None"
    and c: "c = bump (new_row cid o1 None t)"
    and ev: "ev = new_event sha cid 1 ''CREATED'' t None (created_members o1 decision ls snapshot)"
  shows "order_ok sha c v [ev]"
proof -
  have valid: "snapshot_valid o1" using snapshot(1) by (simp add: canonical_order_intent_Inr)
  have ident: "order_identity c = order_members o1 None" "instrument_identity c = None" "om_id c = cid"
    "created_at c = t"
    by (simp_all add: c bump_def new_row_def order_identity_def order_members_def)
  let ?rp = "replay_init\<lparr>rp_previous := Some (event_hash ev)\<rparr>"
  have kind: "ev_kind ev = ''CREATED''" "ev_at ev = t" by (simp_all add: ev new_event_def)
  have k: "replay_kind sha c v 1 ev (canon_members (created_members o1 decision ls snapshot)) ?rp = Inr ?rp"
    using full_intent_ok [OF snapshot ident(1,2)]
    by (simp add: replay_kind_def kind replay_created_def created_jget [OF lineage] order_members_dict ident)
  have "replay_events sha c v [] = Inr replay_init" by (simp add: replay_events_def)
  then have "replay_events sha c v ([] @ [ev]) = Inr ?rp"
    unfolding replay_snoc
    using k replay_new_event [of c cid replay_init None sha v 1 "''CREATED''" t "created_members o1 decision ls snapshot"]
    by (simp add: ident ev replay_init_def)
  moreover have "row_ok c"
    using valid cid by (auto simp: row_ok_def c bump_def new_row_def snapshot_valid_def dec_order)
  moreover have "state_agrees c v [ev] ?rp"
    by (simp add: state_agrees_def kind head_hash_def v replay_init_def c bump_def new_row_def)
  moreover have "fills_agree c v ?rp"
    by (simp add: fills_agree_def v replay_init_def c bump_def new_row_def dsum_def average_agrees_def)
  ultimately show ?thesis by (auto simp: order_ok_def)
qed

end
