(* ===== verification/OmsVerify.thy ===== *)
theory OmsVerify
  imports OmsInv
begin

text \<open>
  The journal as a whole: the invariant of every order together with the links between
  replaced orders, kept by every public operation, and the properties that follow. A run is a
  list of commands; a command that raises leaves the journal as it is.
\<close>

subsection \<open>The invariant of the journal\<close>

definition known_rows :: "oms \<Rightarrow> bool" where
  "known_rows s \<longleftrightarrow> ev_order ` set (events s) \<subseteq> om_id ` set (orders s)
     \<and> fl_order ` set (fills s) \<subseteq> om_id ` set (orders s)
     \<and> eb_order ` set (bindings s) \<subseteq> om_id ` set (orders s)
     \<and> rl_original ` set (replacements s) \<subseteq> om_id ` set (orders s)"

definition same_economics :: "oms_order \<Rightarrow> oms_order \<Rightarrow> bool" where
  "same_economics c d \<longleftrightarrow> om_tenant c = om_tenant d \<and> om_strategy c = om_strategy d \<and> om_symbol c = om_symbol d
     \<and> om_market c = om_market d \<and> om_asset_class c = om_asset_class d \<and> om_side c = om_side d
     \<and> instrument_identity c = instrument_identity d"

definition link_ok :: "oms \<Rightarrow> replacement \<Rightarrow> bool" where
  "link_ok s l \<longleftrightarrow> (\<exists>c d. row_get om_id (rl_original l) (orders s) = Some c
     \<and> row_get om_id (rl_replacement l) (orders s) = Some d
     \<and> om_state c = CANCELLED \<and> same_economics c d \<and> requested_quantity d \<le> pending_quantity c)"

definition oms_inv :: "(string \<Rightarrow> string) \<Rightarrow> oms \<Rightarrow> bool" where
  "oms_inv sha s \<longleftrightarrow> distinct (map om_id (orders s)) \<and> known_rows s
     \<and> (\<forall>c \<in> set (orders s). order_ok sha c (view_of (om_id c) s) (events_of (om_id c) s))
     \<and> (\<forall>l \<in> set (replacements s). link_ok s l)"

lemma oms_inv_order:
  assumes "oms_inv sha s" "row_get om_id cid (orders s) = Some c"
  shows "om_id c = cid" "order_ok sha c (view_of cid s) (events_of cid s)" "row_ok c"
    "decode_row c = Inr c" "length (events_of cid s) = last_event_sequence c"
    "\<And>r. r \<in> set (orders s) \<Longrightarrow> om_id r = cid \<Longrightarrow> r = c"
proof -
  from row_get_Some_key [OF assms(2)] have c: "om_id c = cid" "c \<in> set (orders s)" by simp_all
  show "om_id c = cid" by (rule c)
  show ok: "order_ok sha c (view_of cid s) (events_of cid s)"
    using assms(1) c by (auto simp: oms_inv_def)
  then obtain rp where rp: "row_ok c" "state_agrees c (view_of cid s) (events_of cid s) rp"
      "fills_agree c (view_of cid s) rp" by (rule order_okE)
  then show "row_ok c" "length (events_of cid s) = last_event_sequence c" by (simp_all add: state_agrees_def)
  show "decode_row c = Inr c" using rp by (intro decode_ok) (auto simp: fills_agree_def)
  show "r = c" if "r \<in> set (orders s)" "om_id r = cid" for r
    using assms(1) that c by (auto simp: oms_inv_def distinct_map inj_on_def)
qed

lemma stored_order_Inr: "oms_inv sha s \<Longrightarrow> stored_order cid s = Inr c \<longleftrightarrow> row_get om_id cid (orders s) = Some c"
  by (auto simp: stored_order_def oms_inv_order split: option.splits)

lemma get_order_Inr: "oms_inv sha s \<Longrightarrow> get_order cid s = Inr c \<Longrightarrow> row_get om_id cid (orders s) = Some c"
  by (auto simp: get_order_def res_simps oms_inv_order split: option.splits)

lemma events_of_snoc:
  assumes "\<And>e. e \<in> set (events_of cid s) \<Longrightarrow> ev_sequence e \<le> ev_sequence ev"
    and "events s' = events s @ [ev]" "ev_order ev = cid"
  shows "events_of cid s' = events_of cid s @ [ev]"
proof -
  have "sort_key ev_sequence (filter (\<lambda>e. ev_order e = cid) (events s) @ [ev])
      = sort_key ev_sequence (filter (\<lambda>e. ev_order e = cid) (events s)) @ [ev]"
    by (rule sort_key_snoc) (use assms(1) in \<open>simp add: events_of_def\<close>)
  then show ?thesis by (simp add: events_of_def assms(2,3))
qed

lemma events_of_other: "events s' = events s @ [ev] \<Longrightarrow> ev_order ev \<noteq> k \<Longrightarrow> events_of k s' = events_of k s"
  by (simp add: events_of_def)

text \<open>A log that replays is numbered from one.\<close>

lemma foldr_res_each:
  assumes "foldr_res f s xs = Inr r" "\<And>s x s'. x \<in> set xs \<Longrightarrow> f s x = Inr s' \<Longrightarrow> P x"
  shows "\<forall>x \<in> set xs. P x"
  using assms by (induction xs arbitrary: s) (auto simp: res_simps)

lemma replay_numbered:
  assumes "replay_events sha c v es = Inr rp" "e \<in> set es"
  shows "ev_sequence e \<le> length es"
proof -
  have "\<forall>ne \<in> set (zip [1..<length es + 1] es). ev_sequence (snd ne) = fst ne"
    by (rule foldr_res_each [OF assms(1) [unfolded replay_events_def]])
      (auto simp: replay_event_def Let_def split: if_splits)
  moreover obtain i where i: "i < length es" "es ! i = e" using assms(2) by (auto simp: in_set_conv_nth)
  moreover have "(i + 1, e) \<in> set (zip [1..<length es + 1] es)"
    using i by (auto simp: set_zip simp del: upt_Suc intro!: exI [of _ i])
  ultimately show ?thesis by force
qed

lemma oms_inv_sequences:
  assumes "oms_inv sha s" "row_get om_id cid (orders s) = Some c" "e \<in> set (events_of cid s)"
  shows "ev_sequence e \<le> last_event_sequence c"
  using oms_inv_order(2,5) [OF assms(1,2)] assms(3) by (auto elim!: order_okE dest!: replay_numbered)

subsection \<open>One order changes\<close>

lemma row_upd_const:
  assumes "\<And>r. r \<in> set t \<Longrightarrow> key r = k \<Longrightarrow> r = c"
  shows "row_upd key k f t = row_upd key k (\<lambda>_. f c) t"
  unfolding row_upd_def by (rule map_cong) (use assms in auto)

lemma row_upd_comp: "(\<And>r. key r = k \<Longrightarrow> key (f r) = k) \<Longrightarrow> row_upd key k g (row_upd key k f t) = row_upd key k (g \<circ> f) t"
  by (induction t) auto

lemma row_get_const:
  "key d = k \<Longrightarrow> row_get key j (row_upd key k (\<lambda>_. d) t) =
    (if j = k then map_option (\<lambda>_. d) (row_get key k t) else row_get key j t)"
  by (induction t) auto

lemma keys_const: "key d = k \<Longrightarrow> map key (row_upd key k (\<lambda>_. d) t) = map key t"
  by (induction t) auto

definition keeps_links :: "oms_order \<Rightarrow> oms_order \<Rightarrow> bool" where
  "keeps_links c d \<longleftrightarrow> same_order c d
     \<and> (om_state c = CANCELLED \<longrightarrow> om_state d = CANCELLED \<and> filled_quantity d = filled_quantity c)"

lemma link_ok_upd:
  assumes "link_ok s l" "row_get om_id cid (orders s) = Some c" "om_id d = cid" "keeps_links c d"
    and "orders s' = row_upd om_id cid (\<lambda>_. d) (orders s)"
  shows "link_ok s' l"
proof -
  from assms(1) obtain x y where xy: "row_get om_id (rl_original l) (orders s) = Some x"
    "row_get om_id (rl_replacement l) (orders s) = Some y" "om_state x = CANCELLED" "same_economics x y"
    "requested_quantity y \<le> pending_quantity x" by (auto simp: link_ok_def)
  let ?x = "if rl_original l = cid then d else x" and ?y = "if rl_replacement l = cid then d else y"
  have "row_get om_id (rl_original l) (orders s') = Some ?x"
    "row_get om_id (rl_replacement l) (orders s') = Some ?y"
    using assms(2,3,5) xy(1,2) by (auto simp: row_get_const)
  moreover have "same_economics ?x ?y" "requested_quantity ?y \<le> pending_quantity ?x" "om_state ?x = CANCELLED"
    using assms(2,4) xy
    by (auto simp: keeps_links_def same_order_def same_economics_def pending_quantity_def)
  ultimately show ?thesis unfolding link_ok_def by blast
qed

lemma oms_inv_step:
  assumes inv: "oms_inv sha s" and row: "row_get om_id cid (orders s) = Some c"
    and d: "om_id d = cid" "keeps_links c d"
    and orders: "orders s' = row_upd om_id cid (\<lambda>_. d) (orders s)"
    and events: "events s' = events s @ [ev]" "ev_order ev = cid" "ev_sequence ev = last_event_sequence c + 1"
    and other: "\<And>k. k \<noteq> cid \<Longrightarrow> view_of k s' = view_of k s"
    and known: "fl_order ` set (fills s') \<subseteq> insert cid (fl_order ` set (fills s))"
      "eb_order ` set (bindings s') \<subseteq> insert cid (eb_order ` set (bindings s))"
      "rl_original ` set (replacements s') \<subseteq> insert cid (rl_original ` set (replacements s))"
    and links: "\<And>l. l \<in> set (replacements s') \<Longrightarrow> l \<in> set (replacements s) \<or> link_ok s' l"
    and ok: "order_ok sha d (view_of cid s') (events_of cid s @ [ev])"
  shows "oms_inv sha s'"
proof -
  have ids: "map om_id (orders s') = map om_id (orders s)" by (simp add: orders keys_const d(1))
  have idset: "om_id ` set (orders s') = om_id ` set (orders s)"
    using arg_cong [OF ids, of set] by simp
  have cid: "cid \<in> om_id ` set (orders s)" using row_get_Some_key [OF row] by blast
  have log: "events_of cid s' = events_of cid s @ [ev]"
    using oms_inv_sequences [OF inv row] by (intro events_of_snoc) (auto simp: events intro: le_SucI)
  have "order_ok sha r (view_of (om_id r) s') (events_of (om_id r) s')" if r: "r \<in> set (orders s')" for r
  proof (cases "om_id r = cid")
    case True
    have "r = d" using set_row_upd [of r om_id cid "\<lambda>_. d" "orders s"] r True inv row
      by (auto simp: orders row_upd_def)
    with ok log True show ?thesis by simp
  next
    case False
    with r have "r \<in> set (orders s)" by (auto simp: orders row_upd_def d(1) split: if_splits)
    with inv False show ?thesis
      by (auto simp: oms_inv_def other events_of_other [OF events(1)] events(2))
  qed
  moreover have "link_ok s' l" if "l \<in> set (replacements s')" for l
    using links [OF that] link_ok_upd [OF _ row d orders] inv by (auto simp: oms_inv_def)
  moreover have "known_rows s'"
  proof -
    have sub: "A \<subseteq> C" if "A \<subseteq> insert cid B" "B \<subseteq> C" "cid \<in> C" for A B C :: "string set"
      using that by blast
    have "known_rows s" using inv by (simp add: oms_inv_def)
    then show ?thesis unfolding known_rows_def idset
      by (elim conjE, intro conjI) (simp add: events cid, (rule sub [OF known(1) _ cid], assumption)?,
        (rule sub [OF known(2) _ cid], assumption)?, (rule sub [OF known(3) _ cid], assumption)?)
  qed
  ultimately show ?thesis using inv ids by (simp add: oms_inv_def)
qed

lemma append_event_Inr:
  assumes "append_event sha cid kind when p s = Inr s'"
  obtains c t where "row_get om_id cid (orders s) = Some c" "when = Aware t"
    "s' = s\<lparr>events := events s @ [new_event sha cid (last_event_sequence c + 1) kind t (head_hash (events_of cid s)) p],
        orders := row_upd om_id cid (\<lambda>r. r\<lparr>last_event_sequence := last_event_sequence c + 1\<rparr>) (orders s)\<rparr>"
  using assms by (auto simp: append_event_def new_event_def res_simps Let_def split: option.splits if_splits)

lemma append_after_update:
  assumes inv: "oms_inv sha s" and row: "row_get om_id cid (orders s) = Some c"
    and f: "\<And>r. om_id (f r) = om_id r" "last_event_sequence (f c) = last_event_sequence c"
    and s1: "orders s1 = row_upd om_id cid f (orders s)" "events s1 = events s"
    and append: "append_event sha cid kind when p s1 = Inr s2"
  obtains t where "when = Aware t" "orders s2 = row_upd om_id cid (\<lambda>_. bump (f c)) (orders s)"
    "events s2 = events s @ [new_event sha cid (last_event_sequence c + 1) kind t (head_hash (events_of cid s)) p]"
    "fills s2 = fills s1" "bindings s2 = bindings s1" "replacements s2 = replacements s1"
    "recoveries s2 = recoveries s1" "schema_version s2 = schema_version s1"
proof -
  from append obtain c1 t where t: "row_get om_id cid (orders s1) = Some c1" "when = Aware t"
    "s2 = s1\<lparr>events := events s1 @ [new_event sha cid (last_event_sequence c1 + 1) kind t (head_hash (events_of cid s1)) p],
        orders := row_upd om_id cid (\<lambda>r. r\<lparr>last_event_sequence := last_event_sequence c1 + 1\<rparr>) (orders s1)\<rparr>"
    by (rule append_event_Inr)
  have c1: "c1 = f c" using t(1) row by (simp add: s1 row_get_upd f(1))
  have log: "events_of cid s1 = events_of cid s" by (simp add: events_of_def s1)
  have "orders s2 = row_upd om_id cid ((\<lambda>r. r\<lparr>last_event_sequence := last_event_sequence c + 1\<rparr>) \<circ> f) (orders s)"
    by (simp add: t(3) s1 c1 f row_upd_comp)
  also have "\<dots> = row_upd om_id cid (\<lambda>_. bump (f c)) (orders s)"
    by (subst row_upd_const [where c = c]) (simp_all add: oms_inv_order(6) [OF inv row] bump_def f(2))
  finally show ?thesis using that t(2) by (simp add: t(3) c1 f s1 log)
qed

lemma view_eqI:
  assumes "filter (\<lambda>f. fl_order f = k) (fills s') = filter (\<lambda>f. fl_order f = k) (fills s)"
    and "row_get eb_order k (bindings s') = row_get eb_order k (bindings s)"
    and "row_get rl_original k (replacements s') = row_get rl_original k (replacements s)"
    and "recoveries s' = recoveries s" "schema_version s' = schema_version s"
  shows "view_of k s' = view_of k s"
  using assms by (simp add: view_of_def broker_evidence_binding_def replacement_for_def)

lemma finish_inv:
  assumes "P s" "\<And>s' x. body = Inr (s', x) \<Longrightarrow> P s'"
  shows "P (fst (finish s body))"
  using assms by (auto simp: finish_def split: sum.splits)

subsection \<open>Operations keep the invariant\<close>

lemma check_id_Inr: "check_id name v = Inr u \<longleftrightarrow> id_match 128 v"
  by (simp add: check_id_def)

lemma opt_id_nonempty: "opt_id name v = Inr u \<Longrightarrow> v \<noteq> Some []"
  by (auto simp: opt_id_def check_id_def id_match_def split: option.splits if_splits)

lemma transition_inv:
  assumes inv: "oms_inv sha s" and target: "plain_target target"
  shows "oms_inv sha (fst (transition sha cid target reason b when s))"
  unfolding transition_def
proof (rule finish_inv [where P = "oms_inv sha"], rule inv, goal_cases)
  case (1 s' x)
  then obtain c broker t where b: "b \<noteq> Some []" and row: "row_get om_id cid (orders s) = Some c"
    and allowed: "allowed (om_state c) target" and broker: "broker_identity (broker_order_id c) b = Inr broker"
    and t: "when = Aware t"
    and app: "append_event sha cid (state_value target) when (transition_members (om_state c) target reason broker)
      (s\<lparr>orders := row_upd om_id cid (\<lambda>r. r\<lparr>om_state := target, broker_order_id := broker, updated_at := t\<rparr>) (orders s)\<rparr>) = Inr s'"
    by (auto simp: res_simps stored_order_Inr [OF inv] transition_members_def dest: opt_id_nonempty)
  from append_after_update [OF inv row _ _ _ _ app,
      of "\<lambda>r. r\<lparr>om_state := target, broker_order_id := broker, updated_at := t\<rparr>"] t
  have s': "orders s' = row_upd om_id cid (\<lambda>_. bump (c\<lparr>om_state := target, broker_order_id := broker, updated_at := t\<rparr>)) (orders s)"
    "events s' = events s @ [new_event sha cid (last_event_sequence c + 1) (state_value target) t
        (head_hash (events_of cid s)) (transition_members (om_state c) target reason broker)]"
    "fills s' = fills s" "bindings s' = bindings s" "replacements s' = replacements s"
    "recoveries s' = recoveries s" "schema_version s' = schema_version s"
    by auto
  have view: "view_of k s' = view_of k s" for k by (rule view_eqI) (simp_all add: s')
  note o = oms_inv_order [OF inv row]
  show "oms_inv sha s'"
  proof (rule oms_inv_step [OF inv row _ _ s'(1,2)])
    show "order_ok sha (bump (c\<lparr>om_state := target, broker_order_id := broker, updated_at := t\<rparr>)) (view_of cid s')
        (events_of cid s @ [new_event sha cid (last_event_sequence c + 1) (state_value target) t
          (head_hash (events_of cid s)) (transition_members (om_state c) target reason broker)])"
      unfolding view by (rule order_ok_transition [OF o(2) allowed target broker b refl]) (simp add: o(1))
  qed (use allowed in \<open>auto simp: s' view o(1) bump_def new_event_def keeps_links_def same_order_def allowed_def\<close>)
qed

lemma bind_broker_identity_inv:
  assumes inv: "oms_inv sha s"
  shows "oms_inv sha (fst (bind_broker_identity sha cid b reason when s))"
  unfolding bind_broker_identity_def
proof (rule finish_inv [where P = "oms_inv sha"], rule inv, goal_cases)
  case (1 s' x)
  show ?case
  proof (cases "s' = s")
    case True
    with inv show ?thesis by simp
  next
    case False
    with 1 obtain c broker t where b: "id_match 128 b" and row: "row_get om_id cid (orders s) = Some c"
      and broker: "broker_identity (broker_order_id c) (Some b) = Inr broker" and t: "when = Aware t"
      and app: "append_event sha cid ''BROKER_ID_OBSERVED'' when (observed_members broker reason (om_state c))
        (s\<lparr>orders := row_upd om_id cid (\<lambda>r. r\<lparr>broker_order_id := broker, updated_at := t\<rparr>) (orders s)\<rparr>) = Inr s'"
      by (auto simp: res_simps stored_order_Inr [OF inv] observed_members_def check_id_Inr split: if_splits)
    from b have b0: "Some b \<noteq> Some []" by (auto simp: id_match_def)
    from append_after_update [OF inv row _ _ _ _ app, of "\<lambda>r. r\<lparr>broker_order_id := broker, updated_at := t\<rparr>"] t
    have s': "orders s' = row_upd om_id cid (\<lambda>_. bump (c\<lparr>broker_order_id := broker, updated_at := t\<rparr>)) (orders s)"
      "events s' = events s @ [new_event sha cid (last_event_sequence c + 1) ''BROKER_ID_OBSERVED'' t
          (head_hash (events_of cid s)) (observed_members broker reason (om_state c))]"
      "fills s' = fills s" "bindings s' = bindings s" "replacements s' = replacements s"
      "recoveries s' = recoveries s" "schema_version s' = schema_version s"
      by auto
    have view: "view_of k s' = view_of k s" for k by (rule view_eqI) (simp_all add: s')
    note o = oms_inv_order [OF inv row]
    show ?thesis
    proof (rule oms_inv_step [OF inv row _ _ s'(1,2)])
      show "order_ok sha (bump (c\<lparr>broker_order_id := broker, updated_at := t\<rparr>)) (view_of cid s')
          (events_of cid s @ [new_event sha cid (last_event_sequence c + 1) ''BROKER_ID_OBSERVED'' t
            (head_hash (events_of cid s)) (observed_members broker reason (om_state c))])"
        unfolding view by (rule order_ok_observed [OF o(2) broker b0 refl]) (simp add: o(1))
    qed (auto simp: s' view o(1) bump_def new_event_def keeps_links_def same_order_def)
  qed
qed

lemma bind_evidence_body_Inr:
  assumes "bind_evidence_body sha b when s = Inr s'"
  shows "s' = s \<or> (\<exists>c. get_order (eb_order b) s = Inr c \<and> om_state c \<noteq> CREATED
    \<and> broker_evidence_binding (eb_order b) s = None
    \<and> append_event sha (eb_order b) ''BROKER_EVIDENCE_BOUND'' when (binding_members b)
          (s\<lparr>bindings := bindings s @ [b]\<rparr>) = Inr s')"
  using assms unfolding bind_evidence_body_def
  by (cases "broker_evidence_binding (eb_order b) s") (auto simp: res_simps split: if_splits)

lemma bind_broker_evidence_inv:
  assumes inv: "oms_inv sha s"
  shows "oms_inv sha (fst (bind_broker_evidence sha b when s))"
proof (cases "bind_evidence_body sha b when s")
  case (Inl e)
  with inv show ?thesis by (simp add: bind_broker_evidence_def)
next
  case (Inr s')
  then have s': "fst (bind_broker_evidence sha b when s) = s'" by (simp add: bind_broker_evidence_def)
  show ?thesis
  proof (cases "s' = s")
    case True
    with inv s' show ?thesis by simp
  next
    case False
    with bind_evidence_body_Inr [OF Inr] obtain c where get: "get_order (eb_order b) s = Inr c"
      and created: "om_state c \<noteq> CREATED" and True: "broker_evidence_binding (eb_order b) s = None"
      and app: "append_event sha (eb_order b) ''BROKER_EVIDENCE_BOUND'' when (binding_members b)
          (s\<lparr>bindings := bindings s @ [b]\<rparr>) = Inr s'" by blast
    let ?cid = "eb_order b"
    note row = get_order_Inr [OF inv get]
    note o = oms_inv_order [OF inv row]
    from append_after_update [OF inv row _ _ _ _ app, of "\<lambda>r. r"]
    obtain t where eq: "orders s' = row_upd om_id ?cid (\<lambda>_. bump c) (orders s)"
      "events s' = events s @ [new_event sha ?cid (last_event_sequence c + 1) ''BROKER_EVIDENCE_BOUND'' t
          (head_hash (events_of ?cid s)) (binding_members b)]"
      "fills s' = fills s" "bindings s' = bindings s @ [b]" "replacements s' = replacements s"
      "recoveries s' = recoveries s" "schema_version s' = schema_version s"
      by (auto simp: row_upd_def)
    have none: "row_get eb_order ?cid (bindings s) = None" using True by (simp add: broker_evidence_binding_def)
    have view: "view_of k s' = view_of k s" if "k \<noteq> ?cid" for k
      by (rule view_eqI) (use that in \<open>auto simp: eq row_get_append split: option.splits\<close>)
    have own: "view_of ?cid s' = (view_of ?cid s)\<lparr>vw_binding := Some b\<rparr>"
      by (simp add: view_of_def eq broker_evidence_binding_def replacement_for_def row_get_append none)
    show ?thesis unfolding s'
    proof (rule oms_inv_step [OF inv row _ _ eq(1,2)])
      show "order_ok sha (bump c) (view_of ?cid s') (events_of ?cid s @ [new_event sha ?cid (last_event_sequence c + 1)
          ''BROKER_EVIDENCE_BOUND'' t (head_hash (events_of ?cid s)) (binding_members b)])"
        by (rule order_ok_binding [OF o(2) created _ own refl])
          (simp_all add: view_of_def broker_evidence_binding_def none o(1))
    qed (auto simp: eq view o(1) bump_def new_event_def keeps_links_def same_order_def)
  qed
qed

text \<open>A new order.\<close>

definition cash_intent :: "OrderIntent \<Rightarrow> bool" where
  "cash_intent o1 \<longleftrightarrow> oi_instrument o1 = None \<and> money_fits o1"

definition digest :: "(string \<Rightarrow> string) \<Rightarrow> bool" where
  "digest sha \<longleftrightarrow> (\<forall>x. sha_match (sha x))"

lemma list_all_alphabet: "list_all (\<lambda>c. c \<in> set cs) xs \<Longrightarrow> list_all P cs \<Longrightarrow> list_all P (List.take n xs)"
  by (auto simp: list_all_iff dest!: in_set_takeD)

lemma client_id_valid:
  assumes "digest sha" "make_client_order_id sha o1 decision = Inr cid"
  shows "id_match 128 cid"
proof -
  obtain x where cid: "cid = ''OMS-'' @ List.take 40 (sha x)"
    using assms(2) unfolding make_client_order_id_def oms_hash_def if_Inl_eq_Inr ebind_eq_Inr
    by (elim conjE exE) (simp only: sum.inject, metis)
  have x: "length (sha x) = 64" "list_all (\<lambda>c. c \<in> set ''0123456789abcdef'') (sha x)"
    using assms(1) unfolding digest_def sha_match_def by blast+
  have "list_all id_char ''0123456789abcdef''" by (simp add: id_char_def is_digit_def is_lower_def)
  with x(2) have "list_all id_char (List.take 40 (sha x))" by (rule list_all_alphabet)
  moreover have "list_all id_char ''OMS-''" by (simp add: id_char_def is_upper_def)
  ultimately show ?thesis using x(1) by (simp add: cid id_match_def)
qed

lemma unknown_order:
  assumes "oms_inv sha s" "row_get om_id cid (orders s) = None"
  shows "events_of cid s = []" "filter (\<lambda>f. fl_order f = cid) (fills s) = []"
    "row_get eb_order cid (bindings s) = None" "row_get rl_original cid (replacements s) = None"
proof -
  have k: "known_rows s" and n: "cid \<notin> om_id ` set (orders s)"
    using assms by (simp_all add: oms_inv_def row_get_None_iff)
  then show "row_get eb_order cid (bindings s) = None" "row_get rl_original cid (replacements s) = None"
    by (auto simp: known_rows_def row_get_None_iff)
  have "filter (\<lambda>e. ev_order e = cid) (events s) = []" "filter (\<lambda>f. fl_order f = cid) (fills s) = []"
    using k n by (auto simp: known_rows_def filter_empty_conv)
  then show "events_of cid s = []" "filter (\<lambda>f. fl_order f = cid) (fills s) = []"
    by (simp_all add: events_of_def)
qed

lemma row_get_snoc_other: "om_id d \<noteq> k \<Longrightarrow> row_get om_id k (t @ [d]) = row_get om_id k t"
  by (simp add: row_get_append split: option.split)

lemma insert_created_Inr:
  assumes inv: "oms_inv sha s" and new: "row_get om_id cid (orders s) = None" and cash: "cash_intent o1"
    and ins: "insert_created sha o1 decision cid (Aware t) t ls s = Inr s'"
  obtains snapshot where "canonical_order_intent o1 = Inr snapshot"
    "s' = s\<lparr>orders := orders s @ [bump (new_row cid o1 None t)],
        events := events s @ [new_event sha cid 1 ''CREATED'' t None (created_members o1 decision ls snapshot)]\<rparr>"
proof -
  from cash have ident: "bound_identity o1 = Inr None" by (simp add: cash_intent_def bound_identity_def)
  let ?s1 = "s\<lparr>orders := orders s @ [new_row cid o1 None t]\<rparr>"
  from ins ident obtain snapshot where snap: "canonical_order_intent o1 = Inr snapshot"
    and app: "append_event sha cid ''CREATED'' (Aware t) (created_members o1 decision ls snapshot) ?s1 = Inr s'"
    by (auto simp: insert_created_def created_members_def res_simps)
  have row: "row_get om_id cid (orders ?s1) = Some (new_row cid o1 None t)"
    by (simp add: row_get_append new new_row_def)
  have log: "events_of cid ?s1 = []" using unknown_order(1) [OF inv new] by (simp add: events_of_def)
  have "cid \<notin> om_id ` set (orders s)" using new by (simp add: row_get_None_iff)
  then have upd: "row_upd om_id cid f (orders ?s1) = orders s @ [f (new_row cid o1 None t)]" for f
    by (auto simp: row_upd_def new_row_def intro!: map_idI)
  from app obtain u where "s' = ?s1\<lparr>events := events ?s1 @ [new_event sha cid 1 ''CREATED'' t None (created_members o1 decision ls snapshot)],
        orders := row_upd om_id cid (\<lambda>r. r\<lparr>last_event_sequence := 1\<rparr>) (orders ?s1)\<rparr>"
    using row log by (auto elim!: append_event_Inr simp: new_row_def head_hash_def)
  then show ?thesis using that [OF snap] upd by (simp add: bump_def new_row_def)
qed

lemma link_ok_mono:
  assumes "link_ok s l" "\<And>k c. row_get om_id k (orders s) = Some c \<Longrightarrow> row_get om_id k (orders s') = Some c"
  shows "link_ok s' l"
  using assms unfolding link_ok_def by blast

lemma insert_created_inv:
  assumes inv: "oms_inv sha s" and new: "row_get om_id cid (orders s) = None" and cash: "cash_intent o1"
    and cid: "id_match 128 cid" and lineage: "lineage_ok ls"
    and ins: "insert_created sha o1 decision cid (Aware t) t ls s = Inr s'"
  shows "oms_inv sha s'"
proof -
  from insert_created_Inr [OF inv new cash ins] obtain snapshot where snap: "canonical_order_intent o1 = Inr snapshot"
    and s': "s' = s\<lparr>orders := orders s @ [bump (new_row cid o1 None t)],
        events := events s @ [new_event sha cid 1 ''CREATED'' t None (created_members o1 decision ls snapshot)]\<rparr>" .
  let ?d = "bump (new_row cid o1 None t)"
  let ?ev = "new_event sha cid 1 ''CREATED'' t None (created_members o1 decision ls snapshot)"
  have d: "om_id ?d = cid" by (simp add: bump_def new_row_def)
  have ev: "ev_order ?ev = cid" by (simp add: new_event_def)
  note u = unknown_order [OF inv new]
  have view: "view_of k s' = view_of k s" for k by (rule view_eqI) (simp_all add: s')
  have fresh: "cid \<notin> om_id ` set (orders s)" using new by (simp add: row_get_None_iff)
  have log: "events_of cid s' = [?ev]"
    using events_of_snoc [of cid s ?ev s'] u(1) ev by (simp add: s')
  have "order_ok sha ?d (view_of cid s') [?ev]"
    using cash cid lineage u
    by (intro order_ok_created [OF snap _ _ cid lineage _ _ _ refl refl])
      (simp_all add: cash_intent_def s' view_of_def broker_evidence_binding_def replacement_for_def)
  moreover have "order_ok sha c (view_of (om_id c) s') (events_of (om_id c) s')" if c: "c \<in> set (orders s)" for c
  proof -
    have "om_id c \<noteq> cid" using c fresh by auto
    then have "events_of (om_id c) s' = events_of (om_id c) s"
      by (intro events_of_other [of s' s ?ev]) (simp_all add: s' new_event_def)
    with inv c show ?thesis by (auto simp: oms_inv_def view)
  qed
  moreover have "link_ok s' l" if "l \<in> set (replacements s)" for l
    using inv that by (intro link_ok_mono [of s l s']) (auto simp: oms_inv_def s' row_get_append)
  moreover have "known_rows s'" using inv by (auto simp: oms_inv_def known_rows_def s' new_event_def d)
  ultimately show ?thesis
    using inv fresh log d by (auto simp: oms_inv_def s')
qed

lemma create_inv:
  assumes inv: "oms_inv sha s" and cash: "cash_intent o1" and sha: "digest sha"
  shows "oms_inv sha (fst (create sha o1 decision when s))"
  unfolding create_def
proof (rule finish_inv [where P = "oms_inv sha"], rule inv, goal_cases)
  case (1 s' x)
  then obtain t cid where t: "when = Aware t" and cid: "make_client_order_id sha o1 decision = Inr cid"
    and s': "s' = s \<or> (row_get om_id cid (orders s) = None \<and> insert_created sha o1 decision cid when t [] s = Inr s')"
    by (auto simp: res_simps split: if_splits option.splits)
  from s' show ?case
  proof
    assume "row_get om_id cid (orders s) = None \<and> insert_created sha o1 decision cid when t [] s = Inr s'"
    then show ?thesis
      using insert_created_inv [OF inv _ cash client_id_valid [OF sha cid]] t by (auto simp: lineage_ok_def)
  qed (use inv in simp)
qed

lemma row_upd_same: "row_upd key k (\<lambda>r. r) t = t"
  by (simp add: row_upd_def)

lemma check_replaceable_Inr:
  assumes "check_replaceable c o1 = Inr u" "cash_intent o1"
  shows "om_state c = CANCELLED \<and> om_tenant c = tenant_id o1 \<and> om_strategy c = strategy_id o1
    \<and> om_symbol c = oi_symbol o1 \<and> om_market c = market_value (oi_market o1)
    \<and> om_asset_class c = asset_value (oi_asset_class o1) \<and> om_side c = side_value (oi_side o1)
    \<and> instrument_identity c = None \<and> oi_quantity o1 \<le> pending_quantity c"
  using assms by (auto simp: check_replaceable_def cash_intent_def bound_identity_def res_simps split: if_splits)

lemma insert_link_Inr: "insert_link l s = Inr s' \<Longrightarrow> s' = s\<lparr>replacements := replacements s @ [l]\<rparr>"
  by (auto simp: insert_link_def split: if_splits)

lemma link_inserted_inv:
  assumes inv: "oms_inv sha s" and row: "row_get om_id orig (orders s) = Some c"
    and rep: "row_get om_id rid (orders s) = Some d" "rid \<noteq> orig"
    and state: "om_state c = CANCELLED" and link: "same_economics c d" "requested_quantity d \<le> pending_quantity c"
    and none: "row_get rl_original orig (replacements s) = None"
    and l: "rl_original l = orig" "rl_replacement l = rid"
    and app: "append_event sha orig ''REPLACED_BY'' when (replaced_members rid reason)
        (s\<lparr>replacements := replacements s @ [l]\<rparr>) = Inr s'"
  shows "oms_inv sha s'"
proof -
  note o = oms_inv_order [OF inv row]
  from append_after_update [OF inv row _ _ _ _ app, of "\<lambda>r. r"]
  obtain t where eq: "orders s' = row_upd om_id orig (\<lambda>_. bump c) (orders s)"
    "events s' = events s @ [new_event sha orig (last_event_sequence c + 1) ''REPLACED_BY'' t
        (head_hash (events_of orig s)) (replaced_members rid reason)]"
    "fills s' = fills s" "bindings s' = bindings s" "replacements s' = replacements s @ [l]"
    "recoveries s' = recoveries s" "schema_version s' = schema_version s"
    by (auto simp: row_upd_same)
  have view: "view_of k s' = view_of k s" if "k \<noteq> orig" for k
    by (rule view_eqI) (use that l in \<open>auto simp: eq row_get_append split: option.splits\<close>)
  have own: "view_of orig s' = (view_of orig s)\<lparr>vw_replacement := Some rid\<rparr>"
    by (simp add: view_of_def eq broker_evidence_binding_def replacement_for_def row_get_append none l)
  have "link_ok s' l"
    unfolding link_ok_def l eq(1)
    using row rep link state by (simp add: row_get_const o(1) bump_def same_economics_def pending_quantity_def)
  then show ?thesis
  proof (intro oms_inv_step [OF inv row _ _ eq(1,2)])
    show "order_ok sha (bump c) (view_of orig s') (events_of orig s @ [new_event sha orig (last_event_sequence c + 1)
        ''REPLACED_BY'' t (head_hash (events_of orig s)) (replaced_members rid reason)])"
      by (rule order_ok_replaced [OF o(2) state _ own refl])
        (simp_all add: view_of_def replacement_for_def none o(1))
  qed (auto simp: eq view l o(1) bump_def new_event_def keeps_links_def same_order_def)
qed

lemma replace_cancelled_inv:
  assumes inv: "oms_inv sha s" and cash: "cash_intent o1" and sha: "digest sha"
  shows "oms_inv sha (fst (replace_cancelled sha orig o1 decision reason when s))"
  unfolding replace_cancelled_def
proof (rule finish_inv [where P = "oms_inv sha"], rule inv, goal_cases)
  case (1 s' x)
  show ?case
  proof (cases "row_get rl_original orig (replacements s)")
    case (Some l)
    with 1 have "s' = s" by (auto simp: res_simps split: if_splits)
    with inv show ?thesis by simp
  next
    case None
    with 1 obtain t rid c s1 s2 where t: "when = Aware t" and rid: "make_client_order_id sha o1 decision = Inr rid"
      and row: "row_get om_id orig (orders s) = Some c" and chk: "check_replaceable c o1 = Inr ()"
      and new: "row_get om_id rid (orders s) = None"
      and ins: "insert_created sha o1 decision rid (Aware t) t [(''replacesClientOrderId'', JStr orig)] s = Inr s1"
      and link: "insert_link \<lparr>rl_original = orig, rl_replacement = rid, rl_reason = strip reason, rl_at = t\<rparr> s1 = Inr s2"
      and app: "append_event sha orig ''REPLACED_BY'' when (replaced_members rid reason) s2 = Inr s'"
      by (auto simp: res_simps stored_order_Inr [OF inv] replaced_members_def split: if_splits)
    have inv1: "oms_inv sha s1"
      by (rule insert_created_inv [OF inv new cash client_id_valid [OF sha rid] _ ins]) (simp add: lineage_ok_def)
    from insert_created_Inr [OF inv new cash ins] obtain ev where
      s1: "s1 = s\<lparr>orders := orders s @ [bump (new_row rid o1 None t)], events := events s @ [ev]\<rparr>" by metis
    have "row_get om_id orig (orders s1) = Some c" by (simp add: s1 row_get_append row)
    moreover have "row_get om_id rid (orders s1) = Some (bump (new_row rid o1 None t))"
      by (simp add: s1 row_get_append new bump_def new_row_def)
    moreover have "rid \<noteq> orig" using row new by auto
    moreover have "om_state c = CANCELLED" "same_economics c (bump (new_row rid o1 None t))"
      "requested_quantity (bump (new_row rid o1 None t)) \<le> pending_quantity c"
      using check_replaceable_Inr [OF chk cash] by (simp_all add: same_economics_def bump_def new_row_def)
    moreover have "row_get rl_original orig (replacements s1) = None" by (simp add: s1 None)
    ultimately show ?thesis
      by (rule link_inserted_inv [OF inv1, where l = "\<lparr>rl_original = orig, rl_replacement = rid,
              rl_reason = strip reason, rl_at = t\<rparr>"])
        (use app insert_link_Inr [OF link] in simp_all)
  qed
qed

text \<open>A fill, without a paper recovery proof.\<close>

lemma apply_fill_inv:
  assumes inv: "oms_inv sha s" and row: "row_get om_id cid (orders s) = Some c"
    and qty: "0 < qty" and price: "dpos price" and fresh: "row_get fl_id fid (fills s) = None"
    and source: "\<And>t. when = Aware t \<Longrightarrow> source_ok sha c (view_of cid s) fid t b source" and b: "b \<noteq> Some []"
    and app: "apply_fill sha c fid qty price b when source None s = Inr s'"
  shows "oms_inv sha s'"
proof -
  note o = oms_inv_order [OF inv row]
  let ?n = "filled_quantity c + qty"
  let ?u = "fill_target c ?n"
  from app obtain a broker t where fill: "fillable (om_state c)" "?n \<le> requested_quantity c"
    and average: "ddiv (dadd (prior_notional cid s) (dmul price (dec_of_int qty))) (dec_of_int ?n) = Inr a"
    and allowed: "allowed (om_state c) ?u" and broker: "broker_identity (broker_order_id c) b = Inr broker"
    and t: "when = Aware t"
    and ev: "append_event sha cid ''FILL'' when (fill_members fid qty price ?n a ?u broker source None)
        (s\<lparr>fills := fills s @ [fill_row cid fid qty price t b],
           orders := row_upd om_id cid (\<lambda>r. r\<lparr>om_state := ?u, filled_quantity := ?n,
              average_fill_price := Some a, broker_order_id := broker, updated_at := t\<rparr>) (orders s)\<rparr>) = Inr s'"
    by (auto simp: apply_fill_def res_simps o(1) fill_row_def Let_def not_less)
  let ?d = "bump (c\<lparr>om_state := ?u, filled_quantity := ?n, average_fill_price := Some a,
      broker_order_id := broker, updated_at := t\<rparr>)"
  from append_after_update [OF inv row _ _ _ _ ev, of "\<lambda>r. r\<lparr>om_state := ?u, filled_quantity := ?n,
      average_fill_price := Some a, broker_order_id := broker, updated_at := t\<rparr>"] t
  have eq: "orders s' = row_upd om_id cid (\<lambda>_. ?d) (orders s)"
    "events s' = events s @ [new_event sha cid (last_event_sequence c + 1) ''FILL'' t
        (head_hash (events_of cid s)) (fill_members fid qty price ?n a ?u broker source None)]"
    "fills s' = fills s @ [fill_row cid fid qty price t b]" "bindings s' = bindings s"
    "replacements s' = replacements s" "recoveries s' = recoveries s" "schema_version s' = schema_version s"
    by auto
  have view: "view_of k s' = view_of k s" if "k \<noteq> cid" for k
    by (rule view_eqI) (use that in \<open>auto simp: eq fill_row_def\<close>)
  have own: "view_of cid s' = (view_of cid s)\<lparr>vw_fills := vw_fills (view_of cid s) @ [fill_row cid fid qty price t b]\<rparr>"
    by (simp add: view_of_def eq broker_evidence_binding_def replacement_for_def fill_row_def)
  have new: "fid \<notin> fl_id ` set (vw_fills (view_of cid s))"
    using fresh by (auto simp: row_get_None_iff view_of_def)
  have prior: "prior_notional cid s = dsum (map fill_notional (vw_fills (view_of cid s)))"
    by (simp add: prior_notional_def view_of_def fill_notional_def [abs_def])
  show ?thesis
  proof (rule oms_inv_step [OF inv row _ _ eq(1,2)])
    show "order_ok sha ?d (view_of cid s') (events_of cid s @ [new_event sha cid (last_event_sequence c + 1) ''FILL'' t
          (head_hash (events_of cid s)) (fill_members fid qty price ?n a ?u broker source None)])"
      using average unfolding prior
      by (intro order_ok_fill [OF o(2) fill(1) qty price new fill(2) _ refl allowed broker b source [OF t] _ refl])
        (simp_all add: own o(1))
  qed (use fill(1) in \<open>auto simp: eq view o(1) bump_def new_event_def keeps_links_def same_order_def fill_row_def fillable_def\<close>)
qed

lemma check_source_op:
  assumes inv: "oms_inv sha s" and row: "row_get om_id cid (orders s) = Some c"
    and distinct: "\<And>v. source_identity = Some v \<Longrightarrow> distinct (map fst v)"
    and source: "(case source_identity of None \<Rightarrow> Inr None
        | Some v \<Rightarrow> ebind (execution_identity v) (\<lambda>src. Inr (Some src))) = Inr source"
    and kite: "\<not> (starts_with ''KITE2:'' fid \<and> source = None)"
    and ident: "(case source of None \<Rightarrow> Inr () | Some src \<Rightarrow> ebind (external_fill_id sha src) (\<lambda>x.
            if x \<noteq> fid \<or> Some (execution_value src ''brokerOrderId'') \<noteq> b
            then Inl (ValueError ''external_fill_identity_mismatch'') else Inr ())) = Inr u"
    and scope: "check_fill_source b cid (Aware t) source s = Inr u'"
  shows "source_ok sha c (view_of cid s) fid t b source"
proof (cases source_identity)
  case None
  with source kite show ?thesis by (auto simp: source_ok_def)
next
  case (Some v)
  with source have v: "execution_identity v = Inr v" "source = Some v"
    by (auto simp: res_simps dest: execution_identity_Inr)
  have "get_order cid s = Inr c"
    using scope v(2) row oms_inv_order(4) [OF inv row]
    by (auto simp: check_fill_source_def get_order_def res_simps)
  with scope v have "assert_fill_source v (om_tenant c) b (Aware t) (map_option binding_scope (vw_binding (view_of cid s))) = Inr ()"
    by (simp add: check_fill_source_def view_of_def)
  with ident v distinct [OF Some] show ?thesis
    by (auto simp: source_ok_def res_simps split: if_splits)
qed

lemma fill_checks_Inr:
  assumes "fill_checks sha outer cid fid qty amount b source_identity paper = Inr (price, source, recovery)"
  shows "0 < qty" "opt_id ''broker_order_id'' b = Inr ()" "dpos price"
    "(case source_identity of None \<Rightarrow> Inr None
        | Some v \<Rightarrow> ebind (execution_identity v) (\<lambda>src. Inr (Some src))) = Inr source"
    "paper = None \<Longrightarrow> recovery = None" "\<not> (starts_with ''KITE2:'' fid \<and> source = None)"
    "(case source of None \<Rightarrow> Inr () | Some src \<Rightarrow> ebind (external_fill_id sha src) (\<lambda>x.
            if x \<noteq> fid \<or> Some (execution_value src ''brokerOrderId'') \<noteq> b
            then Inl (ValueError ''external_fill_identity_mismatch'') else Inr ())) = Inr ()"
proof -
  have "0 < qty \<and> opt_id ''broker_order_id'' b = Inr () \<and> dpos price
    \<and> (case source_identity of None \<Rightarrow> Inr None
        | Some v \<Rightarrow> ebind (execution_identity v) (\<lambda>src. Inr (Some src))) = Inr source
    \<and> (paper = None \<longrightarrow> recovery = None) \<and> \<not> (starts_with ''KITE2:'' fid \<and> source = None)
    \<and> (case source of None \<Rightarrow> Inr () | Some src \<Rightarrow> ebind (external_fill_id sha src) (\<lambda>x.
            if x \<noteq> fid \<or> Some (execution_value src ''brokerOrderId'') \<noteq> b
            then Inl (ValueError ''external_fill_identity_mismatch'') else Inr ())) = Inr ()"
    using assms unfolding fill_checks_def if_Inl_eq_Inr ebind_eq_Inr
    by (elim conjE exE) (auto simp: dec_order split: dec_lit.splits if_splits)
  then show "0 < qty" "opt_id ''broker_order_id'' b = Inr ()" "dpos price"
    "(case source_identity of None \<Rightarrow> Inr None
        | Some v \<Rightarrow> ebind (execution_identity v) (\<lambda>src. Inr (Some src))) = Inr source"
    "paper = None \<Longrightarrow> recovery = None" "\<not> (starts_with ''KITE2:'' fid \<and> source = None)"
    "(case source of None \<Rightarrow> Inr () | Some src \<Rightarrow> ebind (external_fill_id sha src) (\<lambda>x.
            if x \<noteq> fid \<or> Some (execution_value src ''brokerOrderId'') \<noteq> b
            then Inl (ValueError ''external_fill_identity_mismatch'') else Inr ())) = Inr ()"
    by blast+
qed

lemma fill_order_inv:
  assumes inv: "oms_inv sha s" and distinct: "\<And>v. source_identity = Some v \<Longrightarrow> distinct (map fst v)"
  shows "oms_inv sha (fst (fill_order sha outer cid fid qty amount b when source_identity None s))"
  unfolding fill_order_def
proof (rule finish_inv [where P = "oms_inv sha"], rule inv, goal_cases)
  case (1 s' x)
  show ?case
  proof (cases "row_get fl_id fid (fills s)")
    case (Some f)
    with 1 have "s' = s" by (auto simp: res_simps duplicate_fill_def split: if_splits)
    with inv show ?thesis by simp
  next
    case None
    with 1 obtain price source recovery c
      where checks: "fill_checks sha outer cid fid qty amount b source_identity None = Inr (price, source, recovery)"
        and scope: "check_fill_source b cid when source s = Inr ()"
        and row: "row_get om_id cid (orders s) = Some c"
        and app: "apply_fill sha c fid qty price b when source recovery s = Inr s'"
      by (auto simp: res_simps stored_order_Inr [OF inv])
    note k = fill_checks_Inr [OF checks]
    show ?thesis
    proof (rule apply_fill_inv [OF inv row k(1,3) None _ _ app [unfolded k(5) [OF refl]]])
      show "b \<noteq> Some []" using k(2) by (rule opt_id_nonempty)
      show "source_ok sha c (view_of cid s) fid t b source" if "when = Aware t" for t
        by (rule check_source_op [OF inv row distinct k(4,6,7) scope [unfolded that]])
    qed
  qed
qed

subsection \<open>Commands and runs\<close>

datatype oms_command =
    Create OrderIntent string datetime
  | ApproveRisk string datetime
  | Submitted string "string option" datetime
  | SubmissionUncertain string string datetime
  | Reject string string datetime
  | Cancel string string datetime
  | BindBrokerIdentity string string string datetime
  | BindBrokerEvidence evidence_binding datetime
  | ReplaceCancelled string OrderIntent string string datetime
  | Fill string string int dec_lit "string option" datetime "execution option"

definition oms_exec :: "(string \<Rightarrow> string) \<Rightarrow> oms \<Rightarrow> oms_command \<Rightarrow> oms" where
  "oms_exec sha s x =
     (case x of
        Create o1 decision when \<Rightarrow> fst (create sha o1 decision when s)
      | ApproveRisk cid when \<Rightarrow> fst (approve_risk sha cid when s)
      | Submitted cid b when \<Rightarrow> fst (submitted sha cid b when s)
      | SubmissionUncertain cid reason when \<Rightarrow> fst (submission_uncertain sha cid reason when s)
      | Reject cid reason when \<Rightarrow> fst (reject sha cid reason when s)
      | Cancel cid reason when \<Rightarrow> fst (cancel_order sha cid reason when s)
      | BindBrokerIdentity cid b reason when \<Rightarrow> fst (bind_broker_identity sha cid b reason when s)
      | BindBrokerEvidence b when \<Rightarrow> fst (bind_broker_evidence sha b when s)
      | ReplaceCancelled cid o1 decision reason when \<Rightarrow> fst (replace_cancelled sha cid o1 decision reason when s)
      | Fill cid fid qty amount b when src \<Rightarrow> fst (fill_order sha False cid fid qty amount b when src None s))"

definition oms_run :: "(string \<Rightarrow> string) \<Rightarrow> oms_command list \<Rightarrow> oms" where
  "oms_run sha xs = foldl (oms_exec sha) oms_empty xs"

text \<open>Orders without a bound instrument whose price texts fit, and sources that are dictionaries.\<close>

definition plain_command :: "oms_command \<Rightarrow> bool" where
  "plain_command x =
     (case x of
        Create o1 _ _ \<Rightarrow> cash_intent o1
      | ReplaceCancelled _ o1 _ _ _ \<Rightarrow> cash_intent o1
      | Fill _ _ _ _ _ _ src \<Rightarrow> (case src of None \<Rightarrow> True | Some v \<Rightarrow> distinct (map fst v))
      | _ \<Rightarrow> True)"

lemma oms_empty_inv: "oms_inv sha oms_empty"
  by (simp add: oms_inv_def oms_empty_def known_rows_def)

lemma oms_exec_inv:
  assumes "oms_inv sha s" "plain_command x" "digest sha"
  shows "oms_inv sha (oms_exec sha s x)"
  using assms
  by (cases x)
    (auto simp: oms_exec_def plain_command_def approve_risk_def submitted_def submission_uncertain_def reject_def
      cancel_order_def with_reason_def plain_target_def create_inv replace_cancelled_inv bind_broker_identity_inv
      bind_broker_evidence_inv intro!: transition_inv fill_order_inv)

lemma oms_run_inv: "list_all plain_command xs \<Longrightarrow> digest sha \<Longrightarrow> oms_inv sha (oms_run sha xs)"
  unfolding oms_run_def
  by (induction xs rule: rev_induct) (auto simp: oms_empty_inv oms_exec_inv)

lemma oms_inv_verifies:
  assumes "oms_inv sha s" "row_get om_id cid (orders s) = Some c"
  shows "verify_oms sha cid s = Inr \<lparr>rep_order = cid, rep_state = om_state c,
    rep_events = last_event_sequence c, rep_filled = filled_quantity c, rep_pending = pending_quantity c,
    rep_head = head_hash (events_of cid s)\<rparr>"
proof -
  note o = oms_inv_order [OF assms]
  have "id_match 128 cid" using o(1,3) by (simp add: row_ok_def)
  then have "get_order cid s = Inr c" using o(4) assms(2) by (simp add: get_order_def check_id_def)
  then show ?thesis using order_ok_verifies [OF o(2)] by (simp add: verify_oms_def o(1))
qed

subsection \<open>Properties\<close>


text \<open>C9: quantities are conserved. After any run, the filled quantity of every order is the sum of
  its recorded fills, lies between zero and the requested quantity, and equals it exactly when
  the order is FILLED; and the fills of a cancelled order and of the order that replaces it
  together never exceed what the original order requested, for the same tenant, strategy,
  contract and side.\<close>

theorem oms_quantities_conserved:
  assumes "digest sha" "list_all plain_command xs"
  shows "(\<forall>c \<in> set (orders (oms_run sha xs)).
      filled_quantity c = sum_list (map fl_quantity (filter (\<lambda>f. fl_order f = om_id c) (fills (oms_run sha xs))))
      \<and> 0 \<le> filled_quantity c \<and> filled_quantity c \<le> requested_quantity c
      \<and> (om_state c = FILLED \<longleftrightarrow> filled_quantity c = requested_quantity c))
    \<and> (\<forall>l \<in> set (replacements (oms_run sha xs)). \<exists>c d.
      row_get om_id (rl_original l) (orders (oms_run sha xs)) = Some c
      \<and> row_get om_id (rl_replacement l) (orders (oms_run sha xs)) = Some d
      \<and> om_state c = CANCELLED \<and> same_economics c d
      \<and> filled_quantity c + filled_quantity d \<le> requested_quantity c)"
proof -
  let ?s = "oms_run sha xs"
  have inv: "oms_inv sha ?s" by (rule oms_run_inv [OF assms(2,1)])
  have quantities: "filled_quantity c = sum_list (map fl_quantity (filter (\<lambda>f. fl_order f = om_id c) (fills ?s)))
      \<and> 0 \<le> filled_quantity c \<and> filled_quantity c \<le> requested_quantity c
      \<and> (om_state c = FILLED \<longleftrightarrow> filled_quantity c = requested_quantity c)" if "c \<in> set (orders ?s)" for c
    using inv that by (auto simp: oms_inv_def row_ok_def fills_agree_def view_of_def elim!: order_okE dest!: bspec)
  moreover have "\<exists>c d. row_get om_id (rl_original l) (orders ?s) = Some c
      \<and> row_get om_id (rl_replacement l) (orders ?s) = Some d
      \<and> om_state c = CANCELLED \<and> same_economics c d
      \<and> filled_quantity c + filled_quantity d \<le> requested_quantity c" if "l \<in> set (replacements ?s)" for l
  proof -
    have "link_ok ?s l" using inv that by (simp add: oms_inv_def)
    then obtain c d where cd: "row_get om_id (rl_original l) (orders ?s) = Some c"
      "row_get om_id (rl_replacement l) (orders ?s) = Some d" "om_state c = CANCELLED" "same_economics c d"
      "requested_quantity d \<le> pending_quantity c" by (auto simp: link_ok_def)
    have "filled_quantity d \<le> requested_quantity d" using oms_inv_order(3) [OF inv cd(2)] by (simp add: row_ok_def)
    with cd show ?thesis by (auto simp: pending_quantity_def)
  qed
  ultimately show ?thesis by blast
qed

text \<open>A run with one order, for the witnesses.\<close>

definition sample_sha :: "string \<Rightarrow> string" where
  "sample_sha x = replicate 64 (CHR ''0'')"

definition sample_id :: string where
  "sample_id = ''OMS-'' @ replicate 40 (CHR ''0'')"

lemma sample_run_facts: "digest sample_sha" "list_all plain_command [Create sample_order ''d1'' (Aware 0)]"
  using sample_order_facts
  by (simp_all add: digest_def sample_sha_def sha_match_def list_all_replicate plain_command_def cash_intent_def)

lemma sample_run: "orders (oms_run sample_sha [Create sample_order ''d1'' (Aware 0)])
    = [bump (new_row sample_id sample_order None 0)]"
  "fills (oms_run sample_sha [Create sample_order ''d1'' (Aware 0)]) = []"
proof -
  have ident: "bound_identity sample_order = Inr None" by (simp add: bound_identity_def sample_order_facts)
  have valid: "snapshot_valid sample_order" by (rule sample_order_facts)
  obtain t where t: "canonical_order_intent sample_order = Inr t"
    using valid ident by (auto simp: canonical_order_intent_Inr)
  have id: "make_client_order_id sample_sha sample_order ''d1'' = Inr sample_id"
    using ident by (simp add: make_client_order_id_def oms_hash_def sample_sha_def sample_id_def strip_def
        lstrip_def is_space_def)
  have "\<exists>s'. insert_created sample_sha sample_order ''d1'' sample_id (Aware 0) 0 [] oms_empty = Inr s'
      \<and> orders s' = [bump (new_row sample_id sample_order None 0)] \<and> fills s' = []"
    by (simp add: insert_created_def ident t append_event_def oms_empty_def new_row_def bump_def Let_def)
  then show "orders (oms_run sample_sha [Create sample_order ''d1'' (Aware 0)])
      = [bump (new_row sample_id sample_order None 0)]"
    "fills (oms_run sample_sha [Create sample_order ''d1'' (Aware 0)]) = []"
    using valid id
    by (auto simp: oms_run_def oms_exec_def create_def finish_def snapshot_valid_def oms_empty_def)
qed


theorem oms_quantities_conserved_witness:
  "\<exists>c. orders (oms_run sample_sha [Create sample_order ''d1'' (Aware 0)]) = [c] \<and> requested_quantity c = 10
     \<and> 0 \<le> filled_quantity c \<and> filled_quantity c \<le> 10"
proof -
  let ?c = "bump (new_row sample_id sample_order None 0)"
  have "requested_quantity ?c = 10" by (simp add: bump_def new_row_def sample_order_def)
  moreover have "?c \<in> set (orders (oms_run sample_sha [Create sample_order ''d1'' (Aware 0)]))"
    by (simp add: sample_run)
  from bspec [OF conjunct1 [OF oms_quantities_conserved [OF sample_run_facts]] this] calculation
  have "0 \<le> filled_quantity ?c \<and> filled_quantity ?c \<le> 10" by simp
  ultimately show ?thesis by (simp add: sample_run)
qed

end
