(* ===== verification/OmsTrust.thy ===== *)
theory OmsTrust
  imports OmsVerify
begin

text \<open>
  What \<open>verify\<close> guarantees about a journal nobody vouches for, for instance after a restart or
  an edit of the database file, and that redelivered fills are harmless.
\<close>

subsection \<open>Soundness of verify\<close>

lemma foldr_res_invariant:
  assumes "foldr_res f s xs = Inr r" "P s" "\<And>s x s'. x \<in> set xs \<Longrightarrow> P s \<Longrightarrow> f s x = Inr s' \<Longrightarrow> P s'"
  shows "P r"
  using assms by (induction xs arbitrary: s) (auto simp: res_simps)

definition replay_sound :: "oms_order \<Rightarrow> replay \<Rightarrow> bool" where
  "replay_sound c st \<longleftrightarrow> (\<exists>ts. run_lifecycle CREATED ts = Inr (rp_state st))
     \<and> rp_total st = sum_list (map (fst \<circ> snd) (rp_fills st)) \<and> distinct (map fst (rp_fills st))
     \<and> list_all (\<lambda>x. 0 < fst (snd x)) (rp_fills st)
     \<and> (rp_fills st \<noteq> [] \<longrightarrow> rp_total st \<le> requested_quantity c)"

lemma run_lifecycle_step:
  assumes "run_lifecycle CREATED ts = Inr s" "lifecycle_transition s t = Inr u"
  shows "run_lifecycle CREATED (ts @ [t]) = Inr u"
  using assms by (simp add: run_lifecycle_def foldr_res_snoc)

lemma replay_created_state: "replay_created c n e ms st = Inr st' \<Longrightarrow> st' = st"
  by (auto simp: replay_created_def res_simps)

lemma replay_fill_Inr:
  assumes "replay_fill sha c v e ms st = Inr st'"
  obtains qty fid price u broker where "0 < qty" "fid \<notin> fst ` set (rp_fills st)"
    "rp_total st + qty \<le> requested_quantity c" "lifecycle_transition (rp_state st) u = Inr (rp_state st')"
    "rp_total st' = rp_total st + qty" "rp_fills st' = rp_fills st @ [(fid, qty, price, ev_at e, broker)]"
proof -
  obtain qty where qty: "jget ''quantity'' ms = Some (JInt qty)" "0 < qty"
    using assms by (auto simp: replay_fill_def res_simps split: option.splits json.splits if_splits)
  show ?thesis
    using assms that qty
    by (auto simp: replay_fill_def res_simps Let_def not_less)
qed

lemma replay_kind_sound:
  assumes "replay_kind sha c v n e ms st = Inr st'" "replay_sound c st"
  shows "replay_sound c st'"
proof -
  consider (created) "replay_created c n e ms st = Inr st'"
    | (fill) "replay_fill sha c v e ms st = Inr st'" | (binding) "replay_binding v ms st = Inr st'"
    | (observed) "replay_broker_observed ms st = Inr st'" | (replaced) "replay_replaced v ms st = Inr st'"
    | (transition) u where "replay_transition u ms st = Inr st'"
    using assms(1) by (auto simp: replay_kind_def res_simps split: if_splits)
  then show ?thesis
  proof cases
    case created
    with assms(2) show ?thesis by (auto dest: replay_created_state)
  next
    case fill
    then obtain qty fid price u broker where f: "0 < qty" "fid \<notin> fst ` set (rp_fills st)"
      "rp_total st + qty \<le> requested_quantity c" "lifecycle_transition (rp_state st) u = Inr (rp_state st')"
      "rp_total st' = rp_total st + qty" "rp_fills st' = rp_fills st @ [(fid, qty, price, ev_at e, broker)]"
      by (rule replay_fill_Inr)
    from assms(2) obtain ts where "run_lifecycle CREATED ts = Inr (rp_state st)" by (auto simp: replay_sound_def)
    from run_lifecycle_step [OF this f(4)] f assms(2) show ?thesis by (auto simp: replay_sound_def)
  next
    case binding
    with assms(2) show ?thesis by (auto simp: replay_binding_def replay_sound_def split: if_splits option.splits)
  next
    case observed
    with assms(2) show ?thesis by (auto simp: replay_broker_observed_def replay_sound_def res_simps)
  next
    case replaced
    with assms(2) show ?thesis by (auto simp: replay_replaced_def split: if_splits)
  next
    case transition
    then obtain x broker where t: "lifecycle_transition (rp_state st) u = Inr x"
      "st' = st\<lparr>rp_state := x, rp_broker := broker\<rparr>"
      unfolding replay_transition_def if_Inl_eq_Inr ebind_eq_Inr by blast
    from assms(2) obtain ts where "run_lifecycle CREATED ts = Inr (rp_state st)" by (auto simp: replay_sound_def)
    from run_lifecycle_step [OF this t(1)] assms(2) show ?thesis
      by (auto simp: replay_sound_def t(2))
  qed
qed

lemma replay_events_sound:
  assumes "replay_events sha c v es = Inr rp"
  shows "replay_sound c rp"
  using assms unfolding replay_events_def
proof (rule foldr_res_invariant)
  have "run_lifecycle CREATED [] = Inr CREATED" by (simp add: run_lifecycle_def)
  then show "replay_sound c replay_init" by (auto simp: replay_sound_def replay_init_def)
  fix st ne st'
  assume "replay_sound c st" "replay_event sha c v st ne = Inr st'"
  moreover have "replay_sound c (st\<lparr>rp_previous := h\<rparr>) = replay_sound c st" for h
    by (simp add: replay_sound_def)
  ultimately show "replay_sound c st'"
    by (auto simp: replay_event_def Let_def intro: replay_kind_sound split: if_splits option.splits json.splits)
qed

lemma sum_by_key:
  assumes "distinct (map k xs)" "distinct (map fst ys)" "k ` set xs = fst ` set ys"
    and "\<And>x. x \<in> set xs \<Longrightarrow> \<exists>y \<in> set ys. fst y = k x \<and> g y = (f x :: int)"
  shows "sum_list (map f xs) = sum_list (map g ys)"
proof -
  define h where "h i = g (the (find (\<lambda>y. fst y = i) ys))" for i
  have hy: "h (fst y) = g y" if "y \<in> set ys" for y
  proof -
    have "find (\<lambda>y'. fst y' = fst y) ys = Some y"
      using that assms(2) by (induction ys) auto
    then show ?thesis by (simp add: h_def)
  qed
  have hx: "h (k x) = f x" if "x \<in> set xs" for x
    using assms(4) [OF that] hy by force
  have "sum_list (map f xs) = sum_list (map h (map k xs))"
    using hx by (auto intro!: arg_cong [of _ _ sum_list])
  also have "\<dots> = (\<Sum>i \<in> k ` set xs. h i)"
    using assms(1) sum_list_distinct_conv_sum_set [of "map k xs" h] by simp
  also have "\<dots> = sum_list (map h (map fst ys))"
    using assms(2,3) sum_list_distinct_conv_sum_set [of "map fst ys" h] by simp
  also have "\<dots> = sum_list (map g ys)"
    using hy by (auto intro!: arg_cong [of _ _ sum_list])
  finally show ?thesis .
qed

lemma decode_row_fields:
  assumes "decode_row r = Inr c"
  shows "om_id c = om_id r" "om_state c = om_state r" "om_tenant c = om_tenant r"
    "requested_quantity c = requested_quantity r" "filled_quantity c = filled_quantity r"
  using assms by (auto simp: decode_row_def res_simps)



subsection \<open>Tamper evidence\<close>

definition log_link :: "(string \<Rightarrow> string) \<Rightarrow> string \<Rightarrow> nat \<Rightarrow> string option \<Rightarrow> oms_event \<Rightarrow> bool" where
  "log_link sha cid n prev e \<longleftrightarrow> ev_sequence e = n \<and> previous_hash e = prev
     \<and> (\<exists>p. loads (ev_payload e) = Some p \<and> event_hash e = oms_hash sha (event_body cid n (ev_kind e) (ev_at e) prev p))"

definition log_chain :: "(string \<Rightarrow> string) \<Rightarrow> string \<Rightarrow> oms_event list \<Rightarrow> bool" where
  "log_chain sha cid es \<longleftrightarrow> (\<forall>i < length es. log_link sha cid (i + 1) (head_hash (take i es)) (es ! i))"

lemma log_chain_snoc:
  "log_chain sha cid (es @ [e]) \<longleftrightarrow> log_chain sha cid es \<and> log_link sha cid (length es + 1) (head_hash es) e"
  by (auto simp: log_chain_def nth_append less_Suc_eq)

lemma replay_kind_previous: "replay_kind sha c v n e ms st = Inr st' \<Longrightarrow> rp_previous st' = rp_previous st"
  by (auto simp: replay_kind_def replay_created_def replay_binding_def replay_broker_observed_def replay_replaced_def
      replay_transition_def replay_fill_def res_simps Let_def split: if_splits option.splits)

lemma replay_event_link:
  assumes "replay_event sha c v st (n, e) = Inr st'"
  shows "log_link sha (om_id c) n (rp_previous st) e \<and> rp_previous st' = Some (event_hash e)"
  using assms
  by (auto simp: replay_event_def log_link_def split: if_splits option.splits json.splits
      dest: replay_kind_previous)

lemma replay_events_chain:
  "replay_events sha c v es = Inr rp \<Longrightarrow> log_chain sha (om_id c) es \<and> rp_previous rp = head_hash es"
proof (induction es arbitrary: rp rule: rev_induct)
  case Nil
  then show ?case by (auto simp: replay_events_def log_chain_def replay_init_def head_hash_def)
next
  case (snoc e es)
  then obtain st where st: "replay_events sha c v es = Inr st" "replay_event sha c v st (length es + 1, e) = Inr rp"
    unfolding replay_snoc ebind_eq_Inr by blast
  from snoc.IH [OF st(1)] replay_event_link [OF st(2)] show ?case
    by (simp add: log_chain_snoc) (simp add: head_hash_def)
qed

text \<open>The content of an event; the payload as the value its text denotes.\<close>

definition event_facts :: "oms_event \<Rightarrow> nat \<times> string \<times> string \<times> string option \<times> json option" where
  "event_facts e = (ev_sequence e, ev_kind e, iso_utc (ev_at e), previous_hash e, map_option canon (loads (ev_payload e)))"

lemma opt_json_str_inj: "opt_json JStr a = opt_json JStr b \<Longrightarrow> a = b"
  by (cases a; cases b) (simp_all add: opt_json_def)

lemma event_body_inj:
  assumes "dumps (event_body cid n k t p j) = dumps (event_body cid' n' k' t' p' j')"
  shows "cid = cid' \<and> n = n' \<and> k = k' \<and> iso_utc t = iso_utc t' \<and> p = p' \<and> canon j = canon j'"
proof -
  have "canon_members [(''clientOrderId'', JStr cid), (''sequence'', JInt (int n)), (''kind'', JStr k),
      (''at'', JStr (iso_utc t)), (''previousHash'', opt_json JStr p), (''payload'', j)] =
    canon_members [(''clientOrderId'', JStr cid'), (''sequence'', JInt (int n')), (''kind'', JStr k'),
      (''at'', JStr (iso_utc t')), (''previousHash'', opt_json JStr p'), (''payload'', j')]"
    using assms by (simp add: event_body_def)
  then have "jget key (canon_members [(''clientOrderId'', JStr cid), (''sequence'', JInt (int n)), (''kind'', JStr k),
      (''at'', JStr (iso_utc t)), (''previousHash'', opt_json JStr p), (''payload'', j)]) =
    jget key (canon_members [(''clientOrderId'', JStr cid'), (''sequence'', JInt (int n')), (''kind'', JStr k'),
      (''at'', JStr (iso_utc t')), (''previousHash'', opt_json JStr p'), (''payload'', j')])" for key by simp
  from this [of "''clientOrderId''"] this [of "''sequence''"] this [of "''kind''"] this [of "''at''"]
    this [of "''previousHash''"] this [of "''payload''"]
  show ?thesis by (simp add: jget_canon_members opt_json_str_inj)
qed

lemma log_chain_determined:
  assumes "log_chain sha cid es" "log_chain sha cid' fs" "head_hash es = head_hash fs"
  shows "map event_facts es = map event_facts fs \<or> (\<exists>a b. a \<noteq> b \<and> sha a = sha b)"
  using assms
proof (induction es arbitrary: fs rule: rev_induct)
  case Nil
  then show ?case by (auto simp: head_hash_def split: if_splits)
next
  case (snoc e es)
  from snoc.prems(3) have "fs \<noteq> []" by (auto simp: head_hash_def)
  then obtain gs g where fs: "fs = gs @ [g]" by (metis append_butlast_last_id)
  from snoc.prems have e: "log_chain sha cid es" "log_link sha cid (length es + 1) (head_hash es) e"
    and g: "log_chain sha cid' gs" "log_link sha cid' (length gs + 1) (head_hash gs) g"
    and hash: "event_hash e = event_hash g"
    by (simp_all add: fs log_chain_snoc head_hash_def [of "_ @ _"])
  from e(2) obtain p where p: "loads (ev_payload e) = Some p"
    "event_hash e = sha (dumps (event_body cid (length es + 1) (ev_kind e) (ev_at e) (head_hash es) p))"
    by (auto simp: log_link_def oms_hash_def)
  from g(2) obtain q where q: "loads (ev_payload g) = Some q"
    "event_hash g = sha (dumps (event_body cid' (length gs + 1) (ev_kind g) (ev_at g) (head_hash gs) q))"
    by (auto simp: log_link_def oms_hash_def)
  show ?case
  proof (cases "\<exists>a b. a \<noteq> b \<and> sha a = sha b")
    case True
    then show ?thesis ..
  next
    case False
    with hash p(2) q(2) have "dumps (event_body cid (length es + 1) (ev_kind e) (ev_at e) (head_hash es) p)
        = dumps (event_body cid' (length gs + 1) (ev_kind g) (ev_at g) (head_hash gs) q)" by metis
    from event_body_inj [OF this] have eq: "length es = length gs" "ev_kind e = ev_kind g"
      "iso_utc (ev_at e) = iso_utc (ev_at g)" "head_hash es = head_hash gs" "canon p = canon q" by simp_all
    from snoc.IH [OF e(1) g(1) eq(4)] False have "map event_facts es = map event_facts gs" by blast
    moreover have "event_facts e = event_facts g"
      using e(2) g(2) eq p(1) q(1) by (simp add: event_facts_def log_link_def)
    ultimately show ?thesis by (simp add: fs)
  qed
qed



subsection \<open>Redelivered fills\<close>

record fill_report =
  fr_order :: string
  fr_fill :: string
  fr_quantity :: int
  fr_price :: dec_lit
  fr_broker :: "string option"
  fr_when :: datetime
  fr_source :: "execution option"

definition deliver_fill :: "(string \<Rightarrow> string) \<Rightarrow> fill_report \<Rightarrow> oms \<Rightarrow> oms res" where
  "deliver_fill sha m s =
     (case fill_order sha False (fr_order m) (fr_fill m) (fr_quantity m) (fr_price m) (fr_broker m)
             (fr_when m) (fr_source m) None s of
        (s', Inl e) \<Rightarrow> Inl e
      | (s', Inr r) \<Rightarrow> Inr s')"

definition fill_same :: "oms_fill \<Rightarrow> fill_report \<Rightarrow> dec \<Rightarrow> execution option \<Rightarrow> bool" where
  "fill_same f m price source \<longleftrightarrow> fl_order f = fr_order m \<and> fl_quantity f = fr_quantity m
     \<and> deq (fl_price f) price \<and> fl_broker f = fr_broker m
     \<and> (source \<noteq> None \<longrightarrow> fr_when m = Aware (fl_at f))"

definition fill_settled :: "(string \<Rightarrow> string) \<Rightarrow> fill_report \<Rightarrow> oms \<Rightarrow> bool" where
  "fill_settled sha m s \<longleftrightarrow> (\<exists>price source recovery f c.
     fill_checks sha False (fr_order m) (fr_fill m) (fr_quantity m) (fr_price m) (fr_broker m) (fr_source m) None
       = Inr (price, source, recovery)
     \<and> check_fill_source (fr_broker m) (fr_order m) (fr_when m) source s = Inr ()
     \<and> row_get fl_id (fr_fill m) (fills s) = Some f \<and> fill_same f m price source
     \<and> get_order (fr_order m) s = Inr c)"

lemma fill_settled_noop: "fill_settled sha m s \<Longrightarrow> deliver_fill sha m s = Inr s"
  by (auto simp: fill_settled_def deliver_fill_def fill_order_def finish_def duplicate_fill_def fill_same_def)

lemma apply_fill_Inr:
  assumes "apply_fill sha c fid qty price b when source recovery s = Inr s'"
  obtains t h where "when = Aware t" "fills s' = fills s @ [fill_row (om_id c) fid qty price t b]"
    "bindings s' = bindings s" "orders s' = row_upd om_id (om_id c) h (orders s)"
    "\<forall>r. om_id (h r) = om_id r \<and> om_tenant (h r) = om_tenant r"
proof -
  from assms obtain a u broker t p where t: "when = Aware t"
    and app: "append_event sha (om_id c) ''FILL'' when p
      (s\<lparr>fills := fills s @ [fill_row (om_id c) fid qty price t b],
         orders := row_upd om_id (om_id c) (\<lambda>r. r\<lparr>om_state := u, filled_quantity := filled_quantity c + qty,
            average_fill_price := Some a, broker_order_id := broker, updated_at := t\<rparr>) (orders s)\<rparr>) = Inr s'"
    by (auto simp: apply_fill_def res_simps fill_row_def Let_def)
  from app obtain n es where "s' = s\<lparr>fills := fills s @ [fill_row (om_id c) fid qty price t b],
      events := es, orders := row_upd om_id (om_id c) (\<lambda>r. r\<lparr>last_event_sequence := n\<rparr>)
        (row_upd om_id (om_id c) (\<lambda>r. r\<lparr>om_state := u, filled_quantity := filled_quantity c + qty,
            average_fill_price := Some a, broker_order_id := broker, updated_at := t\<rparr>) (orders s))\<rparr>"
    by (auto elim!: append_event_Inr)
  then show ?thesis using that t by (simp add: row_upd_comp)
qed

lemma tenant_stable:
  assumes "orders s' = row_upd om_id k h (orders s)" "\<forall>r. om_id (h r) = om_id r \<and> om_tenant (h r) = om_tenant r"
    and "get_order cid s = Inr c" "get_order cid s' = Inr c'"
  shows "om_tenant c' = om_tenant c"
  using assms
  by (auto simp: get_order_def res_simps row_get_upd dest!: decode_row_fields(3) split: option.splits if_splits)

lemma deliver_fill_Inr:
  assumes "deliver_fill sha m s = Inr s'"
  shows "(s' = s \<and> fill_settled sha m s) \<or>
    (\<exists>price source recovery c r. fill_checks sha False (fr_order m) (fr_fill m) (fr_quantity m) (fr_price m)
          (fr_broker m) (fr_source m) None = Inr (price, source, recovery)
      \<and> check_fill_source (fr_broker m) (fr_order m) (fr_when m) source s = Inr ()
      \<and> row_get fl_id (fr_fill m) (fills s) = None
      \<and> stored_order (fr_order m) s = Inr c \<and> get_order (fr_order m) s' = Inr r
      \<and> apply_fill sha c (fr_fill m) (fr_quantity m) price (fr_broker m) (fr_when m) source recovery s = Inr s')"
proof -
  obtain s'' r where out: "fill_order sha False (fr_order m) (fr_fill m) (fr_quantity m) (fr_price m) (fr_broker m)
      (fr_when m) (fr_source m) None s = (s', Inr r)"
    using assms by (auto simp: deliver_fill_def split: prod.splits sum.splits)
  then obtain price source recovery where
    checks: "fill_checks sha False (fr_order m) (fr_fill m) (fr_quantity m) (fr_price m) (fr_broker m) (fr_source m) None
      = Inr (price, source, recovery)"
    and scope: "check_fill_source (fr_broker m) (fr_order m) (fr_when m) source s = Inr ()"
    by (auto simp: fill_order_def finish_def ebind_def split: sum.splits)
  show ?thesis
  proof (cases "row_get fl_id (fr_fill m) (fills s)")
    case (Some f)
    with out checks scope have dup: "finish s (duplicate_fill f (fr_order m) (fr_quantity m) price (fr_broker m)
        (fr_when m) source s) = (s', Inr r)" by (simp add: fill_order_def)
    then obtain c where "s' = s" "fill_same f m price source" "get_order (fr_order m) s = Inr c"
      by (auto simp: finish_def duplicate_fill_def fill_same_def ebind_def split: sum.splits if_splits)
    with checks scope Some show ?thesis by (auto simp: fill_settled_def)
  next
    case None
    with out checks scope have "finish s (ebind (stored_order (fr_order m) s) (\<lambda>c.
          ebind (apply_fill sha c (fr_fill m) (fr_quantity m) price (fr_broker m) (fr_when m) source recovery s)
            (\<lambda>s'. Inr (s', Inr (fr_order m))))) = (s', Inr r)" by (simp add: fill_order_def)
    then have "\<exists>c. stored_order (fr_order m) s = Inr c \<and> get_order (fr_order m) s' = Inr r
        \<and> apply_fill sha c (fr_fill m) (fr_quantity m) price (fr_broker m) (fr_when m) source recovery s = Inr s'"
      by (auto simp: finish_def ebind_def split: sum.splits)
    with checks scope None show ?thesis by blast
  qed
qed

lemma stored_order_id: "stored_order cid s = Inr c \<Longrightarrow> om_id c = cid"
  by (auto simp: stored_order_def dest!: row_get_Some_key decode_row_fields(1) split: option.splits)

lemma check_fill_source_stable:
  assumes "check_fill_source b cid when source s = Inr ()" "get_order cid s = Inr c" "get_order cid s' = Inr c'"
    and "om_tenant c' = om_tenant c" "bindings s' = bindings s"
  shows "check_fill_source b cid when source s' = Inr ()"
  using assms by (cases source) (simp_all add: check_fill_source_def broker_evidence_binding_def)

lemma stored_get: "stored_order cid s = Inr c \<Longrightarrow> get_order cid s' = Inr c' \<Longrightarrow> get_order cid s = Inr c"
  by (auto simp: stored_order_def get_order_def res_simps)

lemma deliver_settles: "deliver_fill sha m s = Inr s' \<Longrightarrow> fill_settled sha m s'"
proof (drule deliver_fill_Inr, elim disjE exE conjE)
  fix price source recovery c r
  assume checks: "fill_checks sha False (fr_order m) (fr_fill m) (fr_quantity m) (fr_price m) (fr_broker m)
      (fr_source m) None = Inr (price, source, recovery)"
    and scope: "check_fill_source (fr_broker m) (fr_order m) (fr_when m) source s = Inr ()"
    and fresh: "row_get fl_id (fr_fill m) (fills s) = None"
    and c: "stored_order (fr_order m) s = Inr c" and r: "get_order (fr_order m) s' = Inr r"
    and app: "apply_fill sha c (fr_fill m) (fr_quantity m) price (fr_broker m) (fr_when m) source recovery s = Inr s'"
  from app obtain t h where s': "fr_when m = Aware t"
    "fills s' = fills s @ [fill_row (om_id c) (fr_fill m) (fr_quantity m) price t (fr_broker m)]"
    "bindings s' = bindings s" "orders s' = row_upd om_id (om_id c) h (orders s)"
    "\<forall>r. om_id (h r) = om_id r \<and> om_tenant (h r) = om_tenant r" by (rule apply_fill_Inr)
  note get = stored_get [OF c r]
  have "check_fill_source (fr_broker m) (fr_order m) (fr_when m) source s' = Inr ()"
    by (rule check_fill_source_stable [OF scope get r tenant_stable [OF s'(4,5) get r] s'(3)])
  moreover have "row_get fl_id (fr_fill m) (fills s') = Some (fill_row (om_id c) (fr_fill m) (fr_quantity m) price t (fr_broker m))"
    using fresh by (simp add: s'(2) row_get_append fill_row_def)
  moreover have "fill_same (fill_row (om_id c) (fr_fill m) (fr_quantity m) price t (fr_broker m)) m price source"
    by (simp add: fill_same_def fill_row_def s'(1) stored_order_id [OF c])
  ultimately show "fill_settled sha m s'" using checks r unfolding fill_settled_def by blast
qed simp

lemma deliver_stable:
  assumes "fill_settled sha m s" "deliver_fill sha m' s = Inr s'"
  shows "fill_settled sha m s'"
  using deliver_fill_Inr [OF assms(2)]
proof (elim disjE exE conjE)
  fix price' source' recovery' c' r'
  assume c': "stored_order (fr_order m') s = Inr c'" and r': "get_order (fr_order m') s' = Inr r'"
    and app: "apply_fill sha c' (fr_fill m') (fr_quantity m') price' (fr_broker m') (fr_when m') source' recovery' s = Inr s'"
  from app obtain t h where s': "fills s' = fills s @ [fill_row (om_id c') (fr_fill m') (fr_quantity m') price' t (fr_broker m')]"
    "bindings s' = bindings s" "orders s' = row_upd om_id (om_id c') h (orders s)"
    "\<forall>r. om_id (h r) = om_id r \<and> om_tenant (h r) = om_tenant r" by (rule apply_fill_Inr)
  from assms(1) obtain price source recovery f c where m:
    "fill_checks sha False (fr_order m) (fr_fill m) (fr_quantity m) (fr_price m) (fr_broker m) (fr_source m) None
       = Inr (price, source, recovery)"
    "check_fill_source (fr_broker m) (fr_order m) (fr_when m) source s = Inr ()"
    "row_get fl_id (fr_fill m) (fills s) = Some f" "fill_same f m price source" "get_order (fr_order m) s = Inr c"
    by (auto simp: fill_settled_def)
  have "\<exists>c1. get_order (fr_order m) s' = Inr c1"
  proof (cases "fr_order m = fr_order m'")
    case True
    with r' show ?thesis by simp
  next
    case False
    then have "row_get om_id (fr_order m) (orders s') = row_get om_id (fr_order m) (orders s)"
      using s'(4) by (simp add: s'(3) row_get_upd stored_order_id [OF c'])
    with m(5) show ?thesis by (simp add: get_order_def)
  qed
  then obtain c1 where c1: "get_order (fr_order m) s' = Inr c1" ..
  have "check_fill_source (fr_broker m) (fr_order m) (fr_when m) source s' = Inr ()"
    by (rule check_fill_source_stable [OF m(2,5) c1 tenant_stable [OF s'(3,4) m(5) c1] s'(2)])
  moreover have "row_get fl_id (fr_fill m) (fills s') = Some f" by (simp add: s'(1) row_get_append m(3))
  ultimately show ?thesis using m(1,4) c1 unfolding fill_settled_def by blast
qed (use assms(1) in simp)

interpretation fill_store: idempotent_store "deliver_fill sha" "fill_settled sha" "\<lambda>_. True" for sha
proof (unfold_locales, goal_cases)
  case (1 s m s')
  show ?case by simp
next
  case (2 s m s')
  from 2(2) show ?case by (rule deliver_settles)
next
  case (3 s m)
  from 3(2) show ?case by (rule fill_settled_noop)
next
  case (4 s m m' s')
  from 4(2,3) show ?case by (rule deliver_stable)
qed

text \<open>C12: fill callbacks may be delivered any number of times and in any order. If a sequence of
  fill reports was accepted one after the other, delivering any of them again, in any order
  and multiplicity, is accepted and leaves the whole journal as it is.\<close>

theorem fill_redelivery:
  assumes "foldr_res (\<lambda>s m. deliver_fill sha m s) s ms = Inr s'" "set ds \<subseteq> set ms"
  shows "foldr_res (\<lambda>s m. deliver_fill sha m s) s' ds = Inr s'"
  by (rule fill_store.redelivery [OF TrueI assms])

definition sample_open :: oms where
  "sample_open = oms_empty\<lparr>orders := [(new_row ''A'' sample_order None 0)\<lparr>om_state := SUBMITTED\<rparr>]\<rparr>"

definition sample_report :: fill_report where
  "sample_report = \<lparr>fr_order = ''A'', fr_fill = ''F1'', fr_quantity = 10, fr_price = Finite (Fin False 1500 0),
     fr_broker = Some ''B'', fr_when = Aware 5, fr_source = None\<rparr>"

lemma sample_id_match: "id_match 128 ''A''" "id_match 128 ''F1''" "id_match 128 ''B''"
  by (simp_all add: id_match_def id_char_def is_upper_def is_digit_def)

lemma sample_delivery: "\<exists>s'. deliver_fill sample_sha sample_report sample_open = Inr s' \<and> fills s' \<noteq> []"
proof -
  let ?c = "(new_row ''A'' sample_order None 0)\<lparr>om_state := SUBMITTED\<rparr>"
  have checks: "fill_checks sample_sha False ''A'' ''F1'' 10 (Finite (Fin False 1500 0)) (Some ''B'') None None
      = Inr (Fin False 1500 0, None, None)"
    by (simp add: fill_checks_def check_id_def opt_id_def sample_id_match starts_with_def dec_evals)
  have average: "ddiv (dadd dzero (dmul (Fin False 1500 0) (dec_of_int 10))) (dec_of_int 10) = Inr (Fin False 1500 0)"
    by (simp add: dec_evals Let_def)
  have pos: "dpos (reference_price sample_order)" "dpos (Fin False 1500 0)" "oi_quantity sample_order = 10"
    by (simp_all add: sample_order_def dec_evals)
  have stored: "stored_order ''A'' sample_open = Inr ?c"
    by (simp add: stored_order_def sample_open_def new_row_def decode_cash pos)
  have "prior_notional ''A'' sample_open = dzero"
    by (simp add: prior_notional_def sample_open_def oms_empty_def dsum_def)
  then have "\<exists>s'. apply_fill sample_sha ?c ''F1'' 10 (Fin False 1500 0) (Some ''B'') (Aware 5) None None sample_open = Inr s'
      \<and> fills s' \<noteq> [] \<and> (\<exists>r. get_order ''A'' s' = Inr r)"
    using average pos
    by (simp add: apply_fill_def fillable_def new_row_def fill_target_def lifecycle_transition_def allowed_def
        broker_identity_def append_event_def sample_open_def oms_empty_def Let_def get_order_def check_id_def
        sample_id_match decode_cash)
  then obtain s' r where s': "apply_fill sample_sha ?c ''F1'' 10 (Fin False 1500 0) (Some ''B'') (Aware 5) None None sample_open = Inr s'"
    "fills s' \<noteq> []" "get_order ''A'' s' = Inr r" by blast
  have "row_get fl_id ''F1'' (fills sample_open) = None" by (simp add: sample_open_def oms_empty_def)
  then have "deliver_fill sample_sha sample_report sample_open = Inr s'"
    using s' by (simp add: deliver_fill_def sample_report_def fill_order_def checks finish_def check_fill_source_def stored)
  with s'(2) show ?thesis by blast
qed

theorem fill_redelivery_witness:
  "\<exists>s'. deliver_fill sample_sha sample_report sample_open = Inr s' \<and> fills s' \<noteq> []
     \<and> foldr_res (\<lambda>s m. deliver_fill sample_sha m s) s' [sample_report, sample_report] = Inr s'"
proof -
  from sample_delivery obtain s' where s': "deliver_fill sample_sha sample_report sample_open = Inr s'" "fills s' \<noteq> []"
    by blast
  then have "foldr_res (\<lambda>s m. deliver_fill sample_sha m s) sample_open [sample_report] = Inr s'" by simp
  from fill_redelivery [OF this, of "[sample_report, sample_report]"] s' show ?thesis by simp
qed

subsection \<open>A transition to FILLED without fills\<close>

lemma verified_filled:
  assumes "verify_oms sha cid s = Inr r" "row_get om_id cid (orders s) = Some c" "om_state c = FILLED"
  shows "filled_quantity c = requested_quantity c"
proof -
  from assms obtain d rp where d: "decode_row c = Inr d"
    and proj: "check_projection d (view_of cid s) (length (events_of cid s)) rp = Inr ()"
    by (auto simp: verify_oms_def verify_order_def get_order_def res_simps split: if_splits)
  show ?thesis
    using proj assms(3) decode_row_fields [OF d] by (auto simp: check_projection_def res_simps split: if_splits)
qed

lemma transition_row:
  assumes "transition sha cid target reason b when s = (s', Inr r)" "row_get om_id cid (orders s) = Some c"
  shows "\<exists>d. row_get om_id cid (orders s') = Some d \<and> om_state d = target
    \<and> filled_quantity d = filled_quantity c \<and> requested_quantity d = requested_quantity c"
proof -
  from assms(1) obtain broker t p where
    "append_event sha cid (state_value target) when p (s\<lparr>orders := row_upd om_id cid
       (\<lambda>r. r\<lparr>om_state := target, broker_order_id := broker, updated_at := t\<rparr>) (orders s)\<rparr>) = Inr s'"
    by (auto simp: transition_def finish_def ebind_def split: sum.splits)
  then show ?thesis
    using assms(2) by (auto elim!: append_event_Inr simp: row_get_upd)
qed

text \<open>C13: the public \<open>transition\<close> accepts FILLED as a target although no fill was recorded. On any
  journal, when it does so for an order that is not completely filled, \<open>verify\<close> fails for that
  order from then on (and, since \<open>create\<close> verifies a stored order, so does re-submitting it).\<close>

theorem filled_transition_breaks_verify:
  assumes "row_get om_id cid (orders s) = Some c" "filled_quantity c \<noteq> requested_quantity c"
    and "transition sha cid FILLED reason b when s = (s', Inr r)"
  shows "\<exists>e. verify_oms sha cid s' = Inl e"
proof (cases "verify_oms sha cid s'")
  case (Inr report)
  from transition_row [OF assms(3,1)] obtain d where "row_get om_id cid (orders s') = Some d" "om_state d = FILLED"
    "filled_quantity d = filled_quantity c" "requested_quantity d = requested_quantity c" by blast
  with verified_filled [OF Inr] assms(2) show ?thesis by simp
qed simp

theorem filled_transition_breaks_verify_witness:
  "\<exists>s' r e. transition sample_sha ''A'' FILLED [] None (Aware 5) sample_open = (s', Inr r)
     \<and> verify_oms sample_sha ''A'' s' = Inl e"
proof -
  let ?c = "(new_row ''A'' sample_order None 0)\<lparr>om_state := SUBMITTED\<rparr>"
  have pos: "dpos (reference_price sample_order)" "oi_quantity sample_order = 10"
    by (simp_all add: sample_order_def dec_evals)
  have stored: "stored_order ''A'' sample_open = Inr ?c"
    by (simp add: stored_order_def sample_open_def new_row_def decode_cash pos)
  have "\<exists>s' r. transition sample_sha ''A'' FILLED [] None (Aware 5) sample_open = (s', Inr r)"
    by (simp add: transition_def check_id_def opt_id_def sample_id_match stored)
      (simp add: new_row_def lifecycle_transition_def allowed_def broker_identity_def append_event_def Let_def
        sample_open_def oms_empty_def finish_def get_order_def check_id_def sample_id_match decode_cash pos)
  then obtain s' r where t: "transition sample_sha ''A'' FILLED [] None (Aware 5) sample_open = (s', Inr r)" by blast
  have "row_get om_id ''A'' (orders sample_open) = Some ?c" by (simp add: sample_open_def new_row_def)
  from filled_transition_breaks_verify [OF this _ t] t pos(2) show ?thesis by (auto simp: new_row_def)
qed

end
