(* ===== verification/Journal.thy ===== *)
theory Journal
  imports DecText Json Calendar
begin

text \<open>
  \<^verbatim>\<open>src/quant_ai/accounting/journal.py\<close>: the append-only double-entry journal. A table is the list
  of its rows in rowid order; decimals and instants are held as the values their texts denote.
  \<open>sha\<close> is SHA-256. Inputs are finite decimals (\<open>Posting\<close> refuses the others).
\<close>

subsection \<open>Accounts and postings\<close>

datatype AccountType = ASSET | LIABILITY | EQUITY_ACCOUNT | INCOME | EXPENSE

datatype EntrySide = DEBIT | CREDIT

datatype TransactionKind = CAPITAL | TRADE | FEE | TAX | MARGIN_RESERVE | MARGIN_RELEASE
  | REALIZED_PNL | SETTLEMENT_OPEN | SETTLEMENT_CLOSE | FX_CONVERSION | ADJUSTMENT

definition entry_value :: "EntrySide \<Rightarrow> string" where
  "entry_value s = (case s of DEBIT \<Rightarrow> ''DEBIT'' | CREDIT \<Rightarrow> ''CREDIT'')"

definition kind_value :: "TransactionKind \<Rightarrow> string" where
  "kind_value k = (case k of CAPITAL \<Rightarrow> ''CAPITAL'' | TRADE \<Rightarrow> ''TRADE'' | FEE \<Rightarrow> ''FEE'' | TAX \<Rightarrow> ''TAX''
     | MARGIN_RESERVE \<Rightarrow> ''MARGIN_RESERVE'' | MARGIN_RELEASE \<Rightarrow> ''MARGIN_RELEASE''
     | REALIZED_PNL \<Rightarrow> ''REALIZED_PNL'' | SETTLEMENT_OPEN \<Rightarrow> ''SETTLEMENT_OPEN''
     | SETTLEMENT_CLOSE \<Rightarrow> ''SETTLEMENT_CLOSE'' | FX_CONVERSION \<Rightarrow> ''FX_CONVERSION''
     | ADJUSTMENT \<Rightarrow> ''ADJUSTMENT'')"

record account =
  ac_code :: string
  ac_type :: AccountType

definition new_account :: "string \<Rightarrow> AccountType \<Rightarrow> account res" where
  "new_account code ty =
     (if \<not> account_match code then Inl (ValueError ''invalid_account_code'')
      else Inr \<lparr>ac_code = code, ac_type = ty\<rparr>)"

definition normal_side :: "AccountType \<Rightarrow> EntrySide" where
  "normal_side ty = (if ty \<in> {ASSET, EXPENSE} then DEBIT else CREDIT)"

definition canonical_accounts :: "account list" where
  "canonical_accounts = map (\<lambda>(c, t). \<lparr>ac_code = c, ac_type = t\<rparr>)
     [(''CASH_AVAILABLE'', ASSET), (''CASH_RESERVED_MARGIN'', ASSET), (''COLLATERAL_RESERVED'', ASSET),
      (''SECURITIES_COST'', ASSET), (''SETTLEMENT_RECEIVABLE'', ASSET), (''SETTLEMENT_PAYABLE'', LIABILITY),
      (''BROKER_CLEARING'', LIABILITY), (''CAPITAL'', EQUITY_ACCOUNT), (''REALIZED_PNL'', INCOME),
      (''FEE_EXPENSE'', EXPENSE), (''TAX_EXPENSE'', EXPENSE)]"

record posting =
  po_account :: string
  po_side :: EntrySide
  po_currency :: string
  po_amount :: dec
  po_base :: dec

definition new_posting :: "posting \<Rightarrow> posting res" where
  "new_posting p =
     (if \<not> account_match (po_account p) then Inl (ValueError ''invalid_posting_account'')
      else if \<not> currency_match (po_currency p) then Inl (ValueError ''invalid_posting_currency'')
      else if dle (po_amount p) dzero then Inl (ValueError ''posting_amount_must_be_positive_finite'')
      else if dle (po_base p) dzero then Inl (ValueError ''posting_base_amount_must_be_positive_finite'')
      else Inr p)"

subsection \<open>The book\<close>

record transaction_row =
  tx_id :: string
  tx_tenant :: string
  tx_kind :: TransactionKind
  tx_reference :: string
  tx_at :: instant
  tx_sha256 :: string

record posting_row =
  pr_transaction :: string
  pr_sequence :: nat
  pr_posting :: posting

record journal =
  accounts :: "account list"
  transactions :: "transaction_row list"
  postings :: "posting_row list"

text \<open>The book after \<open>_schema\<close> on a new file.\<close>

definition new_journal :: journal where
  "new_journal = \<lparr>accounts = canonical_accounts, transactions = [], postings = []\<rparr>"

definition register_account :: "account \<Rightarrow> journal \<Rightarrow> journal res" where
  "register_account a s =
     (case row_get ac_code (ac_code a) (accounts s) of
        None \<Rightarrow> Inr (s\<lparr>accounts := accounts s @ [a]\<rparr>)
      | Some row \<Rightarrow> if ac_type row \<noteq> ac_type a then Inl (ValueError ''trading_account_type_changed'') else Inr s)"

subsection \<open>Balance checks\<close>

fun comma_join :: "string list \<Rightarrow> string" where
  "comma_join [] = []"
| "comma_join [x] = x"
| "comma_join (x # y # xs) = x @ CHR '','' # comma_join (y # xs)"

definition validate_accounts :: "journal \<Rightarrow> posting list \<Rightarrow> unit res" where
  "validate_accounts s ps =
     (let missing = sort (remdups (filter (\<lambda>a. a \<notin> ac_code ` set (accounts s)) (map po_account ps)))
      in if missing \<noteq> [] then Inl (ValueError (''unknown_trading_account:'' @ comma_join missing)) else Inr ())"

definition signed_base :: "posting \<Rightarrow> dec" where
  "signed_base p = (if po_side p = DEBIT then po_base p else dminus (po_base p))"

definition signed_native :: "posting \<Rightarrow> dec" where
  "signed_native p = (if po_side p = DEBIT then po_amount p else dminus (po_amount p))"

definition currency_total :: "string \<Rightarrow> posting list \<Rightarrow> dec" where
  "currency_total c ps = dsum (map signed_native (filter (\<lambda>p. po_currency p = c) ps))"

definition assert_balanced :: "TransactionKind \<Rightarrow> posting list \<Rightarrow> unit res" where
  "assert_balanced kind ps =
     (if \<not> deq (dsum (map signed_base ps)) dzero
        then Inl (ValueError ''transaction_base_currency_not_balanced'')
      else if kind = FX_CONVERSION then
        (if card (po_currency ` set ps) \<noteq> 2
           then Inl (ValueError ''fx_conversion_requires_exactly_two_currencies'')
         else if po_account ` set ps \<noteq> {''CASH_AVAILABLE''}
           then Inl (ValueError ''fx_conversion_must_move_available_cash_only'')
         else if length ps \<noteq> 2 then Inl (ValueError ''fx_conversion_requires_two_cash_legs'')
         else Inr ())
      else if list_ex (\<lambda>p. \<not> deq (currency_total (po_currency p) ps) dzero) ps
        then Inl (ValueError ''transaction_native_currency_not_balanced'')
      else Inr ())"

subsection \<open>Posting and reading\<close>

definition posting_json :: "nat \<times> posting \<Rightarrow> json" where
  "posting_json np = (case np of (n, p) \<Rightarrow>
     JObj [(''sequence'', JInt (int n)), (''account'', JStr (po_account p)),
       (''side'', JStr (entry_value (po_side p))), (''currency'', JStr (po_currency p)),
       (''amount'', JStr (dec_str (po_amount p))), (''baseAmount'', JStr (dec_str (po_base p)))])"

definition transaction_json ::
    "string \<Rightarrow> string \<Rightarrow> TransactionKind \<Rightarrow> string \<Rightarrow> instant \<Rightarrow> posting list \<Rightarrow> json" where
  "transaction_json tid tenant kind reference t ps =
     JObj [(''transactionId'', JStr tid), (''tenantId'', JStr tenant), (''kind'', JStr (kind_value kind)),
       (''reference'', JStr reference), (''at'', JStr (iso_utc t)),
       (''postings'', JArr (map posting_json (zip [1..<length ps + 1] ps)))]"

record transaction_view =
  tv_row :: transaction_row
  tv_postings :: "posting list"

definition read_transaction :: "string \<Rightarrow> journal \<Rightarrow> transaction_view res" where
  "read_transaction tid s =
     (case row_get tx_id tid (transactions s) of
        None \<Rightarrow> Inl (KeyError tid)
      | Some row \<Rightarrow>
          ebind (map_res (new_posting \<circ> pr_posting)
                   (sort_key pr_sequence (filter (\<lambda>r. pr_transaction r = tid) (postings s))))
            (\<lambda>ps. Inr \<lparr>tv_row = row, tv_postings = ps\<rparr>))"

definition post ::
    "(string \<Rightarrow> string) \<Rightarrow> string \<Rightarrow> string \<Rightarrow> TransactionKind \<Rightarrow> string \<Rightarrow> posting list \<Rightarrow> datetime
      \<Rightarrow> journal \<Rightarrow> (journal \<times> transaction_view) res" where
  "post sha tid tenant kind reference ps when s =
     (if \<not> id_match 160 tid \<or> \<not> id_match 160 tenant
        then Inl (ValueError ''invalid_transaction_or_tenant_id'')
      else if strip reference = [] \<or> 500 < length reference
        then Inl (ValueError ''invalid_transaction_reference'')
      else
      ebind (utc_instant (ValueError ''transaction_time_must_be_timezone_aware'') when) (\<lambda>t.
      if length ps < 2 \<or> 100 < length ps then Inl (ValueError ''transaction_requires_bounded_postings'')
      else
      ebind (validate_accounts s ps) (\<lambda>_.
      ebind (assert_balanced kind ps) (\<lambda>_.
      let d = sha (dumps (transaction_json tid tenant kind reference t ps));
          row = \<lparr>tx_id = tid, tx_tenant = tenant, tx_kind = kind, tx_reference = reference,
                 tx_at = t, tx_sha256 = d\<rparr>
      in case row_get tx_id tid (transactions s) of
           Some old \<Rightarrow>
             if tx_sha256 old \<noteq> d then Inl (ValueError ''transaction_id_payload_mismatch'')
             else ebind (read_transaction tid s) (\<lambda>v. Inr (s, v))
         | None \<Rightarrow>
             if list_ex (\<lambda>r. tx_sha256 r = d) (transactions s)
               \<or> list_ex (\<lambda>r. pr_transaction r = tid \<and> 1 \<le> pr_sequence r \<and> pr_sequence r \<le> length ps) (postings s)
             then Inl (IntegrityError ''trading_transactions'')
             else Inr (s\<lparr>transactions := transactions s @ [row],
                          postings := postings s @ map (\<lambda>(n, p). \<lparr>pr_transaction = tid, pr_sequence = n,
                            pr_posting = p\<rparr>) (zip [1..<length ps + 1] ps)\<rparr>,
                       \<lparr>tv_row = row, tv_postings = ps\<rparr>)))))"

definition tenant_postings :: "string \<Rightarrow> journal \<Rightarrow> posting list" where
  "tenant_postings tenant s =
     map pr_posting (filter (\<lambda>r. case row_get tx_id (pr_transaction r) (transactions s) of
         None \<Rightarrow> False | Some row \<Rightarrow> tx_tenant row = tenant) (postings s))"

definition balance_of :: "EntrySide \<Rightarrow> (posting \<Rightarrow> dec) \<Rightarrow> posting list \<Rightarrow> dec" where
  "balance_of normal f ps = dsum (map (\<lambda>p. if po_side p = normal then f p else dminus (f p)) ps)"

definition native_balance :: "string \<Rightarrow> string \<Rightarrow> string \<Rightarrow> journal \<Rightarrow> dec res" where
  "native_balance tenant account currency s =
     (if \<not> account_match account \<or> \<not> currency_match currency then Inl (ValueError ''invalid_balance_query'')
      else case row_get ac_code account (accounts s) of
          None \<Rightarrow> Inl (KeyError account)
        | Some a \<Rightarrow> Inr (balance_of (normal_side (ac_type a)) po_amount
            (filter (\<lambda>p. po_account p = account \<and> po_currency p = currency) (tenant_postings tenant s))))"

definition base_balance :: "string \<Rightarrow> string \<Rightarrow> journal \<Rightarrow> dec res" where
  "base_balance tenant account s =
     (case row_get ac_code account (accounts s) of
        None \<Rightarrow> Inl (KeyError account)
      | Some a \<Rightarrow>
          if \<not> account_match account then Inl (ValueError ''invalid_account_code'')
          else Inr (balance_of (normal_side (ac_type a)) po_base
            (filter (\<lambda>p. po_account p = account) (tenant_postings tenant s))))"

definition verify_transaction :: "(string \<Rightarrow> string) \<Rightarrow> journal \<Rightarrow> string \<Rightarrow> unit res" where
  "verify_transaction sha s tid =
     ebind (read_transaction tid s) (\<lambda>v.
     ebind (validate_accounts s (tv_postings v)) (\<lambda>_.
     ebind (assert_balanced (tx_kind (tv_row v)) (tv_postings v)) (\<lambda>_.
     if tx_sha256 (tv_row v) \<noteq> sha (dumps (transaction_json (tx_id (tv_row v)) (tx_tenant (tv_row v))
          (tx_kind (tv_row v)) (tx_reference (tv_row v)) (tx_at (tv_row v)) (tv_postings v)))
     then Inl (ValueError ''trading_transaction_hash_mismatch'') else Inr ())))"

text \<open>\<open>verify\<close>: the number of transactions it vouches for.\<close>

definition verify_journal :: "(string \<Rightarrow> string) \<Rightarrow> string \<Rightarrow> journal \<Rightarrow> nat res" where
  "verify_journal sha tenant s =
     (let ids = map tx_id (sort_key tx_at (sort_key tx_id (filter (\<lambda>r. tx_tenant r = tenant) (transactions s))))
      in ebind (map_res (verify_transaction sha s) ids) (\<lambda>_. Inr (length ids)))"

end
