(* ===== verification/Money.thy ===== *)
theory Money
  imports Decimal28
begin

text \<open>
  Amounts in units of \<open>10 ^ -8\<close>. Sums of such amounts stay exact under 28-digit arithmetic as
  long as the total in units has at most 28 digits; the accounting theorems use this.
\<close>

definition units :: "dec \<Rightarrow> int" where
  "units x = scaled (- 8) x"

definition fine :: "dec \<Rightarrow> bool" where
  "fine x \<longleftrightarrow> - 8 \<le> dexp x"

text \<open>An amount below \<open>10 ^ 15\<close> with at most eight decimals.\<close>

definition ledger_money :: "dec \<Rightarrow> bool" where
  "ledger_money x \<longleftrightarrow> fine x \<and> \<bar>units x\<bar> < 10 ^ 23"

lemma dval_units: "fine x \<Longrightarrow> dval x = of_int (units x) * ten_pow (- 8)"
  by (simp add: fine_def units_def dval_scaled)

lemma units_eq_iff: "fine x \<Longrightarrow> fine y \<Longrightarrow> dval x = dval y \<longleftrightarrow> units x = units y"
  by (simp add: dval_units)

lemma units_zero [simp]: "units dzero = 0" "fine dzero"
  by (simp_all add: units_def scaled_def signed_def dzero_def fine_def)

lemma units_scaled:
  assumes "- 8 \<le> m" "m \<le> dexp x"
  shows "units x = scaled m x * 10 ^ nat (m + 8)"
proof -
  have "nat (dexp x + 8) = nat (dexp x - m) + nat (m + 8)" using assms by simp
  then show ?thesis by (simp add: units_def scaled_def power_add)
qed

lemma prec_digits: "v < 10 ^ prec \<Longrightarrow> ndigits v \<le> prec"
  by (simp add: ndigits_le prec_def)

lemma small_scaled:
  assumes "\<bar>v * 10 ^ k\<bar> < (10::int) ^ n"
  shows "nat \<bar>v\<bar> < 10 ^ n"
proof -
  have "\<bar>v\<bar> * 1 \<le> \<bar>v\<bar> * 10 ^ k" by (intro mult_left_mono) simp_all
  with assms have "\<bar>v\<bar> < 10 ^ n" by (simp add: abs_mult)
  then have "nat \<bar>v\<bar> < nat (10 ^ n)" by simp
  then show ?thesis by (simp add: nat_power_eq)
qed

lemma dadd_units:
  assumes "fine x" "fine y" "\<bar>units x + units y\<bar> < 10 ^ prec"
  shows "fine (dadd x y) \<and> units (dadd x y) = units x + units y"
proof -
  define m v where "m = low_exp x y" and "v = scaled m x + scaled m y"
  have m: "- 8 \<le> m" "m \<le> dexp x" "m \<le> dexp y" using assms by (auto simp: m_def low_exp_def fine_def)
  have u: "units x + units y = v * 10 ^ nat (m + 8)"
    using m by (simp add: units_scaled v_def distrib_right)
  have "ndigits (nat \<bar>v\<bar>) \<le> prec"
    using assms(3) unfolding u by (intro prec_digits small_scaled)
  then have d: "dadd x y = Fin (if v = 0 then dsign x \<and> dsign y else v < 0) (nat \<bar>v\<bar>) m"
    by (simp add: dadd_def Let_def dfix_small flip: m_def v_def)
  have "scaled m (dadd x y) = v" by (simp add: d scaled_def signed_def)
  with m u show ?thesis by (simp add: d fine_def units_scaled [of m])
qed

lemma units_copy_neg [simp]: "units (dcopy_neg x) = - units x" "fine (dcopy_neg x) = fine x"
  by (simp_all add: units_def scaled_def dcopy_neg_def signed_def fine_def)

lemma dsub_units:
  assumes "fine x" "fine y" "\<bar>units x - units y\<bar> < 10 ^ prec"
  shows "fine (dsub x y) \<and> units (dsub x y) = units x - units y"
  using dadd_units [of x "dcopy_neg y"] assms by (simp add: dsub_def)

lemma dminus_units:
  assumes "fine x" "\<bar>units x\<bar> < 10 ^ prec"
  shows "fine (dminus x) \<and> units (dminus x) = - units x"
proof -
  have "\<bar>signed (dsign x) (dcoef x) * 10 ^ nat (dexp x + 8)\<bar> < 10 ^ prec"
    using assms(2) by (simp add: units_def scaled_def)
  then have "nat \<bar>signed (dsign x) (dcoef x)\<bar> < 10 ^ prec" by (rule small_scaled)
  then have "dcoef x < 10 ^ prec" by (auto simp: signed_def split: if_splits)
  then have "ndigits (dcoef x) \<le> prec" by (rule prec_digits)
  then have "dminus x = Fin (\<not> dsign x \<and> dcoef x \<noteq> 0) (dcoef x) (dexp x)"
    by (simp add: dminus_def dfix_small)
  with assms(1) show ?thesis by (simp add: fine_def units_def scaled_def signed_def)
qed

text \<open>A sum of \<open>n\<close> amounts, each below \<open>b\<close> units, with \<open>n * b\<close> below \<open>10 ^ 28\<close>.\<close>

lemma foldl_dadd_units:
  assumes "list_all (\<lambda>x. fine x \<and> \<bar>units x\<bar> \<le> b) xs" "fine a"
    and "\<bar>units a\<bar> + int (length xs) * b < 10 ^ prec" "0 \<le> b"
  shows "fine (foldl dadd a xs) \<and> units (foldl dadd a xs) = units a + sum_list (map units xs)"
  using assms
proof (induction xs arbitrary: a)
  case Nil
  then show ?case by simp
next
  case (Cons x xs)
  have x: "fine x" "\<bar>units x\<bar> \<le> b" using Cons.prems(1) by auto
  have room: "\<bar>units a\<bar> + b + int (length xs) * b < 10 ^ prec"
    using Cons.prems(3) by (simp add: distrib_right)
  have "0 \<le> int (length xs) * b" using Cons.prems(4) by simp
  with room x(2) have "\<bar>units a + units x\<bar> < 10 ^ prec" by linarith
  from dadd_units [OF Cons.prems(2) x(1) this]
  have a: "fine (dadd a x)" "units (dadd a x) = units a + units x" by simp_all
  have "\<bar>units (dadd a x)\<bar> + int (length xs) * b < 10 ^ prec"
    using room x(2) by (simp add: a)
  with Cons.IH [of "dadd a x"] Cons.prems a show ?case by simp
qed

lemma dsum_units:
  assumes "list_all (\<lambda>x. fine x \<and> \<bar>units x\<bar> \<le> b) xs" "int (length xs) * b < 10 ^ prec" "0 \<le> b"
  shows "fine (dsum xs) \<and> units (dsum xs) = sum_list (map units xs)"
  using foldl_dadd_units [of b xs dzero] assms by (simp add: dsum_def)

text \<open>Comparison and sign in units.\<close>

lemma units_order:
  assumes "fine x" "fine y"
  shows "dlt x y \<longleftrightarrow> units x < units y" "dle x y \<longleftrightarrow> units x \<le> units y" "deq x y \<longleftrightarrow> units x = units y"
  using assms by (simp_all add: dec_order dval_units)

end
