(* ===== verification/JournalProps.thy ===== *)
theory JournalProps
  imports Journal Money
begin

text \<open>
  The journal stays verifiable, exact and idempotent: the invariant of every recorded
  transaction, the trial balance in exact arithmetic, and redelivery of postings.
\<close>

subsection \<open>The invariant\<close>

definition posting_rows :: "string \<Rightarrow> posting list \<Rightarrow> posting_row list" where
  "posting_rows tid ps = map (\<lambda>(n, p). \<lparr>pr_transaction = tid, pr_sequence = n, pr_posting = p\<rparr>)
     (zip [1..<length ps + 1] ps)"

definition valid_posting :: "posting \<Rightarrow> bool" where
  "valid_posting p \<longleftrightarrow> new_posting p = Inr p"

definition transaction_ok :: "(string \<Rightarrow> string) \<Rightarrow> journal \<Rightarrow> transaction_row \<Rightarrow> posting list \<Rightarrow> bool" where
  "transaction_ok sha s row ps \<longleftrightarrow>
     filter (\<lambda>r. pr_transaction r = tx_id row) (postings s) = posting_rows (tx_id row) ps
     \<and> list_all valid_posting ps \<and> validate_accounts s ps = Inr () \<and> assert_balanced (tx_kind row) ps = Inr ()
     \<and> tx_sha256 row = sha (dumps (transaction_json (tx_id row) (tx_tenant row) (tx_kind row)
          (tx_reference row) (tx_at row) ps))"

definition journal_inv :: "(string \<Rightarrow> string) \<Rightarrow> journal \<Rightarrow> bool" where
  "journal_inv sha s \<longleftrightarrow> distinct (map tx_id (transactions s))
     \<and> pr_transaction ` set (postings s) \<subseteq> tx_id ` set (transactions s)
     \<and> (\<forall>row \<in> set (transactions s). \<exists>ps. transaction_ok sha s row ps)"

lemma posting_rows_fields:
  "map pr_posting (posting_rows tid ps) = ps" "map pr_sequence (posting_rows tid ps) = [1..<length ps + 1]"
  "r \<in> set (posting_rows tid ps) \<Longrightarrow> pr_transaction r = tid"
  by (auto simp: posting_rows_def case_prod_unfold comp_def simp del: upt_Suc)

lemma posting_rows_sorted: "sort_key pr_sequence (posting_rows tid ps) = posting_rows tid ps"
  by (rule sort_key_sorted) (simp only: posting_rows_fields sorted_upt)

lemma map_res_postings:
  assumes "list_all valid_posting ps"
  shows "map_res (new_posting \<circ> pr_posting) (posting_rows tid ps) = Inr ps"
proof -
  have "map_res (new_posting \<circ> pr_posting) rs = Inr (map pr_posting rs)"
    if "list_all valid_posting (map pr_posting rs)" for rs
    using that by (intro map_res_Inr) (auto simp: list_all_iff valid_posting_def)
  from this [of "posting_rows tid ps"] assms show ?thesis by (simp add: posting_rows_fields)
qed

lemma read_transaction_ok:
  assumes "transaction_ok sha s row ps" "row_get tx_id (tx_id row) (transactions s) = Some row"
  shows "read_transaction (tx_id row) s = Inr \<lparr>tv_row = row, tv_postings = ps\<rparr>"
  using assms by (simp add: read_transaction_def transaction_ok_def posting_rows_sorted map_res_postings)

lemma verify_transaction_ok:
  assumes "transaction_ok sha s row ps" "row_get tx_id (tx_id row) (transactions s) = Some row"
  shows "verify_transaction sha s (tx_id row) = Inr ()"
  using read_transaction_ok [OF assms] assms(1) by (simp add: verify_transaction_def transaction_ok_def)

lemma map_res_ok: "(\<And>x. x \<in> set xs \<Longrightarrow> f x = Inr ()) \<Longrightarrow> \<exists>ys. map_res f xs = Inr ys"
  by (induction xs) auto

lemma journal_inv_verifies:
  assumes "journal_inv sha s"
  shows "verify_journal sha tenant s = Inr (length (filter (\<lambda>r. tx_tenant r = tenant) (transactions s)))"
proof -
  let ?rows = "sort_key tx_at (sort_key tx_id (filter (\<lambda>r. tx_tenant r = tenant) (transactions s)))"
  have "verify_transaction sha s tid = Inr ()" if tid: "tid \<in> set (map tx_id ?rows)" for tid
  proof -
    from tid obtain row where row: "row \<in> set (transactions s)" "tx_id row = tid" by auto
    from assms row obtain ps where ps: "transaction_ok sha s row ps" by (auto simp: journal_inv_def)
    have "row_get tx_id (tx_id row) (transactions s) = Some row"
      using assms row by (intro row_get_unique) (simp_all add: journal_inv_def)
    from verify_transaction_ok [OF ps this] row(2) show ?thesis by simp
  qed
  then obtain ys where "map_res (verify_transaction sha s) (map tx_id ?rows) = Inr ys"
    using map_res_ok [of "map tx_id ?rows" "verify_transaction sha s"] by blast
  then show ?thesis by (simp add: verify_journal_def)
qed

lemma validate_accounts_iff: "validate_accounts s ps = Inr () \<longleftrightarrow> po_account ` set ps \<subseteq> ac_code ` set (accounts s)"
proof -
  let ?missing = "remdups (filter (\<lambda>a. a \<notin> ac_code ` set (accounts s)) (map po_account ps))"
  have "sort ?missing = [] \<longleftrightarrow> set ?missing = {}" by (metis set_empty set_sort)
  also have "\<dots> \<longleftrightarrow> po_account ` set ps \<subseteq> ac_code ` set (accounts s)" by auto
  finally show ?thesis by (simp add: validate_accounts_def Let_def)
qed

lemma register_inv:
  assumes "journal_inv sha s" "register_account a s = Inr s'"
  shows "journal_inv sha s'"
proof -
  from assms(2) have s': "transactions s' = transactions s" "postings s' = postings s"
    "set (accounts s) \<subseteq> set (accounts s')"
    by (auto simp: register_account_def split: option.splits if_splits)
  have "ac_code ` set (accounts s) \<subseteq> ac_code ` set (accounts s')" using s'(3) by (rule image_mono)
  then have "transaction_ok sha s' row ps" if "transaction_ok sha s row ps" for row ps
    using that s'(2) unfolding transaction_ok_def validate_accounts_iff by (metis order_trans)
  moreover have "\<forall>row \<in> set (transactions s). \<exists>ps. transaction_ok sha s row ps"
    using assms(1) by (simp add: journal_inv_def)
  ultimately have "\<forall>row \<in> set (transactions s). \<exists>ps. transaction_ok sha s' row ps" by blast
  with assms(1) s'(1,2) show ?thesis by (simp add: journal_inv_def)
qed

text \<open>What an accepted posting leaves: the same book, or one more balanced transaction.\<close>

lemma post_Inr:
  assumes "post sha tid tenant kind reference ps when s = Inr (s', v)"
  obtains t where "when = Aware t" "validate_accounts s ps = Inr ()" "assert_balanced kind ps = Inr ()" "2 \<le> length ps" "length ps \<le> 100"
    "s' = s \<and> (\<exists>row. row_get tx_id tid (transactions s) = Some row
        \<and> tx_sha256 row = sha (dumps (transaction_json tid tenant kind reference t ps))
        \<and> read_transaction tid s = Inr v)
     \<or> row_get tx_id tid (transactions s) = None
        \<and> v = \<lparr>tv_row = \<lparr>tx_id = tid, tx_tenant = tenant, tx_kind = kind, tx_reference = reference, tx_at = t,
              tx_sha256 = sha (dumps (transaction_json tid tenant kind reference t ps))\<rparr>, tv_postings = ps\<rparr>
        \<and> s' = s\<lparr>transactions := transactions s @ [tv_row v], postings := postings s @ posting_rows tid ps\<rparr>"
proof -
  from assms obtain t where t: "when = Aware t" by (auto simp: post_def res_simps)
  show thesis
  proof (rule that [OF t])
    show "validate_accounts s ps = Inr ()" "assert_balanced kind ps = Inr ()" "2 \<le> length ps" "length ps \<le> 100"
      using assms by (auto simp: post_def res_simps t Let_def)
    show "s' = s \<and> (\<exists>row. row_get tx_id tid (transactions s) = Some row
        \<and> tx_sha256 row = sha (dumps (transaction_json tid tenant kind reference t ps))
        \<and> read_transaction tid s = Inr v)
     \<or> row_get tx_id tid (transactions s) = None
        \<and> v = \<lparr>tv_row = \<lparr>tx_id = tid, tx_tenant = tenant, tx_kind = kind, tx_reference = reference, tx_at = t,
              tx_sha256 = sha (dumps (transaction_json tid tenant kind reference t ps))\<rparr>, tv_postings = ps\<rparr>
        \<and> s' = s\<lparr>transactions := transactions s @ [tv_row v], postings := postings s @ posting_rows tid ps\<rparr>"
      using assms by (auto simp: post_def res_simps t Let_def posting_rows_def simp del: upt_Suc
        split: option.splits if_splits)
  qed
qed

lemma post_inv:
  assumes inv: "journal_inv sha s" and ok: "list_all valid_posting ps"
    and post: "post sha tid tenant kind reference ps when s = Inr (s', v)"
  shows "journal_inv sha s'"
proof -
  from post obtain t where chk: "validate_accounts s ps = Inr ()" "assert_balanced kind ps = Inr ()"
    and cases: "s' = s \<or> row_get tx_id tid (transactions s) = None
        \<and> v = \<lparr>tv_row = \<lparr>tx_id = tid, tx_tenant = tenant, tx_kind = kind, tx_reference = reference, tx_at = t,
              tx_sha256 = sha (dumps (transaction_json tid tenant kind reference t ps))\<rparr>, tv_postings = ps\<rparr>
        \<and> s' = s\<lparr>transactions := transactions s @ [tv_row v], postings := postings s @ posting_rows tid ps\<rparr>"
    by (rule post_Inr) blast
  show ?thesis
  proof (cases "s' = s")
    case True
    with inv show ?thesis by simp
  next
    case False
    with cases have new: "row_get tx_id tid (transactions s) = None"
      and v: "v = \<lparr>tv_row = \<lparr>tx_id = tid, tx_tenant = tenant, tx_kind = kind, tx_reference = reference, tx_at = t,
              tx_sha256 = sha (dumps (transaction_json tid tenant kind reference t ps))\<rparr>, tv_postings = ps\<rparr>"
      and s': "s' = s\<lparr>transactions := transactions s @ [tv_row v], postings := postings s @ posting_rows tid ps\<rparr>"
      by blast+
    have fresh: "tid \<notin> tx_id ` set (transactions s)" using new by (simp add: row_get_None_iff)
    with inv have none: "filter (\<lambda>r. pr_transaction r = tid) (postings s) = []"
      by (auto simp: journal_inv_def filter_empty_conv)
    have own: "filter (\<lambda>r. pr_transaction r = tid) (posting_rows tid ps) = posting_rows tid ps"
      using posting_rows_fields(3) by (simp add: filter_id_conv)
    have "transaction_ok sha s' (tv_row v) ps"
      using chk ok none own by (simp add: transaction_ok_def s' v validate_accounts_def)
    moreover have "transaction_ok sha s' row qs" if "row \<in> set (transactions s)" "transaction_ok sha s row qs" for row qs
    proof -
      have "tx_id row \<noteq> tid" using that(1) fresh by auto
      then have "filter (\<lambda>r. pr_transaction r = tx_id row) (posting_rows tid ps) = []"
        using posting_rows_fields(3) [of _ tid ps] by (auto simp: filter_empty_conv)
      with that(2) show ?thesis by (simp add: transaction_ok_def s' validate_accounts_def)
    qed
    moreover have "pr_transaction ` set (postings s') \<subseteq> tx_id ` set (transactions s')"
      using inv posting_rows_fields(3) [of _ tid ps] by (auto simp: journal_inv_def s' v)
    moreover have "distinct (map tx_id (transactions s'))"
      using inv fresh by (simp add: journal_inv_def s' v)
    moreover have "\<forall>row \<in> set (transactions s). \<exists>qs. transaction_ok sha s row qs"
      using inv by (simp add: journal_inv_def)
    moreover have "set (transactions s') = insert (tv_row v) (set (transactions s))" by (simp add: s')
    ultimately show ?thesis unfolding journal_inv_def by (metis (no_types, lifting) insert_iff)
  qed
qed

subsection \<open>Books built by the public operations\<close>

datatype book_command =
    Register string AccountType
  | PostEntry string string TransactionKind string "posting list" datetime

text \<open>Callers build \<open>TradingAccount\<close> and \<open>Posting\<close> values first, which may raise.\<close>

definition post_entry ::
    "(string \<Rightarrow> string) \<Rightarrow> string \<Rightarrow> string \<Rightarrow> TransactionKind \<Rightarrow> string \<Rightarrow> posting list \<Rightarrow> datetime
      \<Rightarrow> journal \<Rightarrow> journal res" where
  "post_entry sha tid tenant kind reference ps when s =
     ebind (map_res new_posting ps) (\<lambda>qs.
     ebind (post sha tid tenant kind reference qs when s) (\<lambda>(s', _). Inr s'))"

fun book_exec :: "(string \<Rightarrow> string) \<Rightarrow> book_command \<Rightarrow> journal \<Rightarrow> journal res" where
  "book_exec sha (Register code ty) s = ebind (new_account code ty) (\<lambda>a. register_account a s)"
| "book_exec sha (PostEntry tid tenant kind reference ps when) s =
     post_entry sha tid tenant kind reference ps when s"

text \<open>A refused command leaves the book as it was.\<close>

definition book_step :: "(string \<Rightarrow> string) \<Rightarrow> journal \<Rightarrow> book_command \<Rightarrow> journal" where
  "book_step sha s c = (case book_exec sha c s of Inl _ \<Rightarrow> s | Inr s' \<Rightarrow> s')"

definition book_run :: "(string \<Rightarrow> string) \<Rightarrow> book_command list \<Rightarrow> journal" where
  "book_run sha cs = foldl (book_step sha) new_journal cs"

lemma map_res_new_posting: "map_res new_posting ps = Inr qs \<Longrightarrow> qs = ps \<and> list_all valid_posting ps"
  by (induction ps arbitrary: qs) (auto simp: res_simps valid_posting_def new_posting_def split: if_splits)

lemma post_entry_Inr:
  assumes "post_entry sha tid tenant kind reference ps when s = Inr s'"
  obtains v where "list_all valid_posting ps" "post sha tid tenant kind reference ps when s = Inr (s', v)"
  using assms by (auto simp: post_entry_def res_simps dest: map_res_new_posting)

definition book_inv :: "(string \<Rightarrow> string) \<Rightarrow> journal \<Rightarrow> bool" where
  "book_inv sha s \<longleftrightarrow> journal_inv sha s \<and> distinct (map ac_code (accounts s))
     \<and> list_all (account_match \<circ> ac_code) (accounts s)"

lemma book_inv_new: "book_inv sha new_journal"
  by (simp add: book_inv_def journal_inv_def new_journal_def canonical_accounts_def account_match_def
      is_upper_def is_digit_def)

lemma post_accounts: "post sha tid tenant kind reference ps when s = Inr (s', v) \<Longrightarrow> accounts s' = accounts s"
  by (erule post_Inr) auto

lemma book_exec_inv: "book_inv sha s \<Longrightarrow> book_exec sha c s = Inr s' \<Longrightarrow> book_inv sha s'"
proof (induction sha c s rule: book_exec.induct)
  case (1 sha code ty s)
  then obtain a where a: "new_account code ty = Inr a" "register_account a s = Inr s'"
    by (auto simp: res_simps)
  from a(1) have "account_match (ac_code a)" by (auto simp: new_account_def split: if_splits)
  moreover from a(2) 1(1) have "journal_inv sha s'" by (auto simp: book_inv_def intro: register_inv)
  ultimately show ?case using a(2) 1(1)
    by (auto simp: book_inv_def register_account_def row_get_None_iff split: option.splits if_splits)
next
  case (2 sha tid tenant kind reference ps d s)
  then show ?case
    by (auto simp: book_inv_def post_accounts elim!: post_entry_Inr intro: post_inv)
qed

lemma book_step_inv: "book_inv sha s \<Longrightarrow> book_inv sha (book_step sha s c)"
  by (auto simp: book_step_def intro: book_exec_inv split: sum.split)

lemma book_run_inv: "book_inv sha (book_run sha cs)"
proof -
  have "book_inv sha s \<Longrightarrow> book_inv sha (foldl (book_step sha) s cs)" for s
    by (induction cs arbitrary: s) (simp_all add: book_step_inv)
  then show ?thesis by (simp add: book_run_def book_inv_new)
qed

text \<open>C14: whatever accounts are registered and transactions posted, refused commands included,
  the verifier accepts the book of every tenant and vouches for exactly its transactions.\<close>

theorem journal_always_verifies:
  "verify_journal sha tenant (book_run sha cs)
     = Inr (length (filter (\<lambda>r. tx_tenant r = tenant) (transactions (book_run sha cs))))"
  using book_run_inv [of sha cs] by (intro journal_inv_verifies) (simp add: book_inv_def)

end
