(* ===== verification/JournalTrust.thy ===== *)
theory JournalTrust
  imports JournalProps
begin

text \<open>
  What the journal's verification is worth: books of ledger money are balanced exactly, postings
  can be redelivered, and a transaction's digest determines its content.
\<close>

subsection \<open>Balances in units\<close>

definition side_units :: "EntrySide \<Rightarrow> posting \<Rightarrow> int" where
  "side_units normal p = (if po_side p = normal then units (po_base p) else - units (po_base p))"

lemma signed_units:
  assumes "ledger_money x"
  shows "fine (if b then x else dminus x) \<and> \<bar>units (if b then x else dminus x)\<bar> \<le> 10 ^ 23
    \<and> units (if b then x else dminus x) = (if b then units x else - units x)"
proof -
  from assms have x: "fine x" "\<bar>units x\<bar> < 10 ^ 23" by (simp_all add: ledger_money_def)
  then have "\<bar>units x\<bar> < 10 ^ prec" by (simp add: prec_def)
  with x show ?thesis using dminus_units [of x] by auto
qed

lemma balance_units:
  assumes "list_all (ledger_money \<circ> po_base) ps" "length ps \<le> 10000"
  shows "fine (balance_of normal po_base ps)
    \<and> units (balance_of normal po_base ps) = sum_list (map (side_units normal) ps)"
proof -
  define f where "f p = (if po_side p = normal then po_base p else dminus (po_base p))" for p :: posting
  have f: "fine (f p) \<and> \<bar>units (f p)\<bar> \<le> 10 ^ 23 \<and> units (f p) = side_units normal p" if "p \<in> set ps" for p
  proof -
    have "ledger_money (po_base p)" using assms(1) that by (simp add: list_all_iff)
    from signed_units [OF this, of "po_side p = normal"] show ?thesis unfolding side_units_def f_def by blast
  qed
  have "int (length ps) * 10 ^ 23 \<le> 10000 * 10 ^ 23" using assms(2) by (intro mult_right_mono) simp_all
  then have "int (length ps) * 10 ^ 23 < 10 ^ prec" by (simp add: prec_def)
  then have "fine (dsum (map f ps)) \<and> units (dsum (map f ps)) = sum_list (map units (map f ps))"
    by (intro dsum_units [of "10 ^ 23"]) (use f in \<open>unfold list_all_iff set_map, blast+\<close>, simp_all)
  moreover have "map units (map f ps) = map (side_units normal) ps" using f by simp
  ultimately show ?thesis by (simp only: balance_of_def f_def [abs_def, symmetric])
qed

lemma balanced_units:
  assumes "assert_balanced kind ps = Inr ()" "list_all (ledger_money \<circ> po_base) ps" "length ps \<le> 100"
  shows "sum_list (map (side_units DEBIT) ps) = 0"
proof -
  have "dsum (map signed_base ps) = balance_of DEBIT po_base ps"
    by (simp add: balance_of_def signed_base_def [abs_def])
  with assms(1) have "deq (balance_of DEBIT po_base ps) dzero"
    by (simp add: assert_balanced_def split: if_splits)
  with balance_units [OF assms(2), of DEBIT] assms(3) show ?thesis
    by (simp add: units_order)
qed

subsection \<open>The tenant's postings stay balanced\<close>

definition row_of_tenant :: "string \<Rightarrow> journal \<Rightarrow> posting_row \<Rightarrow> bool" where
  "row_of_tenant tenant s r = (case row_get tx_id (pr_transaction r) (transactions s) of
     None \<Rightarrow> False | Some row \<Rightarrow> tx_tenant row = tenant)"

lemma tenant_postings_rows: "tenant_postings tenant s = map pr_posting (filter (row_of_tenant tenant s) (postings s))"
  by (simp add: tenant_postings_def row_of_tenant_def [abs_def])

lemma book_exec_postings:
  assumes "book_inv sha s" "book_exec sha c s = Inr s'"
  obtains "postings s' = postings s" "tenant_postings tenant s' = tenant_postings tenant s"
  | tid ps kind where "postings s' = postings s @ posting_rows tid ps"
      "tenant_postings tenant s' = tenant_postings tenant s
        \<or> tenant_postings tenant s' = tenant_postings tenant s @ ps"
      "assert_balanced kind ps = Inr ()" "length ps \<le> 100"
proof (cases c)
  case (Register code ty)
  with assms(2) have "postings s' = postings s" "transactions s' = transactions s"
    by (auto simp: res_simps register_account_def split: option.splits if_splits)
  then show thesis by (intro that(1)) (simp_all add: tenant_postings_def)
next
  case (PostEntry tid te kind reference ps d)
  with assms(2) obtain v where post: "post sha tid te kind reference ps d s = Inr (s', v)"
    by (auto elim: post_entry_Inr)
  from post obtain bal: "assert_balanced kind ps = Inr ()" "length ps \<le> 100"
    and cases: "s' = s \<or> row_get tx_id tid (transactions s) = None
        \<and> tx_id (tv_row v) = tid
        \<and> s' = s\<lparr>transactions := transactions s @ [tv_row v], postings := postings s @ posting_rows tid ps\<rparr>"
    by (rule post_Inr) auto
  show thesis
  proof (cases "s' = s")
    case True
    then show thesis by (intro that(1)) simp_all
  next
    case False
    with cases have new: "row_get tx_id tid (transactions s) = None" "tx_id (tv_row v) = tid"
      and s': "s' = s\<lparr>transactions := transactions s @ [tv_row v], postings := postings s @ posting_rows tid ps\<rparr>"
      by auto
    have known: "pr_transaction r \<in> tx_id ` set (transactions s)" if "r \<in> set (postings s)" for r
      using assms(1) that by (auto simp: book_inv_def journal_inv_def)
    have old: "row_of_tenant tenant s' r = row_of_tenant tenant s r" if "r \<in> set (postings s)" for r
      using known [OF that]
      by (auto simp: row_of_tenant_def s' table_simps row_get_None_iff split: option.split)
    have own: "row_of_tenant tenant s' r \<longleftrightarrow> tx_tenant (tv_row v) = tenant" if "r \<in> set (posting_rows tid ps)" for r
      using posting_rows_fields(3) [OF that] new by (simp add: row_of_tenant_def s' table_simps)
    have "tenant_postings tenant s' = tenant_postings tenant s
        @ map pr_posting (filter (row_of_tenant tenant s') (posting_rows tid ps))"
      using old by (simp add: tenant_postings_rows s' cong: filter_cong)
    moreover have "filter (row_of_tenant tenant s') (posting_rows tid ps)
        = (if tx_tenant (tv_row v) = tenant then posting_rows tid ps else [])"
      using own by (auto simp: filter_empty_conv filter_id_conv)
    ultimately show thesis using bal
      by (intro that(2) [of tid ps kind]) (simp_all add: s' posting_rows_fields split: if_splits)
  qed
qed

definition money_book :: "journal \<Rightarrow> bool" where
  "money_book s = list_all (\<lambda>r. ledger_money (po_base (pr_posting r))) (postings s)"

lemma posting_rows_money:
  "list_all (\<lambda>r. ledger_money (po_base (pr_posting r))) (posting_rows tid ps) = list_all (ledger_money \<circ> po_base) ps"
proof -
  have "list_all (\<lambda>r. ledger_money (po_base (pr_posting r))) rs = list_all (ledger_money \<circ> po_base) (map pr_posting rs)" for rs
    by (simp add: list_all_iff)
  from this [of "posting_rows tid ps"] show ?thesis by (simp add: posting_rows_fields)
qed

lemma book_run_balanced:
  "money_book (book_run sha cs) \<Longrightarrow>
     sum_list (map (side_units DEBIT) (tenant_postings tenant (book_run sha cs))) = 0"
proof (induction cs rule: rev_induct)
  case Nil
  then show ?case by (simp add: book_run_def new_journal_def tenant_postings_def)
next
  case (snoc c cs)
  let ?s = "book_run sha cs"
  have step: "book_run sha (cs @ [c]) = book_step sha ?s c" by (simp add: book_run_def)
  show ?case
  proof (cases "book_exec sha c ?s")
    case (Inl e)
    with snoc step show ?thesis by (simp add: book_step_def)
  next
    case (Inr s')
    then have s': "book_run sha (cs @ [c]) = s'" by (simp add: step book_step_def)
    from book_run_inv Inr show ?thesis
    proof (cases rule: book_exec_postings [where tenant = tenant])
      case 1
      with snoc s' show ?thesis by (simp add: money_book_def)
    next
      case (2 tid ps kind)
      from 2(1) snoc.prems s' have m: "money_book ?s" "list_all (ledger_money \<circ> po_base) ps"
        by (simp_all add: money_book_def posting_rows_money)
      from balanced_units [OF 2(3) m(2) 2(4)] snoc.IH [OF m(1)] 2(2) s' show ?thesis by auto
    qed
  qed
qed

subsection \<open>The trial balance\<close>

lemma sum_by_account:
  assumes "distinct codes" "po_account ` set ps \<subseteq> set codes"
  shows "(\<Sum>c\<leftarrow>codes. sum_list (map g (filter (\<lambda>p. po_account p = c) ps))) = (sum_list (map g ps) :: int)"
  using assms(2)
proof (induction ps)
  case Nil
  show ?case by (induction codes) simp_all
next
  case (Cons p ps)
  have "(\<Sum>c\<leftarrow>cs. if po_account p = c then g p else 0) = (if po_account p \<in> set cs then g p else 0)"
    if "distinct cs" for cs
    using that by (induction cs) auto
  with assms(1) Cons.prems have "(\<Sum>c\<leftarrow>codes. if po_account p = c then g p else 0) = g p" by simp
  moreover have "sum_list (map g (filter (\<lambda>p. po_account p = c) (p # ps)))
      = (if po_account p = c then g p else 0) + sum_list (map g (filter (\<lambda>p. po_account p = c) ps))" for c
    by simp
  ultimately show ?case using Cons by (simp only: sum_list_addf) simp
qed

lemma tenant_posting_account:
  assumes "book_inv sha s"
  shows "po_account ` set (tenant_postings tenant s) \<subseteq> set (map ac_code (accounts s))"
proof -
  have "po_account (pr_posting r) \<in> ac_code ` set (accounts s)" if r: "r \<in> set (postings s)" for r
  proof -
    from assms r obtain row where row: "row \<in> set (transactions s)" "pr_transaction r = tx_id row"
      by (auto simp: book_inv_def journal_inv_def)
    with assms obtain ps where ps: "transaction_ok sha s row ps" by (auto simp: book_inv_def journal_inv_def)
    from r row(2) have "r \<in> set (filter (\<lambda>r. pr_transaction r = tx_id row) (postings s))" by simp
    with ps have "pr_posting r \<in> set (map pr_posting (posting_rows (tx_id row) ps))"
      by (simp add: transaction_ok_def)
    with ps show ?thesis
      unfolding posting_rows_fields transaction_ok_def validate_accounts_iff by blast
  qed
  then show ?thesis by (auto simp: tenant_postings_rows)
qed

definition account_units :: "string \<Rightarrow> journal \<Rightarrow> string \<Rightarrow> int" where
  "account_units tenant s c =
     sum_list (map (side_units DEBIT) (filter (\<lambda>p. po_account p = c) (tenant_postings tenant s)))"

lemma side_units_opposite: "sum_list (map (side_units CREDIT) ps) = - sum_list (map (side_units DEBIT) ps)"
proof (induction ps)
  case (Cons p ps)
  have "side_units CREDIT p = - side_units DEBIT p"
    by (cases "po_side p") (simp_all add: side_units_def)
  with Cons show ?case by simp
qed simp

lemma base_balance_units:
  assumes inv: "book_inv sha s" and a: "a \<in> set (accounts s)"
    and m: "money_book s" "length (postings s) \<le> 10000"
  shows "\<exists>d. base_balance tenant (ac_code a) s = Inr d \<and> dval d = of_int
      (if normal_side (ac_type a) = DEBIT then account_units tenant s (ac_code a)
       else - account_units tenant s (ac_code a)) * ten_pow (- 8)"
proof -
  let ?ps = "filter (\<lambda>p. po_account p = ac_code a) (tenant_postings tenant s)"
  have "row_get ac_code (ac_code a) (accounts s) = Some a"
    using inv a by (intro row_get_unique) (simp_all add: book_inv_def)
  moreover have "account_match (ac_code a)" using inv a by (auto simp: book_inv_def list_all_iff)
  ultimately have b: "base_balance tenant (ac_code a) s = Inr (balance_of (normal_side (ac_type a)) po_base ?ps)"
    by (simp add: base_balance_def)
  have "length ?ps \<le> length (postings s)"
    by (simp add: tenant_postings_rows)
  moreover have "list_all (ledger_money \<circ> po_base) ?ps"
    using m(1) by (auto simp: money_book_def list_all_iff tenant_postings_rows)
  ultimately have u: "fine (balance_of n po_base ?ps)
    \<and> units (balance_of n po_base ?ps) = sum_list (map (side_units n) ?ps)" for n
    using m(2) by (intro balance_units) simp_all
  have "normal_side (ac_type a) \<noteq> DEBIT \<Longrightarrow> normal_side (ac_type a) = CREDIT"
    by (metis EntrySide.exhaust)
  with u [of "normal_side (ac_type a)"] show ?thesis
    by (auto simp: b dval_units account_units_def side_units_opposite)
qed

lemma map_res_exists:
  "(\<And>x. x \<in> set xs \<Longrightarrow> \<exists>y. f x = Inr y \<and> h y = g x) \<Longrightarrow> \<exists>ys. map_res f xs = Inr ys \<and> map h ys = map g xs"
proof (induction xs)
  case Nil
  then show ?case by simp
next
  case (Cons x xs)
  from Cons.prems [of x] obtain y where "f x = Inr y" "h y = g x" by auto
  moreover from Cons obtain ys where "map_res f xs = Inr ys" "map h ys = map g xs" by auto
  ultimately show ?case by (intro exI [of _ "y # ys"]) simp
qed

text \<open>The accounts of one normal side, in the book's order.\<close>

definition side_accounts :: "EntrySide \<Rightarrow> journal \<Rightarrow> account list" where
  "side_accounts n s = filter (\<lambda>a. normal_side (ac_type a) = n) (accounts s)"

lemma side_accounts_sum:
  "(\<Sum>a\<leftarrow>side_accounts DEBIT s. f a) + (\<Sum>a\<leftarrow>side_accounts CREDIT s. f a) = (\<Sum>a\<leftarrow>accounts s. (f a :: int))"
proof -
  have "(\<Sum>a\<leftarrow>filter (\<lambda>a. normal_side (ac_type a) = DEBIT) as. f a)
      + (\<Sum>a\<leftarrow>filter (\<lambda>a. normal_side (ac_type a) = CREDIT) as. f a) = (\<Sum>a\<leftarrow>as. f a)" for as
  proof (induction as)
    case (Cons a as)
    then show ?case by (cases "normal_side (ac_type a)") simp_all
  qed simp
  then show ?thesis by (simp add: side_accounts_def)
qed

text \<open>C15: the trial balance is exact. In a book built by the public operations whose base amounts
  have at most eight decimals and stay below \<open>10 ^ 15\<close>, and which holds at most 10000 postings,
  every account's base balance can be read for every tenant, and the balances of the accounts
  that increase by debits add up to exactly those of the accounts that increase by credits.\<close>

theorem trial_balance:
  assumes "money_book (book_run sha cs)" "length (postings (book_run sha cs)) \<le> 10000"
  shows "\<exists>ds es. map_res (\<lambda>a. base_balance tenant (ac_code a) (book_run sha cs)) (side_accounts DEBIT (book_run sha cs)) = Inr ds
    \<and> map_res (\<lambda>a. base_balance tenant (ac_code a) (book_run sha cs)) (side_accounts CREDIT (book_run sha cs)) = Inr es
    \<and> sum_list (map dval ds) = sum_list (map dval es)"
proof -
  let ?s = "book_run sha cs"
  let ?u = "\<lambda>a. account_units tenant ?s (ac_code a)"
  have "(\<Sum>c\<leftarrow>map ac_code (accounts ?s). account_units tenant ?s c) = sum_list (map (side_units DEBIT) (tenant_postings tenant ?s))"
    unfolding account_units_def
  proof (rule sum_by_account)
    show "distinct (map ac_code (accounts ?s))" using book_run_inv [of sha cs] by (simp add: book_inv_def)
  qed (rule tenant_posting_account [OF book_run_inv])
  then have zero: "(\<Sum>a\<leftarrow>side_accounts DEBIT ?s. ?u a) = - (\<Sum>a\<leftarrow>side_accounts CREDIT ?s. ?u a)"
    using book_run_balanced [OF assms(1)] side_accounts_sum [of ?u ?s] by (simp add: comp_def)
  have sums: "(\<Sum>a\<leftarrow>as. of_int (f a) * c) = (of_int (\<Sum>a\<leftarrow>as. f a) * c :: rat)" for as f c
    by (induction as) (simp_all add: distrib_right)
  have bal: "\<exists>d. base_balance tenant (ac_code a) ?s = Inr d
      \<and> dval d = of_int (if n = DEBIT then ?u a else - ?u a) * ten_pow (- 8)" if "a \<in> set (side_accounts n ?s)" for n a
    using that base_balance_units [OF book_run_inv _ assms, of a tenant] by (auto simp: side_accounts_def)
  have "\<exists>ds. map_res (\<lambda>a. base_balance tenant (ac_code a) ?s) (side_accounts DEBIT ?s) = Inr ds
      \<and> map dval ds = map (\<lambda>a. of_int (?u a) * ten_pow (- 8)) (side_accounts DEBIT ?s)"
    by (rule map_res_exists) (use bal [of _ DEBIT] in simp)
  then obtain ds where ds: "map_res (\<lambda>a. base_balance tenant (ac_code a) ?s) (side_accounts DEBIT ?s) = Inr ds"
      "map dval ds = map (\<lambda>a. of_int (?u a) * ten_pow (- 8)) (side_accounts DEBIT ?s)" by blast
  have "\<exists>es. map_res (\<lambda>a. base_balance tenant (ac_code a) ?s) (side_accounts CREDIT ?s) = Inr es
      \<and> map dval es = map (\<lambda>a. of_int (- ?u a) * ten_pow (- 8)) (side_accounts CREDIT ?s)"
    by (rule map_res_exists) (use bal [of _ CREDIT] in simp)
  then obtain es where es: "map_res (\<lambda>a. base_balance tenant (ac_code a) ?s) (side_accounts CREDIT ?s) = Inr es"
      "map dval es = map (\<lambda>a. of_int (- ?u a) * ten_pow (- 8)) (side_accounts CREDIT ?s)" by blast
  have "sum_list (map dval ds) = sum_list (map dval es)"
    unfolding ds(2) es(2) sums zero by (simp add: uminus_sum_list_map comp_def)
  with ds es show ?thesis by blast
qed

subsection \<open>Redelivered commands\<close>

lemma read_transaction_inv:
  assumes "journal_inv sha s" "row_get tx_id tid (transactions s) = Some row"
  shows "\<exists>v. read_transaction tid s = Inr v"
proof -
  from assms(2) have row: "row \<in> set (transactions s)" "tx_id row = tid" using row_get_Some_key by fastforce+
  with assms(1) obtain ps where "transaction_ok sha s row ps" by (auto simp: journal_inv_def)
  from read_transaction_ok [OF this] assms(2) row(2) show ?thesis by auto
qed

lemma post_repeat:
  assumes "post sha tid tenant kind reference ps (Aware t) s = Inr (s', v)"
    and "ac_code ` set (accounts s) \<subseteq> ac_code ` set (accounts s2)" "journal_inv sha s2"
    and "row_get tx_id tid (transactions s2) = Some row"
    and "tx_sha256 row = sha (dumps (transaction_json tid tenant kind reference t ps))"
  shows "\<exists>v. post sha tid tenant kind reference ps (Aware t) s2 = Inr (s2, v)"
proof -
  from assms(1) have "validate_accounts s ps = Inr ()" by (rule post_Inr) simp
  with assms(2) have ok: "validate_accounts s2 ps = Inr ()" by (auto simp: validate_accounts_iff)
  obtain v2 where "read_transaction tid s2 = Inr v2" using read_transaction_inv [OF assms(3,4)] by blast
  moreover have "\<not> (\<not> id_match 160 tid \<or> \<not> id_match 160 tenant)"
      "\<not> (strip reference = [] \<or> 500 < length reference)" "\<not> (length ps < 2 \<or> 100 < length ps)"
      "assert_balanced kind ps = Inr ()"
    using assms(1) by (auto simp: post_def res_simps split: if_splits)
  ultimately show ?thesis using assms(4,5) ok by (simp add: post_def Let_def)
qed

lemma book_exec_extends:
  assumes "book_exec sha c s = Inr s'"
  shows "ac_code ` set (accounts s) \<subseteq> ac_code ` set (accounts s')"
    and "row_get ac_code k (accounts s) = Some a \<Longrightarrow> row_get ac_code k (accounts s') = Some a"
    and "row_get tx_id tid (transactions s) = Some row \<Longrightarrow> row_get tx_id tid (transactions s') = Some row"
proof -
  have "(\<exists>as. accounts s' = accounts s @ as) \<and> (\<exists>rows. transactions s' = transactions s @ rows)"
  proof (cases c)
    case (Register code ty)
    with assms show ?thesis
      by (auto simp: res_simps register_account_def split: option.splits if_splits)
  next
    case (PostEntry i te kind reference ps d)
    with assms obtain v where "post sha i te kind reference ps d s = Inr (s', v)" by (auto elim: post_entry_Inr)
    then show ?thesis by (rule post_Inr) auto
  qed
  then show "ac_code ` set (accounts s) \<subseteq> ac_code ` set (accounts s')"
    and "row_get ac_code k (accounts s) = Some a \<Longrightarrow> row_get ac_code k (accounts s') = Some a"
    and "row_get tx_id tid (transactions s) = Some row \<Longrightarrow> row_get tx_id tid (transactions s') = Some row"
    by (auto simp: table_simps)
qed

text \<open>A command is settled in a book when its traces are there: the account with its type, the
  transaction with its digest; and it passed its checks in an earlier book.\<close>

fun settled_entry :: "(string \<Rightarrow> string) \<Rightarrow> book_command \<Rightarrow> journal \<Rightarrow> bool" where
  "settled_entry sha (Register code ty) s \<longleftrightarrow> account_match code
     \<and> (\<exists>a. row_get ac_code code (accounts s) = Some a \<and> ac_type a = ty)"
| "settled_entry sha (PostEntry tid tenant kind reference ps d) s \<longleftrightarrow> list_all valid_posting ps
     \<and> (\<exists>t row s0 s1 v. d = Aware t \<and> row_get tx_id tid (transactions s) = Some row
       \<and> tx_sha256 row = sha (dumps (transaction_json tid tenant kind reference t ps))
       \<and> ac_code ` set (accounts s0) \<subseteq> ac_code ` set (accounts s)
       \<and> post sha tid tenant kind reference ps d s0 = Inr (s1, v))"

lemma settled_entry_noop:
  assumes "book_inv sha s" "settled_entry sha c s"
  shows "book_exec sha c s = Inr s"
proof (cases c)
  case (Register code ty)
  with assms(2) obtain a where "account_match code" "row_get ac_code code (accounts s) = Some a" "ac_type a = ty"
    by auto
  with Register show ?thesis by (simp add: new_account_def register_account_def)
next
  case (PostEntry tid tenant kind reference ps d)
  with assms(2) obtain t row s0 s1 v where *: "list_all valid_posting ps" "d = Aware t"
      "row_get tx_id tid (transactions s) = Some row"
      "tx_sha256 row = sha (dumps (transaction_json tid tenant kind reference t ps))"
      "ac_code ` set (accounts s0) \<subseteq> ac_code ` set (accounts s)"
      "post sha tid tenant kind reference ps (Aware t) s0 = Inr (s1, v)" by auto
  have "journal_inv sha s" using assms(1) by (simp add: book_inv_def)
  from post_repeat [OF *(6,5) this *(3,4)] obtain w
    where w: "post sha tid tenant kind reference ps (Aware t) s = Inr (s, w)" ..
  have "map_res new_posting ps = Inr (map id ps)"
    using *(1) by (intro map_res_Inr) (simp add: valid_posting_def list_all_iff)
  with w PostEntry *(2) show ?thesis by (simp add: post_entry_def)
qed

lemma settled_entry_accept:
  assumes "book_inv sha s" "book_exec sha c s = Inr s'"
  shows "settled_entry sha c s'"
proof (cases c)
  case (Register code ty)
  with assms(2) show ?thesis
    by (auto simp: res_simps new_account_def register_account_def table_simps
        split: option.splits if_splits)
next
  case (PostEntry tid tenant kind reference ps d)
  with assms(2) obtain v where post: "list_all valid_posting ps"
      "post sha tid tenant kind reference ps d s = Inr (s', v)"
    by (auto elim: post_entry_Inr)
  from post(2) have "\<exists>t row. d = Aware t \<and> row_get tx_id tid (transactions s') = Some row
      \<and> tx_sha256 row = sha (dumps (transaction_json tid tenant kind reference t ps))"
    by (rule post_Inr) (auto simp: table_simps)
  moreover have "ac_code ` set (accounts s) \<subseteq> ac_code ` set (accounts s')"
    by (simp add: post_accounts [OF post(2)])
  ultimately show ?thesis using post unfolding PostEntry settled_entry.simps by blast
qed

lemma settled_entry_stable:
  assumes "settled_entry sha c s" "book_exec sha c' s = Inr s'"
  shows "settled_entry sha c s'"
proof (cases c)
  case (Register code ty)
  with assms(1) book_exec_extends(2) [OF assms(2)] show ?thesis by auto
next
  case (PostEntry tid tenant kind reference ps d)
  with assms(1) obtain t row s0 s1 v where *: "list_all valid_posting ps" "d = Aware t"
      "row_get tx_id tid (transactions s) = Some row"
      "tx_sha256 row = sha (dumps (transaction_json tid tenant kind reference t ps))"
      "ac_code ` set (accounts s0) \<subseteq> ac_code ` set (accounts s)"
      "post sha tid tenant kind reference ps d s0 = Inr (s1, v)" by auto
  from *(5) book_exec_extends(1) [OF assms(2)] have "ac_code ` set (accounts s0) \<subseteq> ac_code ` set (accounts s')"
    by (rule subset_trans)
  with * book_exec_extends(3) [OF assms(2) *(3)] PostEntry show ?thesis by auto
qed

interpretation book_store: idempotent_store "book_exec sha" "settled_entry sha" "book_inv sha" for sha
proof (unfold_locales, goal_cases)
  case (1 s m s')
  then show ?case by (rule book_exec_inv)
next
  case (2 s m s')
  then show ?case by (rule settled_entry_accept)
next
  case (3 s m)
  then show ?case by (rule settled_entry_noop)
next
  case (4 s m m' s')
  from 4(2,3) show ?case by (rule settled_entry_stable)
qed

text \<open>C16: account registrations and postings may be delivered any number of times. If a sequence of
  commands was accepted by a book, delivering any of them again, in any order and multiplicity,
  is accepted and leaves the book as it is: no amount is counted twice.\<close>

theorem book_redelivery:
  assumes "foldr_res (\<lambda>s c. book_exec sha c s) (book_run sha cs) ms = Inr s'" "set ds \<subseteq> set ms"
  shows "foldr_res (\<lambda>s c. book_exec sha c s) s' ds = Inr s'"
  by (rule book_store.redelivery [OF book_run_inv assms])

subsection \<open>A digest determines the transaction\<close>

lemma kind_value_inj [simp]: "kind_value a = kind_value b \<longleftrightarrow> a = b"
  by (cases a; cases b) (simp_all add: kind_value_def)

lemma entry_value_inj [simp]: "entry_value a = entry_value b \<longleftrightarrow> a = b"
  by (cases a; cases b) (simp_all add: entry_value_def)

lemma posting_json_inj:
  assumes "canon (posting_json (m, p)) = canon (posting_json (n, q))"
  shows "m = n \<and> p = q"
proof -
  let ?ms = "\<lambda>(m, p). [(''sequence'', JInt (int m)), (''account'', JStr (po_account p)),
       (''side'', JStr (entry_value (po_side p))), (''currency'', JStr (po_currency p)),
       (''amount'', JStr (dec_str (po_amount p))), (''baseAmount'', JStr (dec_str (po_base p)))]"
  have "jget key (canon_members (?ms (m, p))) = jget key (canon_members (?ms (n, q)))" for key
    using assms by (simp add: posting_json_def)
  from this [of "''sequence''"] this [of "''account''"] this [of "''side''"] this [of "''currency''"]
    this [of "''amount''"] this [of "''baseAmount''"]
  show ?thesis by (simp add: jget_canon_members)
qed

lemma postings_json_inj:
  assumes "map (canon \<circ> posting_json) (zip [a..<a + length ps] ps) = map (canon \<circ> posting_json) (zip [a..<a + length qs] qs)"
  shows "ps = qs"
proof -
  have "ps = qs \<and> a = b" if "map (canon \<circ> posting_json) (zip [a..<a + length ps] ps) = map (canon \<circ> posting_json) (zip [b..<b + length qs] qs)"
    "a = b" for a b
    using that
  proof (induction ps arbitrary: a b qs)
    case Nil
    then show ?case by (cases qs) auto
  next
    case (Cons p ps)
    from Cons.prems(1) have "qs \<noteq> []" by (auto simp del: upt_Suc)
    then obtain q rs where qs: "qs = q # rs" by (cases qs) auto
    have u: "[k..<k + length (x # xs)] = k # [Suc k..<Suc k + length xs]" for k and x :: posting and xs
      by (simp add: upt_conv_Cons del: upt_Suc)
    from Cons.prems have "canon (posting_json (a, p)) = canon (posting_json (b, q))"
      "map (canon \<circ> posting_json) (zip [Suc a..<Suc a + length ps] ps)
        = map (canon \<circ> posting_json) (zip [Suc b..<Suc b + length rs] rs)"
      unfolding qs u by (simp_all only: list.map zip_Cons_Cons list.inject comp_def)
    with Cons.IH Cons.prems(2) posting_json_inj show ?case unfolding qs by blast
  qed
  with assms show ?thesis by blast
qed

lemma transaction_json_inj:
  assumes "dumps (transaction_json i te k r t ps) = dumps (transaction_json i' te' k' r' t' qs)"
  shows "i = i' \<and> te = te' \<and> k = k' \<and> r = r' \<and> iso_utc t = iso_utc t' \<and> ps = qs"
proof -
  let ?ms = "\<lambda>(i, te, k, r, t, ps). [(''transactionId'', JStr i), (''tenantId'', JStr te), (''kind'', JStr (kind_value k)),
       (''reference'', JStr r), (''at'', JStr (iso_utc t)),
       (''postings'', JArr (map posting_json (zip [1..<length ps + 1] ps)))]"
  have "jget key (canon_members (?ms (i, te, k, r, t, ps))) = jget key (canon_members (?ms (i', te', k', r', t', qs)))" for key
    using assms by (simp add: transaction_json_def del: upt_Suc)
  from this [of "''transactionId''"] this [of "''tenantId''"] this [of "''kind''"] this [of "''reference''"]
    this [of "''at''"] this [of "''postings''"]
  have "map (canon \<circ> posting_json) (zip [1..<1 + length ps] ps) = map (canon \<circ> posting_json) (zip [1..<1 + length qs] qs)"
    and rest: "i = i' \<and> te = te' \<and> k = k' \<and> r = r' \<and> iso_utc t = iso_utc t'"
    by (simp_all add: jget_canon_members del: upt_Suc)
  from postings_json_inj [OF this(1)] rest show ?thesis by blast
qed

lemma book_steps_keep_row:
  "row_get tx_id tid (transactions s) = Some row \<Longrightarrow>
     row_get tx_id tid (transactions (foldl (book_step sha) s cs)) = Some row"
proof (induction cs arbitrary: s)
  case Nil
  then show ?case by simp
next
  case (Cons c cs)
  then have "row_get tx_id tid (transactions (book_step sha s c)) = Some row"
    by (auto simp: book_step_def intro: book_exec_extends(3) split: sum.split)
  from Cons.IH [OF this] show ?case by simp
qed

lemma entry_conflict:
  assumes "post_entry sha tid te k r ps (Aware t) s = Inr s1"
    and "s2 = foldl (book_step sha) s1 cs"
    and "post_entry sha tid te' k' r' qs (Aware t') s2 = Inr s3"
  shows "(te = te' \<and> k = k' \<and> r = r' \<and> iso_utc t = iso_utc t' \<and> ps = qs \<and> s3 = s2)
    \<or> (\<exists>a b. a \<noteq> b \<and> sha a = sha b)"
proof -
  from assms(1) obtain v where p1: "post sha tid te k r ps (Aware t) s = Inr (s1, v)" by (auto elim: post_entry_Inr)
  then have "\<exists>row. row_get tx_id tid (transactions s1) = Some row
      \<and> tx_sha256 row = sha (dumps (transaction_json tid te k r t ps))"
    by (rule post_Inr) (auto simp: table_simps)
  then obtain row where row: "row_get tx_id tid (transactions s2) = Some row"
      "tx_sha256 row = sha (dumps (transaction_json tid te k r t ps))"
    unfolding assms(2) using book_steps_keep_row by blast
  from assms(3) obtain w where p2: "post sha tid te' k' r' qs (Aware t') s2 = Inr (s3, w)" by (auto elim: post_entry_Inr)
  have "s3 = s2 \<and> sha (dumps (transaction_json tid te k r t ps)) = sha (dumps (transaction_json tid te' k' r' t' qs))"
    using p2 by (rule post_Inr) (use row in auto)
  then show ?thesis using transaction_json_inj [of tid te k r t ps tid te' k' r' t' qs] by blast
qed


subsection \<open>A small book\<close>

definition sample_capital :: "posting list" where
  "sample_capital =
     [\<lparr>po_account = ''CASH_AVAILABLE'', po_side = DEBIT, po_currency = ''INR'', po_amount = Fin False 100 0, po_base = Fin False 100 0\<rparr>,
      \<lparr>po_account = ''CAPITAL'', po_side = CREDIT, po_currency = ''INR'', po_amount = Fin False 100 0, po_base = Fin False 100 0\<rparr>]"

definition sample_digest :: "string \<Rightarrow> string" where
  "sample_digest x = ''h''"

abbreviation sample_seed :: book_command where
  "sample_seed \<equiv> PostEntry ''t1'' ''acme'' CAPITAL ''seed'' sample_capital (Aware 0)"

definition sample_book :: journal where
  "sample_book = new_journal\<lparr>transactions := [\<lparr>tx_id = ''t1'', tx_tenant = ''acme'', tx_kind = CAPITAL,
       tx_reference = ''seed'', tx_at = 0, tx_sha256 = ''h''\<rparr>], postings := posting_rows ''t1'' sample_capital\<rparr>"

lemma sample_capital_ok: "map_res new_posting sample_capital = Inr sample_capital"
  "validate_accounts new_journal sample_capital = Inr ()" "assert_balanced CAPITAL sample_capital = Inr ()"
proof -
  show "map_res new_posting sample_capital = Inr sample_capital"
    by (simp add: sample_capital_def new_posting_def account_match_def currency_match_def is_upper_def is_digit_def dec_evals)
  show "validate_accounts new_journal sample_capital = Inr ()"
    by (simp add: validate_accounts_iff sample_capital_def new_journal_def canonical_accounts_def)
  show "assert_balanced CAPITAL sample_capital = Inr ()"
    by (simp add: assert_balanced_def sample_capital_def currency_total_def signed_base_def signed_native_def dec_evals)
qed

lemma sample_seed_exec: "book_exec sample_digest sample_seed new_journal = Inr sample_book"
proof -
  have "id_match 160 ''t1''" "id_match 160 ''acme''" "strip ''seed'' \<noteq> []"
    by (simp_all add: id_match_def id_char_def is_upper_def is_lower_def is_digit_def strip_def lstrip_def is_space_def)
  moreover have "transactions new_journal = []" "postings new_journal = []" "length sample_capital = 2"
    by (simp_all add: new_journal_def sample_capital_def)
  ultimately show ?thesis
    by (simp add: post_entry_def sample_capital_ok post_def sample_digest_def Let_def sample_book_def posting_rows_def)
qed

lemma sample_book_run: "book_run sample_digest [sample_seed] = sample_book"
  using sample_seed_exec by (simp add: book_run_def book_step_def)

lemma sample_book_money: "money_book sample_book" "length (postings sample_book) = 2"
proof -
  show "money_book sample_book"
  proof -
    have "money_book sample_book = list_all (ledger_money \<circ> po_base) sample_capital"
      by (simp add: money_book_def sample_book_def posting_rows_money)
    then show ?thesis by (simp add: sample_capital_def ledger_money_def fine_def units_def dec_evals)
  qed
  show "length (postings sample_book) = 2"
    by (simp add: sample_book_def posting_rows_def sample_capital_def)
qed

theorem trial_balance_witness:
  "\<exists>ds es. map_res (\<lambda>a. base_balance ''acme'' (ac_code a) (book_run sample_digest [sample_seed]))
       (side_accounts DEBIT (book_run sample_digest [sample_seed])) = Inr ds
    \<and> map_res (\<lambda>a. base_balance ''acme'' (ac_code a) (book_run sample_digest [sample_seed]))
       (side_accounts CREDIT (book_run sample_digest [sample_seed])) = Inr es
    \<and> sum_list (map dval ds) = sum_list (map dval es)"
  by (rule trial_balance) (simp_all add: sample_book_run sample_book_money)

theorem book_redelivery_witness:
  "foldr_res (\<lambda>s c. book_exec sample_digest c s) sample_book [sample_seed, sample_seed] = Inr sample_book
     \<and> transactions sample_book \<noteq> []"
proof -
  have "foldr_res (\<lambda>s c. book_exec sample_digest c s) (book_run sample_digest []) [sample_seed] = Inr sample_book"
    using sample_seed_exec by (simp add: book_run_def del: book_exec.simps)
  from book_redelivery [OF this, of "[sample_seed, sample_seed]"] show ?thesis
    by (simp add: sample_book_def del: book_exec.simps)
qed


end
