(* ===== verification/Trading.thy ===== *)
theory Trading
  imports JournalTrust
begin

text \<open>
  \<^verbatim>\<open>src/quant_ai/accounting/trading.py\<close>: trading events as balanced postings. Every method is
  the list of postings it builds, handed to the journal under the tenant of the object; the
  amounts are finite decimals.
\<close>

definition entry :: "string \<Rightarrow> EntrySide \<Rightarrow> string \<Rightarrow> dec \<Rightarrow> dec \<Rightarrow> posting" where
  "entry account side currency amount base =
     \<lparr>po_account = account, po_side = side, po_currency = currency, po_amount = amount, po_base = base\<rparr>"

text \<open>Building the postings, then \<open>self.journal.post\<close>.\<close>

definition book_post ::
    "(string \<Rightarrow> string) \<Rightarrow> string \<Rightarrow> string \<Rightarrow> TransactionKind \<Rightarrow> string \<Rightarrow> posting list \<Rightarrow> datetime
      \<Rightarrow> journal \<Rightarrow> (journal \<times> transaction_view) res" where
  "book_post sha tid tenant kind reference ps when s =
     ebind (map_res new_posting ps) (\<lambda>qs. post sha tid tenant kind reference qs when s)"

definition seed_capital where
  "seed_capital sha tenant tid currency amount base when s =
     book_post sha tid tenant CAPITAL ''initial capital''
       [entry ''CASH_AVAILABLE'' DEBIT currency amount base, entry ''CAPITAL'' CREDIT currency amount base] when s"

definition buy_security where
  "buy_security sha tenant tid currency notional base reference when s =
     book_post sha tid tenant TRADE reference
       [entry ''SECURITIES_COST'' DEBIT currency notional base,
        entry ''CASH_AVAILABLE'' CREDIT currency notional base] when s"

text \<open>The postings of a sale: cash in, cost out, and the difference as realized profit or loss.\<close>

definition sale_postings :: "string \<Rightarrow> dec \<Rightarrow> dec \<Rightarrow> dec \<Rightarrow> dec \<Rightarrow> posting list res" where
  "sale_postings currency proceeds cost base_proceeds base_cost =
     (if list_ex (\<lambda>v. dle v dzero) [proceeds, cost, base_proceeds, base_cost]
        then Inl (ValueError ''security_sale_values_must_be_positive_finite'')
      else
        let native_pnl = dsub proceeds cost; base_pnl = dsub base_proceeds base_cost in
        if (dlt dzero native_pnl \<noteq> dlt dzero base_pnl) \<and> \<not> deq native_pnl dzero \<and> \<not> deq base_pnl dzero
          then Inl (ValueError ''security_sale_native_and_base_pnl_sign_mismatch'')
        else Inr ([entry ''CASH_AVAILABLE'' DEBIT currency proceeds base_proceeds,
                   entry ''SECURITIES_COST'' CREDIT currency cost base_cost]
          @ (if dlt dzero native_pnl then [entry ''REALIZED_PNL'' CREDIT currency native_pnl base_pnl]
             else if dlt native_pnl dzero
               then [entry ''REALIZED_PNL'' DEBIT currency (dminus native_pnl) (dminus base_pnl)]
             else [])))"

definition sell_security where
  "sell_security sha tenant tid currency proceeds cost base_proceeds base_cost reference when s =
     ebind (sale_postings currency proceeds cost base_proceeds base_cost)
       (\<lambda>ps. book_post sha tid tenant TRADE reference ps when s)"

definition reserve_margin where
  "reserve_margin sha tenant tid currency amount base reference when s =
     book_post sha tid tenant MARGIN_RESERVE reference
       [entry ''CASH_RESERVED_MARGIN'' DEBIT currency amount base,
        entry ''CASH_AVAILABLE'' CREDIT currency amount base] when s"

definition release_margin where
  "release_margin sha tenant tid currency amount base reference when s =
     book_post sha tid tenant MARGIN_RELEASE reference
       [entry ''CASH_AVAILABLE'' DEBIT currency amount base,
        entry ''CASH_RESERVED_MARGIN'' CREDIT currency amount base] when s"

definition cash_fee where
  "cash_fee sha tenant tid currency amount base reference tax when s =
     book_post sha tid tenant (if tax then TAX else FEE) reference
       [entry (if tax then ''TAX_EXPENSE'' else ''FEE_EXPENSE'') DEBIT currency amount base,
        entry ''CASH_AVAILABLE'' CREDIT currency amount base] when s"

definition realize_pnl where
  "realize_pnl sha tenant tid currency pnl base_pnl reference when s =
     (if deq pnl dzero \<or> deq base_pnl dzero then Inl (ValueError ''realized_pnl_must_be_nonzero_finite'')
      else if dlt dzero pnl \<noteq> dlt dzero base_pnl
        then Inl (ValueError ''realized_pnl_native_and_base_sign_mismatch'')
      else book_post sha tid tenant REALIZED_PNL reference
        (if dlt dzero pnl
         then [entry ''CASH_AVAILABLE'' DEBIT currency (dabs pnl) (dabs base_pnl),
               entry ''REALIZED_PNL'' CREDIT currency (dabs pnl) (dabs base_pnl)]
         else [entry ''REALIZED_PNL'' DEBIT currency (dabs pnl) (dabs base_pnl),
               entry ''CASH_AVAILABLE'' CREDIT currency (dabs pnl) (dabs base_pnl)]) when s)"

definition convert_cash where
  "convert_cash sha tenant tid from_currency from_amount to_currency to_amount base reference when s =
     (if from_currency = to_currency then Inl (ValueError ''fx_conversion_requires_different_currencies'')
      else book_post sha tid tenant FX_CONVERSION reference
        [entry ''CASH_AVAILABLE'' DEBIT to_currency to_amount base,
         entry ''CASH_AVAILABLE'' CREDIT from_currency from_amount base] when s)"

subsection \<open>Sales book exactly the profit\<close>

lemma book_post_Inr:
  assumes "book_post sha tid tenant kind reference ps when s = Inr r"
  shows "list_all valid_posting ps" "assert_balanced kind ps = Inr ()"
proof -
  from assms have p: "list_all valid_posting ps \<and> post sha tid tenant kind reference ps when s = Inr r"
    by (auto simp: book_post_def res_simps dest: map_res_new_posting)
  then show "list_all valid_posting ps" ..
  show "assert_balanced kind ps = Inr ()"
    using p by (cases r) (auto elim: post_Inr)
qed

lemma valid_entry: "valid_posting (entry a d c x y) \<Longrightarrow> 0 < dval x \<and> 0 < dval y"
  by (auto simp: valid_posting_def new_posting_def entry_def dec_order not_le split: if_splits)

lemma money_diff:
  assumes "ledger_money x" "ledger_money y"
  shows "fine (dsub x y) \<and> units (dsub x y) = units x - units y \<and> fine (dminus (dsub x y))
    \<and> units (dminus (dsub x y)) = units y - units x"
proof -
  from assms have "fine x" "fine y" "\<bar>units x - units y\<bar> < 10 ^ prec"
    by (auto simp: ledger_money_def prec_def)
  from dsub_units [OF this] this(3) show ?thesis using dminus_units [of "dsub x y"] by auto
qed

lemma dval_pos_units: "fine x \<Longrightarrow> 0 < dval x \<longleftrightarrow> 0 < units x"
  by (simp add: dval_units zero_less_mult_iff)

text \<open>C18: a sale that is accepted books exactly the profit. With amounts of ledger money, the
  postings of an accepted sale either balance without a profit posting, and then proceeds equal
  cost in both currencies, or carry one posting to realized profit and loss whose amounts are
  exactly the differences between proceeds and cost, as a credit for a profit and a debit for
  a loss, with profit or loss in both currencies alike.\<close>

theorem sale_books_exact_pnl:
  assumes "sell_security sha tenant tid currency proceeds cost base_proceeds base_cost reference d s = Inr r"
    and "list_all ledger_money [proceeds, cost, base_proceeds, base_cost]"
  shows "\<exists>ps. sale_postings currency proceeds cost base_proceeds base_cost = Inr ps
    \<and> book_post sha tid tenant TRADE reference ps d s = Inr r
    \<and> (length ps = 2 \<and> units proceeds = units cost \<and> units base_proceeds = units base_cost
     \<or> length ps = 3 \<and> po_account (ps ! 2) = ''REALIZED_PNL''
       \<and> po_side (ps ! 2) = (if units cost < units proceeds then CREDIT else DEBIT)
       \<and> units (po_amount (ps ! 2)) = \<bar>units proceeds - units cost\<bar>
       \<and> units (po_base (ps ! 2)) = \<bar>units base_proceeds - units base_cost\<bar>
       \<and> units cost \<noteq> units proceeds
       \<and> sgn (units proceeds - units cost) = sgn (units base_proceeds - units base_cost))"
proof -
  let ?n = "dsub proceeds cost" and ?b = "dsub base_proceeds base_cost"
  from assms(1) obtain ps where ps: "sale_postings currency proceeds cost base_proceeds base_cost = Inr ps"
      "book_post sha tid tenant TRADE reference ps d s = Inr r" by (auto simp: sell_security_def res_simps)
  note valid = book_post_Inr [OF ps(2)]
  from assms(2) have n: "fine ?n" "units ?n = units proceeds - units cost" "fine (dminus ?n)"
      "units (dminus ?n) = units cost - units proceeds"
    and b: "fine ?b" "units ?b = units base_proceeds - units base_cost" "fine (dminus ?b)"
      "units (dminus ?b) = units base_cost - units base_proceeds" using money_diff by auto
  let ?two = "[entry ''CASH_AVAILABLE'' DEBIT currency proceeds base_proceeds,
                   entry ''SECURITIES_COST'' CREDIT currency cost base_cost]"
  have p: "ps = ?two @ (if 0 < units ?n then [entry ''REALIZED_PNL'' CREDIT currency ?n ?b]
      else if units ?n < 0 then [entry ''REALIZED_PNL'' DEBIT currency (dminus ?n) (dminus ?b)] else [])"
    using ps(1) n(1) by (auto simp: sale_postings_def Let_def units_order split: if_splits)
  consider (gain) "0 < units ?n" | (loss) "units ?n < 0" | (flat) "units ?n = 0" by linarith
  then show ?thesis
  proof cases
    case gain
    with p have ps3: "ps = ?two @ [entry ''REALIZED_PNL'' CREDIT currency ?n ?b]" by simp
    with valid(1) have "0 < dval ?b" using valid_entry by auto
    with b have "0 < units base_proceeds - units base_cost" by (simp add: dval_pos_units)
    with gain n b ps show ?thesis unfolding ps3 by (intro exI [of _ ps]) (simp add: ps3 entry_def)
  next
    case loss
    with p have ps3: "ps = ?two @ [entry ''REALIZED_PNL'' DEBIT currency (dminus ?n) (dminus ?b)]" by simp
    with valid(1) have "0 < dval (dminus ?b)" using valid_entry by auto
    with b have "units base_proceeds - units base_cost < 0" by (simp add: dval_pos_units)
    with loss n b ps show ?thesis unfolding ps3 by (intro exI [of _ ps]) (simp add: ps3 entry_def)
  next
    case flat
    with p have ps2: "ps = ?two" by simp
    have "sum_list (map (side_units DEBIT) ps) = 0"
      using valid(2) assms(2) by (intro balanced_units) (simp_all add: ps2 entry_def)
    then have "units base_proceeds = units base_cost" by (simp add: ps2 side_units_def entry_def)
    with flat n ps show ?thesis by (intro exI [of _ ps]) (simp add: ps2)
  qed
qed

definition sample_sale :: "posting list" where
  "sample_sale =
     [entry ''CASH_AVAILABLE'' DEBIT ''INR'' (Fin False 125 (- 1)) (Fin False 125 (- 1)),
      entry ''SECURITIES_COST'' CREDIT ''INR'' (Fin False 10 0) (Fin False 10 0),
      entry ''REALIZED_PNL'' CREDIT ''INR'' (Fin False 25 (- 1)) (Fin False 25 (- 1))]"

lemma sample_sale_accepted: "\<exists>r. book_post sample_digest ''t2'' ''acme'' TRADE ''sale'' sample_sale (Aware 0) new_journal = Inr r"
proof -
  have "map_res new_posting sample_sale = Inr sample_sale"
    by (simp add: sample_sale_def entry_def new_posting_def account_match_def currency_match_def is_upper_def is_digit_def dec_evals)
  moreover have "validate_accounts new_journal sample_sale = Inr ()"
    by (simp add: validate_accounts_iff sample_sale_def entry_def new_journal_def canonical_accounts_def)
  moreover have "assert_balanced TRADE sample_sale = Inr ()"
    by (simp add: assert_balanced_def sample_sale_def entry_def currency_total_def signed_base_def signed_native_def dec_evals)
  moreover have "id_match 160 ''t2''" "id_match 160 ''acme''" "strip ''sale'' \<noteq> []"
    by (simp_all add: id_match_def id_char_def is_upper_def is_lower_def is_digit_def strip_def lstrip_def is_space_def)
  moreover have "transactions new_journal = []" "postings new_journal = []" "length sample_sale = 3"
    by (simp_all add: new_journal_def sample_sale_def)
  ultimately show ?thesis by (simp add: book_post_def post_def Let_def)
qed

lemma sample_sale_postings:
  "sale_postings ''INR'' (Fin False 125 (- 1)) (Fin False 10 0) (Fin False 125 (- 1)) (Fin False 10 0) = Inr sample_sale"
  by (simp add: sale_postings_def sample_sale_def Let_def dec_evals)

theorem sale_books_exact_pnl_witness:
  "\<exists>ps. sale_postings ''INR'' (Fin False 125 (- 1)) (Fin False 10 0) (Fin False 125 (- 1)) (Fin False 10 0) = Inr ps
    \<and> length ps = 3 \<and> units (po_amount (ps ! 2)) = 250000000"
proof -
  from sample_sale_accepted obtain r where r:
    "sell_security sample_digest ''acme'' ''t2'' ''INR'' (Fin False 125 (- 1)) (Fin False 10 0) (Fin False 125 (- 1))
       (Fin False 10 0) ''sale'' (Aware 0) new_journal = Inr r"
    by (auto simp: sell_security_def sample_sale_postings)
  have money: "list_all ledger_money [Fin False 125 (- 1), Fin False 10 0, Fin False 125 (- 1), Fin False 10 0]"
    by (simp add: ledger_money_def fine_def units_def dec_evals)
  have "units (Fin False 125 (- 1)) = 1250000000" "units (Fin False 10 0) = 1000000000"
    by (simp_all add: units_def dec_evals)
  with sale_books_exact_pnl [OF r money] show ?thesis by auto
qed

end
