(* ===== verification/Settlement.thy ===== *)
theory Settlement
  imports Trading
begin

text \<open>
  \<^verbatim>\<open>src/quant_ai/accounting/settlement.py\<close>: settlement obligations linked to the journal. The
  journal and the settlement table are two databases, so posting and recording are separate
  transactions: \<open>open_settlement\<close> and \<open>settle\<close> first post and then write their row, and a crash
  between the two leaves the journal ahead of the table.
\<close>

subsection \<open>Data\<close>

datatype SettlementDirection = RECEIVABLE | PAYABLE

datatype SettlementState = SETTLE_PENDING | SETTLED | SETTLE_CANCELLED

record instruction =
  si_id :: string
  si_tenant :: string
  si_reference :: string
  si_direction :: SettlementDirection
  si_currency :: string
  si_amount :: dec
  si_base :: dec
  si_due :: datetime

definition new_instruction :: "instruction \<Rightarrow> instruction res" where
  "new_instruction i =
     (if \<not> id_match 160 (si_id i) \<or> \<not> id_match 160 (si_tenant i)
        then Inl (ValueError ''invalid_settlement_identity'')
      else if strip (si_reference i) = [] then Inl (ValueError ''settlement_reference_required'')
      else
      ebind (utc_instant (ValueError ''settlement_due_at_must_be_timezone_aware'') (si_due i)) (\<lambda>_.
      if dle (si_amount i) dzero then Inl (ValueError ''settlement_amount_must_be_positive'')
      else if dle (si_base i) dzero then Inl (ValueError ''settlement_base_amount_must_be_positive'')
      else Inr i))"

record settlement_row =
  se_id :: string
  se_tenant :: string
  se_reference :: string
  se_direction :: SettlementDirection
  se_currency :: string
  se_amount :: dec
  se_base :: dec
  se_due :: instant
  se_state :: SettlementState
  se_opened :: string
  se_closed :: "string option"

record settlement_book =
  book :: journal
  settlements :: "settlement_row list"

definition new_settlement_book :: settlement_book where
  "new_settlement_book = \<lparr>book = new_journal, settlements = []\<rparr>"

definition open_id :: "string \<Rightarrow> string" where
  "open_id sid = ''settlement-open:'' @ sid"

definition close_id :: "string \<Rightarrow> string" where
  "close_id sid = ''settlement-close:'' @ sid"

subsection \<open>Opening\<close>

definition open_postings :: "instruction \<Rightarrow> posting list" where
  "open_postings i =
     (if si_direction i = RECEIVABLE
      then [entry ''SETTLEMENT_RECEIVABLE'' DEBIT (si_currency i) (si_amount i) (si_base i),
            entry ''BROKER_CLEARING'' CREDIT (si_currency i) (si_amount i) (si_base i)]
      else [entry ''BROKER_CLEARING'' DEBIT (si_currency i) (si_amount i) (si_base i),
            entry ''SETTLEMENT_PAYABLE'' CREDIT (si_currency i) (si_amount i) (si_base i)])"

definition same_settlement :: "settlement_row \<Rightarrow> instruction \<Rightarrow> bool" where
  "same_settlement row i \<longleftrightarrow> se_tenant row = si_tenant i \<and> se_reference row = si_reference i
     \<and> se_direction row = si_direction i \<and> se_currency row = si_currency i
     \<and> deq (se_amount row) (si_amount i) \<and> deq (se_base row) (si_base i) \<and> Aware (se_due row) = si_due i"

definition open_posting :: "(string \<Rightarrow> string) \<Rightarrow> instruction \<Rightarrow> datetime \<Rightarrow> journal \<Rightarrow> journal res" where
  "open_posting sha i when j =
     ebind (book_post sha (open_id (si_id i)) (si_tenant i) SETTLEMENT_OPEN (si_reference i) (open_postings i) when j)
       (\<lambda>(j', _). Inr j')"

definition pending_row :: "instruction \<Rightarrow> instant \<Rightarrow> settlement_row" where
  "pending_row i due =
     \<lparr>se_id = si_id i, se_tenant = si_tenant i, se_reference = si_reference i, se_direction = si_direction i,
      se_currency = si_currency i, se_amount = si_amount i, se_base = si_base i, se_due = due,
      se_state = SETTLE_PENDING, se_opened = open_id (si_id i), se_closed = None\<rparr>"

definition open_settlement :: "(string \<Rightarrow> string) \<Rightarrow> instruction \<Rightarrow> datetime \<Rightarrow> settlement_book \<Rightarrow> settlement_book res" where
  "open_settlement sha i when sb =
     (case row_get se_id (si_id i) (settlements sb) of
        Some row \<Rightarrow> if \<not> same_settlement row i then Inl (ValueError ''settlement_id_payload_mismatch'') else Inr sb
      | None \<Rightarrow>
          ebind (open_posting sha i when (book sb)) (\<lambda>j.
          ebind (utc_instant (ValueError ''settlement_due_at_must_be_timezone_aware'') (si_due i)) (\<lambda>due.
          Inr (sb\<lparr>book := j, settlements := settlements sb @ [pending_row i due]\<rparr>))))"

subsection \<open>Settling\<close>

definition close_postings :: "settlement_row \<Rightarrow> posting list" where
  "close_postings row =
     (if se_direction row = RECEIVABLE
      then [entry ''CASH_AVAILABLE'' DEBIT (se_currency row) (se_amount row) (se_base row),
            entry ''SETTLEMENT_RECEIVABLE'' CREDIT (se_currency row) (se_amount row) (se_base row)]
      else [entry ''SETTLEMENT_PAYABLE'' DEBIT (se_currency row) (se_amount row) (se_base row),
            entry ''CASH_AVAILABLE'' CREDIT (se_currency row) (se_amount row) (se_base row)])"

definition close_posting :: "(string \<Rightarrow> string) \<Rightarrow> settlement_row \<Rightarrow> datetime \<Rightarrow> journal \<Rightarrow> journal res" where
  "close_posting sha row when j =
     ebind (book_post sha (close_id (se_id row)) (se_tenant row) SETTLEMENT_CLOSE (se_reference row)
              (close_postings row) when j) (\<lambda>(j', _). Inr j')"

definition settle :: "(string \<Rightarrow> string) \<Rightarrow> string \<Rightarrow> datetime \<Rightarrow> bool \<Rightarrow> settlement_book \<Rightarrow> settlement_book res" where
  "settle sha sid now allow_early sb =
     (case row_get se_id sid (settlements sb) of
        None \<Rightarrow> Inl (KeyError sid)
      | Some row \<Rightarrow>
          if se_state row = SETTLED then Inr sb
          else if se_state row \<noteq> SETTLE_PENDING then Inl (ValueError ''settlement_not_pending'')
          else
          ebind (utc_instant (ValueError ''settlement_now_must_be_timezone_aware'') now) (\<lambda>moment.
          if moment < se_due row \<and> \<not> allow_early then Inl (ValueError ''settlement_not_due'')
          else
          ebind (close_posting sha row (Aware moment) (book sb)) (\<lambda>j.
          Inr (sb\<lparr>book := j, settlements := row_upd se_id sid
            (\<lambda>r. r\<lparr>se_state := SETTLED, se_closed := Some (close_id sid)\<rparr>) (settlements sb)\<rparr>))))"

definition row_instruction :: "settlement_row \<Rightarrow> instruction" where
  "row_instruction row =
     \<lparr>si_id = se_id row, si_tenant = se_tenant row, si_reference = se_reference row, si_direction = se_direction row,
      si_currency = se_currency row, si_amount = se_amount row, si_base = se_base row, si_due = Aware (se_due row)\<rparr>"

definition pending_settlements :: "string \<Rightarrow> settlement_book \<Rightarrow> instruction list res" where
  "pending_settlements tenant sb =
     map_res (new_instruction \<circ> row_instruction)
       (sort_key se_due (sort_key se_id
         (filter (\<lambda>r. se_tenant r = tenant \<and> se_state r = SETTLE_PENDING) (settlements sb))))"

end
