(* ===== verification/SettlementProps.thy ===== *)
theory SettlementProps
  imports Settlement
begin

text \<open>
  The settlement table and the journal agree after every run of the two operations; what a crash
  between posting and recording leaves, and which settlements can never be closed.
\<close>

subsection \<open>Runs\<close>

datatype settlement_command =
    OpenSettlement instruction datetime
  | Settle string datetime bool

fun settlement_exec :: "(string \<Rightarrow> string) \<Rightarrow> settlement_command \<Rightarrow> settlement_book \<Rightarrow> settlement_book res" where
  "settlement_exec sha (OpenSettlement i d) sb = ebind (new_instruction i) (\<lambda>i. open_settlement sha i d sb)"
| "settlement_exec sha (Settle sid now early) sb = settle sha sid now early sb"

definition settlement_step :: "(string \<Rightarrow> string) \<Rightarrow> settlement_book \<Rightarrow> settlement_command \<Rightarrow> settlement_book" where
  "settlement_step sha sb c = (case settlement_exec sha c sb of Inl _ \<Rightarrow> sb | Inr sb' \<Rightarrow> sb')"

definition settlement_run :: "(string \<Rightarrow> string) \<Rightarrow> settlement_command list \<Rightarrow> settlement_book" where
  "settlement_run sha cs = foldl (settlement_step sha) new_settlement_book cs"

subsection \<open>Posting under a name\<close>

lemma ids_distinct [simp]: "open_id a \<noteq> close_id b" "close_id b \<noteq> open_id a"
  "open_id a = open_id b \<longleftrightarrow> a = b" "close_id a = close_id b \<longleftrightarrow> a = b"
  by (simp_all add: open_id_def close_id_def)

definition tx_ids :: "journal \<Rightarrow> string set" where
  "tx_ids j = tx_id ` set (transactions j)"

lemma book_post_effect:
  assumes "book_post sha tid te k r ps d j = Inr (j', v)" "book_inv sha j"
  shows "book_inv sha j'" "tx_ids j' = insert tid (tx_ids j)"
proof -
  have p: "list_all valid_posting ps" "post sha tid te k r ps d j = Inr (j', v)"
    using assms(1) by (auto simp: book_post_def res_simps dest: map_res_new_posting)
  have "post_entry sha tid te k r ps d j = Inr j'" using assms(1) by (auto simp: book_post_def post_entry_def res_simps)
  then have "book_exec sha (PostEntry tid te k r ps d) j = Inr j'" by simp
  with assms(2) show "book_inv sha j'" by (rule book_exec_inv)
  show "tx_ids j' = insert tid (tx_ids j)"
    using p(2) by (rule post_Inr) (auto simp: tx_ids_def image_iff dest!: row_get_Some_key)
qed

lemma open_posting_effect:
  assumes "open_posting sha i d j = Inr j'" "book_inv sha j"
  shows "book_inv sha j'" "tx_ids j' = insert (open_id (si_id i)) (tx_ids j)"
  using assms by (auto simp: open_posting_def res_simps dest: book_post_effect)

lemma close_posting_effect:
  assumes "close_posting sha row d j = Inr j'" "book_inv sha j"
  shows "book_inv sha j'" "tx_ids j' = insert (close_id (se_id row)) (tx_ids j)"
  using assms by (auto simp: close_posting_def res_simps dest: book_post_effect)

subsection \<open>Table and journal agree\<close>

definition row_closed_ok :: "settlement_row \<Rightarrow> bool" where
  "row_closed_ok row \<longleftrightarrow> se_opened row = open_id (se_id row)
     \<and> (se_state row = SETTLE_PENDING \<and> se_closed row = None
      \<or> se_state row = SETTLED \<and> se_closed row = Some (close_id (se_id row)))"

definition settlement_inv :: "(string \<Rightarrow> string) \<Rightarrow> settlement_book \<Rightarrow> bool" where
  "settlement_inv sha sb \<longleftrightarrow> book_inv sha (book sb) \<and> distinct (map se_id (settlements sb))
     \<and> (\<forall>row \<in> set (settlements sb). row_closed_ok row)
     \<and> tx_ids (book sb) = (open_id \<circ> se_id) ` set (settlements sb)
         \<union> (close_id \<circ> se_id) ` {row \<in> set (settlements sb). se_state row = SETTLED}"

lemma settlement_inv_new: "settlement_inv sha new_settlement_book"
  using book_inv_new by (simp add: settlement_inv_def new_settlement_book_def tx_ids_def new_journal_def)

lemma open_settlement_inv:
  assumes inv: "settlement_inv sha sb" and op: "open_settlement sha i d sb = Inr sb'"
  shows "settlement_inv sha sb'"
proof (cases "row_get se_id (si_id i) (settlements sb)")
  case (Some row)
  with inv op show ?thesis by (simp add: open_settlement_def split: if_splits)
next
  case None
  with op obtain j due where j: "open_posting sha i d (book sb) = Inr j"
      and sb': "sb' = sb\<lparr>book := j, settlements := settlements sb @ [pending_row i due]\<rparr>"
    by (auto simp: open_settlement_def res_simps)
  from inv have "book_inv sha (book sb)" by (simp add: settlement_inv_def)
  note eff = open_posting_effect [OF j this]
  from None have fresh: "si_id i \<notin> se_id ` set (settlements sb)" by (simp add: row_get_None_iff)
  have row: "row_closed_ok (pending_row i due)" "se_state (pending_row i due) = SETTLE_PENDING"
      "se_id (pending_row i due) = si_id i"
    by (simp_all add: pending_row_def row_closed_ok_def)
  have "{r \<in> insert (pending_row i due) A. se_state r = SETTLED} = {r \<in> A. se_state r = SETTLED}" for A
    using row(2) by auto
  with inv eff fresh row show ?thesis by (simp add: settlement_inv_def sb')
qed

lemma settle_Inr:
  assumes "settle sha sid now early sb = Inr sb'"
  obtains (again) row where "row_get se_id sid (settlements sb) = Some row" "se_state row = SETTLED" "sb' = sb"
  | (close) row m j where "row_get se_id sid (settlements sb) = Some row" "se_state row = SETTLE_PENDING"
      "now = Aware m" "se_due row \<le> m \<or> early" "close_posting sha row (Aware m) (book sb) = Inr j"
      "sb' = sb\<lparr>book := j, settlements := row_upd se_id sid
            (\<lambda>r. r\<lparr>se_state := SETTLED, se_closed := Some (close_id sid)\<rparr>) (settlements sb)\<rparr>"
proof (cases "row_get se_id sid (settlements sb)")
  case None
  with assms show thesis by (simp add: settle_def)
next
  case (Some row)
  show thesis
  proof (cases "se_state row = SETTLED")
    case True
    with assms Some show thesis by (intro again [of row]) (simp_all add: settle_def)
  next
    case False
    with assms Some have p: "se_state row = SETTLE_PENDING" by (simp add: settle_def split: if_splits)
    with assms Some obtain m where m: "now = Aware m" by (auto simp: settle_def res_simps)
    with assms Some p have "se_due row \<le> m \<or> early" by (simp add: settle_def not_less split: if_splits)
    with assms Some p m show thesis by (auto simp: settle_def res_simps intro: close [of row m])
  qed
qed

lemma settled_ids:
  assumes "row \<in> set t" "se_id row = sid"
  shows "se_id ` {r \<in> set (row_upd se_id sid (\<lambda>r. r\<lparr>se_state := SETTLED, se_closed := c\<rparr>) t). se_state r = SETTLED}
    = insert sid (se_id ` {r \<in> set t. se_state r = SETTLED})" (is "se_id ` ?A = insert sid (se_id ` ?B)")
proof (intro subset_antisym subsetI)
  fix x
  assume "x \<in> se_id ` ?A"
  then show "x \<in> insert sid (se_id ` ?B)" by (auto simp: row_upd_def split: if_splits)
next
  fix x
  assume x: "x \<in> insert sid (se_id ` ?B)"
  have "row\<lparr>se_state := SETTLED, se_closed := c\<rparr> \<in> ?A" using assms by (auto simp: row_upd_def)
  from imageI [OF this, of se_id] have sid: "sid \<in> se_id ` ?A" using assms(2) by simp
  show "x \<in> se_id ` ?A"
  proof (cases "x = sid")
    case False
    with x obtain r where "r \<in> set t" "se_state r = SETTLED" "se_id r = x" by auto
    with False have "r \<in> ?A" by (auto simp: row_upd_def image_iff intro!: bexI [of _ r])
    with \<open>se_id r = x\<close> show ?thesis by blast
  qed (simp add: sid)
qed

lemma settle_inv:
  assumes inv: "settlement_inv sha sb" and op: "settle sha sid now early sb = Inr sb'"
  shows "settlement_inv sha sb'"
  using op
proof (cases rule: settle_Inr)
  case again
  with inv show ?thesis by simp
next
  case (close row m j)
  let ?f = "\<lambda>r. r\<lparr>se_state := SETTLED, se_closed := Some (close_id sid)\<rparr>"
  let ?t = "row_upd se_id sid ?f (settlements sb)"
  from inv have bk: "book_inv sha (book sb)" and d: "distinct (map se_id (settlements sb))"
    by (simp_all add: settlement_inv_def)
  note eff = close_posting_effect [OF close(5) bk]
  from close(1) have row: "se_id row = sid" "row \<in> set (settlements sb)" using row_get_Some_key by fastforce+
  have ids: "map se_id ?t = map se_id (settlements sb)" by (rule keys_upd) simp
  have rows: "set ?t = ?f ` {r \<in> set (settlements sb). se_id r = sid} \<union> {r \<in> set (settlements sb). se_id r \<noteq> sid}"
    by (auto simp: row_upd_def)
  have ok: "row_closed_ok r" if "r \<in> set (settlements sb)" for r
    using inv that by (simp add: settlement_inv_def)
  have "row_closed_ok r" if "r \<in> set ?t" for r
    using that ok unfolding rows by (auto simp: row_closed_ok_def)
  moreover have "(open_id \<circ> se_id) ` set ?t = (open_id \<circ> se_id) ` set (settlements sb)"
    using ids by (metis image_comp list.set_map)
  moreover have "(close_id \<circ> se_id) ` {r \<in> set ?t. se_state r = SETTLED}
      = insert (close_id sid) ((close_id \<circ> se_id) ` {r \<in> set (settlements sb). se_state r = SETTLED})"
    using settled_ids [OF row(2,1), of "Some (close_id sid)"] unfolding image_comp [symmetric] by (simp only: image_insert)
  ultimately show ?thesis using inv eff row d
    by (simp add: settlement_inv_def close(6) ids [symmetric])
qed

lemma settlement_run_inv: "settlement_inv sha (settlement_run sha cs)"
proof -
  have step: "settlement_inv sha (settlement_step sha sb c)" if "settlement_inv sha sb" for sb c
  proof (cases "settlement_exec sha c sb")
    case (Inl e)
    with that show ?thesis by (simp add: settlement_step_def)
  next
    case (Inr sb')
    with that have "settlement_inv sha sb'"
      by (cases c) (auto simp: res_simps intro: open_settlement_inv settle_inv)
    with Inr show ?thesis by (simp add: settlement_step_def)
  qed
  have "settlement_inv sha sb \<Longrightarrow> settlement_inv sha (foldl (settlement_step sha) sb cs)" for sb
    by (induction cs arbitrary: sb) (simp_all add: step)
  then show ?thesis by (simp add: settlement_run_def settlement_inv_new)
qed

text \<open>C19: the settlement table and the journal never disagree while no crash intervenes. After any
  run of openings and settlements, refused ones included, the journal verifies for every tenant;
  it holds exactly one opening transaction for every settlement and one closing transaction for
  every settled one, and no other transaction.\<close>

theorem settlement_table_matches_journal:
  "verify_journal sha tenant (book (settlement_run sha cs))
      = Inr (length (filter (\<lambda>r. tx_tenant r = tenant) (transactions (book (settlement_run sha cs)))))
   \<and> distinct (map tx_id (transactions (book (settlement_run sha cs))))
   \<and> tx_id ` set (transactions (book (settlement_run sha cs))) =
       (\<lambda>row. open_id (se_id row)) ` set (settlements (settlement_run sha cs))
     \<union> (\<lambda>row. close_id (se_id row)) ` {row \<in> set (settlements (settlement_run sha cs)). se_state row = SETTLED}"
  using settlement_run_inv [of sha cs]
  by (auto simp: settlement_inv_def book_inv_def journal_inv_verifies tx_ids_def comp_def)
    (simp add: journal_inv_def)

subsection \<open>A crash between posting and recording\<close>

lemma post_entry_book_post: "post_entry sha tid te k r ps d j = ebind (book_post sha tid te k r ps d j) (\<lambda>(j', _). Inr j')"
  by (cases "map_res new_posting ps") (simp_all add: post_entry_def book_post_def)

lemma close_posting_entry:
  "close_posting sha row d j = post_entry sha (close_id (se_id row)) (se_tenant row) SETTLEMENT_CLOSE (se_reference row)
     (close_postings row) d j"
  by (simp add: close_posting_def post_entry_book_post)


subsection \<open>Identities that cannot be closed\<close>

text \<open>C21: a settlement whose id has more than 143 characters can be opened but never settled. The
  id check admits 160 characters, the opening id adds 16 and the closing id 17, and the journal
  refuses transaction ids above 160: whenever such a settlement is pending, every attempt to
  settle it is refused.\<close>

theorem long_settlement_id_never_closes:
  assumes "row_get se_id sid (settlements sb) = Some row" "se_state row = SETTLE_PENDING" "143 < length sid"
  shows "\<exists>e. settle sha sid now early sb = Inl e"
proof (cases "settle sha sid now early sb")
  case (Inr sb')
  then show ?thesis
  proof (cases rule: settle_Inr)
    case (again row')
    with assms show ?thesis by simp
  next
    case (close row' m j)
    from close(1) have "se_id row' = sid" using row_get_Some_key by fastforce
    with assms(3) have "\<not> id_match 160 (close_id (se_id row'))" by (simp add: id_match_def close_id_def)
    with close(5) show ?thesis by (simp add: close_posting_def book_post_def post_def res_simps)
  qed
qed simp

subsection \<open>Examples\<close>

definition sample_instruction :: "string \<Rightarrow> instruction" where
  "sample_instruction sid = \<lparr>si_id = sid, si_tenant = ''acme'', si_reference = ''trade'', si_direction = RECEIVABLE,
     si_currency = ''INR'', si_amount = Fin False 100 0, si_base = Fin False 100 0, si_due = Aware 5\<rparr>"

lemma sample_texts: "id_match 160 ''acme''" "strip ''trade'' \<noteq> []"
  by (simp_all add: id_match_def id_char_def is_upper_def is_lower_def is_digit_def strip_def lstrip_def is_space_def)

lemma id_match_open: "id_match 144 sid \<Longrightarrow> id_match 160 sid \<and> id_match 160 (open_id sid)"
  by (auto simp: id_match_def open_id_def id_char_def is_upper_def is_lower_def is_digit_def)

lemma two_leg_checks:
  assumes "a \<in> {''SETTLEMENT_RECEIVABLE'', ''CASH_AVAILABLE''}" "b \<in> {''BROKER_CLEARING'', ''SETTLEMENT_RECEIVABLE''}"
    and "k \<noteq> FX_CONVERSION" "accounts j = canonical_accounts"
  shows "map_res new_posting [entry a DEBIT ''INR'' (Fin False 100 0) (Fin False 100 0), entry b CREDIT ''INR'' (Fin False 100 0) (Fin False 100 0)]
      = Inr [entry a DEBIT ''INR'' (Fin False 100 0) (Fin False 100 0), entry b CREDIT ''INR'' (Fin False 100 0) (Fin False 100 0)]"
    and "validate_accounts j [entry a DEBIT ''INR'' (Fin False 100 0) (Fin False 100 0), entry b CREDIT ''INR'' (Fin False 100 0) (Fin False 100 0)] = Inr ()"
    and "assert_balanced k [entry a DEBIT ''INR'' (Fin False 100 0) (Fin False 100 0), entry b CREDIT ''INR'' (Fin False 100 0) (Fin False 100 0)] = Inr ()"
  using assms
  by (auto simp: entry_def new_posting_def account_match_def currency_match_def is_upper_def is_digit_def validate_accounts_iff
      canonical_accounts_def assert_balanced_def currency_total_def signed_base_def signed_native_def dec_evals)

lemma sample_open:
  assumes "id_match 144 sid"
  shows "\<exists>j. settlement_run sha [OpenSettlement (sample_instruction sid) (Aware 0)]
    = \<lparr>book = j, settlements = [pending_row (sample_instruction sid) 5]\<rparr>
    \<and> accounts j = canonical_accounts
    \<and> map tx_id (transactions j) = [open_id sid]
    \<and> map tx_sha256 (transactions j) = [sha (dumps (transaction_json (open_id sid) ''acme'' SETTLEMENT_OPEN ''trade'' 0
        (open_postings (sample_instruction sid))))]
    \<and> list_all (\<lambda>r. pr_transaction r = open_id sid) (postings j)"
    (is "\<exists>j. _ \<and> ?facts j")
proof -
  let ?ps = "open_postings (sample_instruction sid)"
  have ps: "?ps = [entry ''SETTLEMENT_RECEIVABLE'' DEBIT ''INR'' (Fin False 100 0) (Fin False 100 0),
      entry ''BROKER_CLEARING'' CREDIT ''INR'' (Fin False 100 0) (Fin False 100 0)]"
    by (simp add: open_postings_def sample_instruction_def)
  have chk: "map_res new_posting ?ps = Inr ?ps" "validate_accounts new_journal ?ps = Inr ()"
      "assert_balanced SETTLEMENT_OPEN ?ps = Inr ()" "length ?ps = 2"
    using two_leg_checks [of "''SETTLEMENT_RECEIVABLE''" "''BROKER_CLEARING''" SETTLEMENT_OPEN new_journal]
    unfolding ps by (simp_all add: new_journal_def)
  have none: "transactions new_journal = []" "postings new_journal = []" "accounts new_journal = canonical_accounts"
    by (simp_all add: new_journal_def)
  have fields: "si_id (sample_instruction sid) = sid" "si_tenant (sample_instruction sid) = ''acme''"
      "si_reference (sample_instruction sid) = ''trade''" "si_due (sample_instruction sid) = Aware 5"
      "si_amount (sample_instruction sid) = Fin False 100 0" "si_base (sample_instruction sid) = Fin False 100 0"
    by (simp_all add: sample_instruction_def)
  have "\<exists>j. open_posting sha (sample_instruction sid) (Aware 0) new_journal = Inr j \<and> ?facts j"
  proof -
    let ?d = "sha (dumps (transaction_json (open_id sid) ''acme'' SETTLEMENT_OPEN ''trade'' 0 ?ps))"
    have "post sha (open_id sid) ''acme'' SETTLEMENT_OPEN ''trade'' ?ps (Aware 0) new_journal
      = Inr (new_journal\<lparr>transactions := [\<lparr>tx_id = open_id sid, tx_tenant = ''acme'', tx_kind = SETTLEMENT_OPEN,
           tx_reference = ''trade'', tx_at = 0, tx_sha256 = ?d\<rparr>], postings := posting_rows (open_id sid) ?ps\<rparr>,
         \<lparr>tv_row = \<lparr>tx_id = open_id sid, tx_tenant = ''acme'', tx_kind = SETTLEMENT_OPEN,
           tx_reference = ''trade'', tx_at = 0, tx_sha256 = ?d\<rparr>, tv_postings = ?ps\<rparr>)"
      using id_match_open [OF assms] chk(2-4) none sample_texts
      by (simp add: post_def Let_def posting_rows_def)
    moreover have "list_all (\<lambda>r. pr_transaction r = open_id sid) (posting_rows (open_id sid) ?ps)"
      using posting_rows_fields(3) by (auto simp: list_all_iff)
    ultimately show ?thesis using chk(1) none(3) by (simp add: open_posting_def book_post_def fields)
  qed
  then obtain j where j: "open_posting sha (sample_instruction sid) (Aware 0) new_journal = Inr j \<and> ?facts j" ..
  have "new_instruction (sample_instruction sid) = Inr (sample_instruction sid)"
    using id_match_open [OF assms] sample_texts by (simp add: new_instruction_def fields dec_evals)
  with j [THEN conjunct1] have "settlement_run sha [OpenSettlement (sample_instruction sid) (Aware 0)]
      = \<lparr>book = j, settlements = [pending_row (sample_instruction sid) 5]\<rparr>"
    by (simp add: settlement_run_def settlement_step_def open_settlement_def new_settlement_book_def fields)
  from conjI [OF this j [THEN conjunct2]] show ?thesis ..
qed

theorem long_settlement_id_never_closes_witness:
  "\<exists>row e. row_get se_id (replicate 144 CHR ''a'')
       (settlements (settlement_run id [OpenSettlement (sample_instruction (replicate 144 CHR ''a'')) (Aware 0)])) = Some row
     \<and> settle id (replicate 144 CHR ''a'') (Aware 10) True
         (settlement_run id [OpenSettlement (sample_instruction (replicate 144 CHR ''a'')) (Aware 0)]) = Inl e"
proof -
  let ?sid = "replicate 144 CHR ''a''"
  let ?sb = "settlement_run id [OpenSettlement (sample_instruction ?sid) (Aware 0)]"
  have "id_match 144 ?sid"
    by (simp add: id_match_def list_all_iff id_char_def is_lower_def)
  from sample_open [OF this, of id] obtain j where sb: "?sb = \<lparr>book = j, settlements = [pending_row (sample_instruction ?sid) 5]\<rparr>"
    by blast
  have f: "se_id (pending_row (sample_instruction t) 5) = t" "se_state (pending_row (sample_instruction t) 5) = SETTLE_PENDING" for t
    by (simp_all add: pending_row_def sample_instruction_def)
  have row: "row_get se_id ?sid (settlements ?sb) = Some (pending_row (sample_instruction ?sid) 5)"
    unfolding sb by (simp only: settlement_book.simps row_get_Cons f simp_thms if_True)
  have "143 < length ?sid" by simp
  from long_settlement_id_never_closes [OF row f(2) this, of id "Aware 10" True] row show ?thesis by blast
qed


end
