(* ===== verification/PaperAccount.thy ===== *)
theory PaperAccount
  imports Domain DecText
begin

text \<open>
  \<^verbatim>\<open>src/quant_ai/accounting/portfolio.py\<close>: the in-memory paper account. The position dictionary is
  the list of its items in insertion order; amounts are finite decimals.
\<close>

record paper_position =
  pp_symbol :: string
  pp_quantity :: int
  pp_average :: dec

record paper_account =
  pa_cash :: dec
  pa_realized :: dec
  pa_positions :: "paper_position list"

definition new_paper_account :: "dec \<Rightarrow> paper_account res" where
  "new_paper_account cash =
     (if dlt cash dzero then Inl (ValueError ''cash cannot be negative'')
      else Inr \<lparr>pa_cash = cash, pa_realized = dzero, pa_positions = []\<rparr>)"

definition paper_position_of :: "string \<Rightarrow> paper_account \<Rightarrow> paper_position option" where
  "paper_position_of symbol a = row_get pp_symbol symbol (pa_positions a)"

text \<open>\<open>self._positions[symbol] = position\<close> and \<open>pop\<close>.\<close>

definition put_position :: "paper_position \<Rightarrow> paper_position list \<Rightarrow> paper_position list" where
  "put_position p t = (if row_get pp_symbol (pp_symbol p) t = None then t @ [p]
     else row_upd pp_symbol (pp_symbol p) (\<lambda>_. p) t)"

definition pop_position :: "string \<Rightarrow> paper_position list \<Rightarrow> paper_position list" where
  "pop_position symbol t = filter (\<lambda>p. pp_symbol p \<noteq> symbol) t"

definition current_position :: "string \<Rightarrow> paper_account \<Rightarrow> paper_position" where
  "current_position symbol a = (case paper_position_of symbol a of
     Some p \<Rightarrow> p | None \<Rightarrow> \<lparr>pp_symbol = symbol, pp_quantity = 0, pp_average = dzero\<rparr>)"

definition paper_fill :: "string \<Rightarrow> Side \<Rightarrow> int \<Rightarrow> dec \<Rightarrow> dec \<Rightarrow> paper_account \<Rightarrow> paper_account res" where
  "paper_fill symbol side quantity price fees a =
     (if quantity \<le> 0 \<or> dle price dzero \<or> dlt fees dzero then Inl (ValueError ''invalid fill'')
      else
        let current = current_position symbol a; gross = dmul price (dec_of_int quantity) in
        if side = BUY then
          let cost = dadd gross fees; new_qty = pp_quantity current + quantity in
          if dlt (pa_cash a) cost then Inl (ValueError ''insufficient paper cash'')
          else
          ebind (ddiv (dadd (dmul (pp_average current) (dec_of_int (pp_quantity current))) gross) (dec_of_int new_qty))
            (\<lambda>new_avg. Inr (a\<lparr>pa_cash := dsub (pa_cash a) cost,
               pa_positions := put_position \<lparr>pp_symbol = symbol, pp_quantity = new_qty, pp_average = new_avg\<rparr>
                 (pa_positions a)\<rparr>))
        else if pp_quantity current < quantity
          then Inl (ValueError ''paper account cannot sell more than held quantity'')
        else
          let remaining = pp_quantity current - quantity in
          Inr (a\<lparr>pa_cash := dadd (pa_cash a) (dsub gross fees),
            pa_realized := dadd (pa_realized a)
              (dsub (dmul (dsub price (pp_average current)) (dec_of_int quantity)) fees),
            pa_positions := (if remaining = 0 then pop_position symbol (pa_positions a)
              else put_position \<lparr>pp_symbol = symbol, pp_quantity = remaining, pp_average = pp_average current\<rparr>
                (pa_positions a))\<rparr>))"

definition unrealized_pnl :: "(string \<rightharpoonup> dec) \<Rightarrow> paper_account \<Rightarrow> dec res" where
  "unrealized_pnl marks a = foldr_res (\<lambda>total p. case marks (pp_symbol p) of
       None \<Rightarrow> Inl (KeyError (''missing mark for '' @ pp_symbol p))
     | Some mark \<Rightarrow> Inr (dadd total (dmul (dsub mark (pp_average p)) (dec_of_int (pp_quantity p)))))
     dzero (pa_positions a)"

definition paper_equity :: "(string \<rightharpoonup> dec) \<Rightarrow> paper_account \<Rightarrow> dec res" where
  "paper_equity marks a =
     ebind (foldr_res (\<lambda>total p. case marks (pp_symbol p) of
         None \<Rightarrow> Inl (KeyError (pp_symbol p))
       | Some mark \<Rightarrow> Inr (dadd total (dmul mark (dec_of_int (pp_quantity p))))) dzero (pa_positions a))
       (\<lambda>value. Inr (dadd (pa_cash a) value))"

subsection \<open>Runs\<close>

record paper_event =
  pe_symbol :: string
  pe_side :: Side
  pe_quantity :: int
  pe_price :: dec
  pe_fees :: dec

definition paper_exec :: "paper_event \<Rightarrow> paper_account \<Rightarrow> paper_account res" where
  "paper_exec e a = paper_fill (pe_symbol e) (pe_side e) (pe_quantity e) (pe_price e) (pe_fees e) a"

text \<open>\<open>paper_run\<close> applies fills and keeps the account at a refused one; \<open>accepted\<close> lists the others.\<close>

fun paper_run :: "paper_event list \<Rightarrow> paper_account \<Rightarrow> paper_account" where
  "paper_run [] a = a"
| "paper_run (e # es) a = (case paper_exec e a of Inl _ \<Rightarrow> paper_run es a | Inr a' \<Rightarrow> paper_run es a')"

fun accepted :: "paper_event list \<Rightarrow> paper_account \<Rightarrow> paper_event list" where
  "accepted [] a = []"
| "accepted (e # es) a = (case paper_exec e a of Inl _ \<Rightarrow> accepted es a | Inr a' \<Rightarrow> e # accepted es a')"

definition signed_quantity :: "string \<Rightarrow> paper_event \<Rightarrow> int" where
  "signed_quantity symbol e = (if pe_symbol e \<noteq> symbol then 0
     else if pe_side e = BUY then pe_quantity e else - pe_quantity e)"

definition held :: "string \<Rightarrow> paper_account \<Rightarrow> int" where
  "held symbol a = (case paper_position_of symbol a of None \<Rightarrow> 0 | Some p \<Rightarrow> pp_quantity p)"

definition paper_inv :: "paper_account \<Rightarrow> bool" where
  "paper_inv a \<longleftrightarrow> distinct (map pp_symbol (pa_positions a))
     \<and> list_all (\<lambda>p. 0 < pp_quantity p \<and> 0 < dval (pp_average p)) (pa_positions a)"

lemma put_position_get: "row_get pp_symbol k (put_position p t) = (if k = pp_symbol p then Some p else row_get pp_symbol k t)"
proof (cases "row_get pp_symbol (pp_symbol p) t = None")
  case True
  then show ?thesis by (auto simp: put_position_def table_simps split: option.split)
next
  case False
  have "row_get pp_symbol k (row_upd pp_symbol (pp_symbol p) (\<lambda>_. p) t)
      = (if k = pp_symbol p then map_option (\<lambda>_. p) (row_get pp_symbol k t) else row_get pp_symbol k t)"
    by (induction t) auto
  with False show ?thesis by (auto simp: put_position_def)
qed

lemma put_position_symbols:
  "map pp_symbol (put_position p t) = (if row_get pp_symbol (pp_symbol p) t = None then map pp_symbol t @ [pp_symbol p] else map pp_symbol t)"
proof -
  have "map pp_symbol (row_upd pp_symbol (pp_symbol p) (\<lambda>_. p) t) = map pp_symbol t"
    by (induction t) auto
  then show ?thesis by (simp add: put_position_def)
qed

lemma put_position_set: "set (put_position p t) \<subseteq> insert p (set t)"
proof
  fix x
  assume "x \<in> set (put_position p t)"
  then show "x \<in> insert p (set t)"
    by (auto simp: put_position_def row_upd_def split: if_splits)
qed

lemma put_position_inv:
  assumes "distinct (map pp_symbol t)" "list_all P t" "P p"
  shows "distinct (map pp_symbol (put_position p t)) \<and> list_all P (put_position p t)"
  using assms put_position_set [of p t]
  by (auto simp: put_position_symbols row_get_None_iff list_all_iff)

lemma pop_position_get: "row_get pp_symbol k (pop_position s t) = (if k = s then None else row_get pp_symbol k t)"
  by (induction t) (auto simp: pop_position_def)

lemma pop_position_inv:
  "distinct (map pp_symbol t) \<Longrightarrow> list_all P t \<Longrightarrow> distinct (map pp_symbol (pop_position s t)) \<and> list_all P (pop_position s t)"
  by (induction t) (auto simp: pop_position_def)

lemma paper_inv_put:
  assumes "paper_inv a" "0 < pp_quantity p" "0 < dval (pp_average p)" "pa_positions a' = put_position p (pa_positions a)"
  shows "paper_inv a'"
  using put_position_inv [of "pa_positions a" "\<lambda>p. 0 < pp_quantity p \<and> 0 < dval (pp_average p)" p] assms
  by (simp add: paper_inv_def)

lemma paper_inv_pop:
  "paper_inv a \<Longrightarrow> pa_positions a' = pop_position s (pa_positions a) \<Longrightarrow> paper_inv a'"
  using pop_position_inv [of "pa_positions a" "\<lambda>p. 0 < pp_quantity p \<and> 0 < dval (pp_average p)" s]
  by (simp add: paper_inv_def)

lemma current_quantity: "pp_quantity (current_position s a) = held s a"
  by (simp add: current_position_def held_def split: option.split)

lemma current_average:
  assumes "paper_inv a"
  shows "0 \<le> pp_quantity (current_position s a) \<and> 0 \<le> dval (pp_average (current_position s a))
    \<and> (0 < pp_quantity (current_position s a) \<longrightarrow> 0 < dval (pp_average (current_position s a)))"
  using assms
  by (auto simp: current_position_def paper_position_of_def paper_inv_def list_all_iff
      dest!: row_get_Some_key split: option.split intro: less_imp_le)

lemma dmul_nonneg: "0 \<le> dval x \<Longrightarrow> 0 \<le> i \<Longrightarrow> 0 \<le> dval (dmul x (dec_of_int i))"
proof (cases "dval x = 0 \<or> i = 0")
  case True
  then have "dval (dmul x (dec_of_int i)) = 0"
    by (auto simp: dmul_def dval_zero_iff dfix_zero_iff dec_of_int_def)
  then show ?thesis by simp
next
  case False
  moreover assume "0 \<le> dval x" "0 \<le> i"
  ultimately have "0 < dval (dmul x (dec_of_int i))" by (intro dmul_pos) simp_all
  then show ?thesis by simp
qed

lemma average_positive:
  assumes "0 \<le> dval avg" "0 \<le> i" "0 < dval gross" "0 < n"
  shows "\<exists>q. ddiv (dadd (dmul avg (dec_of_int i)) gross) (dec_of_int n) = Inr q \<and> 0 < dval q"
  using dmul_nonneg [OF assms(1,2)] assms(3,4) by (intro ddiv_pos) (simp_all add: dadd_sign)

lemma paper_exec_step:
  assumes inv: "paper_inv a" and ok: "paper_exec e a = Inr a'"
  shows "paper_inv a'" "held s a' = held s a + signed_quantity s e"
proof -
  let ?c = "current_position (pe_symbol e) a"
  let ?gross = "dmul (pe_price e) (dec_of_int (pe_quantity e))"
  from ok have q: "0 < pe_quantity e" "0 < dval (pe_price e)"
    by (auto simp: paper_exec_def paper_fill_def dec_order split: if_splits)
  then have gross: "0 < dval ?gross" by (intro dmul_pos) simp_all
  note cur = current_average [OF inv, of "pe_symbol e"]
  have step: "paper_inv a' \<and> held s a' = held s a + signed_quantity s e"
  proof (cases "pe_side e = BUY")
    case True
    from cur q have n: "0 < pp_quantity ?c + pe_quantity e" by simp
    from average_positive [OF _ _ gross n] cur obtain avg where avg:
        "ddiv (dadd (dmul (pp_average ?c) (dec_of_int (pp_quantity ?c))) ?gross) (dec_of_int (pp_quantity ?c + pe_quantity e)) = Inr avg"
        "0 < dval avg" by blast
    let ?p = "\<lparr>pp_symbol = pe_symbol e, pp_quantity = pp_quantity ?c + pe_quantity e, pp_average = avg\<rparr>"
    from ok True avg(1) have a': "pa_positions a' = put_position ?p (pa_positions a)"
      by (auto simp: paper_exec_def paper_fill_def Let_def split: if_splits)
    have "paper_inv a'" by (rule paper_inv_put [OF inv _ _ a']) (use n avg(2) in simp_all)
    moreover have "held s a' = held s a + signed_quantity s e"
      using True by (auto simp: held_def paper_position_of_def a' put_position_get signed_quantity_def current_quantity)
    ultimately show ?thesis ..
  next
    case False
    let ?r = "pp_quantity ?c - pe_quantity e"
    let ?p = "\<lparr>pp_symbol = pe_symbol e, pp_quantity = ?r, pp_average = pp_average ?c\<rparr>"
    from ok False have le: "pe_quantity e \<le> pp_quantity ?c" and a': "pa_positions a' = (if ?r = 0
        then pop_position (pe_symbol e) (pa_positions a) else put_position ?p (pa_positions a))"
      by (auto simp: paper_exec_def paper_fill_def Let_def not_less split: if_splits)
    have "paper_inv a'"
    proof (cases "?r = 0")
      case True
      with a' show ?thesis by (intro paper_inv_pop [OF inv]) simp_all
    next
      case False
      with le q cur have "0 < ?r" "0 < dval (pp_average ?c)" by auto
      with False a' show ?thesis by (intro paper_inv_put [OF inv, of ?p]) simp_all
    qed
    moreover have "held s a' = held s a + signed_quantity s e"
      using False by (auto simp: held_def paper_position_of_def a' put_position_get pop_position_get
          signed_quantity_def current_quantity)
    ultimately show ?thesis ..
  qed
  then show "paper_inv a'" "held s a' = held s a + signed_quantity s e" by simp_all
qed

lemma paper_run_inv:
  "paper_inv a \<Longrightarrow> paper_inv (paper_run es a)
     \<and> held s (paper_run es a) = held s a + sum_list (map (signed_quantity s) (accepted es a))"
proof (induction es arbitrary: a)
  case Nil
  then show ?case by simp
next
  case (Cons e es)
  show ?case
  proof (cases "paper_exec e a")
    case (Inl x)
    with Cons show ?thesis by simp
  next
    case (Inr a')
    from paper_exec_step [OF Cons.prems Inr] Cons.IH [of a'] show ?thesis by (simp add: Inr)
  qed
qed

text \<open>C22: the positions of a paper account are what its fills say. After any sequence of fills on a new
  account, the quantity held of every symbol is the sum of the accepted buys minus the accepted
  sells and is never negative, and every stored position has a positive quantity and a positive
  average cost, one entry per symbol.\<close>

theorem paper_positions_conserved:
  assumes "new_paper_account cash = Inr a"
  shows "held s (paper_run es a) = sum_list (map (signed_quantity s) (accepted es a)) \<and> 0 \<le> held s (paper_run es a)
    \<and> distinct (map pp_symbol (pa_positions (paper_run es a)))
    \<and> list_all (\<lambda>p. 0 < pp_quantity p \<and> dlt dzero (pp_average p)) (pa_positions (paper_run es a))"
proof -
  from assms have "paper_inv a" "held s a = 0"
    by (auto simp: new_paper_account_def paper_inv_def held_def paper_position_of_def split: if_splits)
  with paper_run_inv [of a es s] have r: "paper_inv (paper_run es a)"
      "held s (paper_run es a) = sum_list (map (signed_quantity s) (accepted es a))" by simp_all
  from current_average [OF r(1), of s] have "0 \<le> held s (paper_run es a)" by (simp add: current_quantity)
  with r show ?thesis by (simp add: paper_inv_def dlt_dval)
qed

theorem paper_positions_conserved_witness:
  "held ''X'' (paper_run [\<lparr>pe_symbol = ''X'', pe_side = BUY, pe_quantity = 3, pe_price = Fin False 10 0, pe_fees = dzero\<rparr>]
     \<lparr>pa_cash = Fin False 100 0, pa_realized = dzero, pa_positions = []\<rparr>) = 3"
proof -
  let ?e = "\<lparr>pe_symbol = ''X'', pe_side = BUY, pe_quantity = 3, pe_price = Fin False 10 0, pe_fees = dzero\<rparr>"
  let ?a = "\<lparr>pa_cash = Fin False 100 0, pa_realized = dzero, pa_positions = []\<rparr>"
  have new: "new_paper_account (Fin False 100 0) = Inr ?a" by (simp add: new_paper_account_def dec_evals)
  have "\<exists>b. paper_exec ?e ?a = Inr b"
    unfolding paper_exec_def paper_fill_def Let_def current_position_def paper_position_of_def
    by (simp add: dec_evals)
  then have "accepted [?e] ?a = [?e]" by auto
  with paper_positions_conserved [OF new, of "''X''" "[?e]"] show ?thesis by (simp add: signed_quantity_def)
qed

subsection \<open>Cash\<close>

lemma dadd_nonneg: "0 \<le> dval (dadd x y) \<longleftrightarrow> 0 \<le> dval x + dval y"
proof -
  have neg: "dval (dadd x y) < 0 \<longleftrightarrow> \<not> 0 < dval (dadd x y) \<and> dval (dadd x y) \<noteq> 0" by auto
  show ?thesis unfolding not_less [symmetric] neg dadd_sign by auto
qed

lemma dsub_nonneg: "0 \<le> dval (dsub x y) \<longleftrightarrow> dval y \<le> dval x"
  by (simp add: dsub_def dadd_nonneg)

text \<open>Sales whose fees do not exceed the proceeds.\<close>

definition covered_sale :: "paper_event \<Rightarrow> bool" where
  "covered_sale e \<longleftrightarrow> pe_side e = SELL
     \<longrightarrow> dle (pe_fees e) (dmul (pe_price e) (dec_of_int (pe_quantity e)))"

lemma paper_exec_cash:
  assumes "paper_exec e a = Inr a'" "0 \<le> dval (pa_cash a)" "covered_sale e"
  shows "0 \<le> dval (pa_cash a')"
proof (cases "pe_side e")
  case BUY
  with assms(1) have "pa_cash a' = dsub (pa_cash a) (dadd (dmul (pe_price e) (dec_of_int (pe_quantity e))) (pe_fees e))"
      "\<not> dlt (pa_cash a) (dadd (dmul (pe_price e) (dec_of_int (pe_quantity e))) (pe_fees e))"
    by (auto simp: paper_exec_def paper_fill_def Let_def res_simps split: if_splits)
  then show ?thesis by (simp add: dsub_nonneg dlt_dval)
next
  case SELL
  with assms(1) have "pa_cash a' = dadd (pa_cash a) (dsub (dmul (pe_price e) (dec_of_int (pe_quantity e))) (pe_fees e))"
    by (auto simp: paper_exec_def paper_fill_def Let_def split: if_splits)
  moreover have "0 \<le> dval (dsub (dmul (pe_price e) (dec_of_int (pe_quantity e))) (pe_fees e))"
    using assms(3) SELL by (simp add: covered_sale_def dsub_nonneg dle_dval)
  ultimately show ?thesis using assms(2) by (simp add: dadd_nonneg)
qed

text \<open>C23: the paper account never goes into debt, provided no sale is charged more than it
  brings in: from a new account with any cash, every run of fills keeps the cash at zero or more.\<close>

theorem paper_cash_nonnegative:
  assumes "new_paper_account cash = Inr a" "list_all covered_sale es"
  shows "dle dzero (pa_cash (paper_run es a))"
proof -
  have "0 \<le> dval (pa_cash b) \<Longrightarrow> 0 \<le> dval (pa_cash (paper_run es b))" for b
    using assms(2)
  proof (induction es arbitrary: b)
    case Nil
    then show ?case by simp
  next
    case (Cons e es)
    then show ?case by (cases "paper_exec e b") (auto dest: paper_exec_cash)
  qed
  moreover from assms(1) have "0 \<le> dval (pa_cash a)"
    by (auto simp: new_paper_account_def dlt_dval split: if_splits)
  ultimately show ?thesis by (simp add: dle_dval)
qed

theorem paper_cash_nonnegative_witness:
  "dle dzero (pa_cash (paper_run [\<lparr>pe_symbol = ''X'', pe_side = BUY, pe_quantity = 3, pe_price = Fin False 10 0, pe_fees = dzero\<rparr>]
     \<lparr>pa_cash = Fin False 100 0, pa_realized = dzero, pa_positions = []\<rparr>))"
  by (rule paper_cash_nonnegative [of "Fin False 100 0"])
    (simp_all add: new_paper_account_def covered_sale_def dec_evals)


end
