(* ===== verification/AiBudget.thy ===== *)
theory AiBudget
  imports Json Calendar
begin

text \<open>
  \<^verbatim>\<open>src/quant_ai/llm/budget.py\<close>: the daily cap on model calls and tokens. Counters are kept per
  UTC day and scope and per UTC day over all scopes; every admission charges both. A table of
  counters is an association list; errors of SQLite itself (a locked or broken file), which the
  code answers by refusing, are outside the model, as is SQLite's 64-bit overflow. The clock is
  an argument; random ticket ids are arguments too.
\<close>

subsection \<open>Counters\<close>

record counters =
  cn_calls :: int
  cn_input :: int
  cn_output :: int
  cn_reserved :: int

definition no_counters :: counters where
  "no_counters = \<lparr>cn_calls = 0, cn_input = 0, cn_output = 0, cn_reserved = 0\<rparr>"

definition tokens_charged :: "counters \<Rightarrow> int" where
  "tokens_charged c = cn_input c + cn_output c + cn_reserved c"

definition counters_at :: "'k \<Rightarrow> ('k \<times> counters) list \<Rightarrow> counters" where
  "counters_at k t = (case row_get fst k t of None \<Rightarrow> no_counters | Some r \<Rightarrow> snd r)"

text \<open>\<open>INSERT OR IGNORE\<close> of a fresh row, then \<open>UPDATE\<close>.\<close>

definition put_counters :: "'k \<Rightarrow> counters \<Rightarrow> ('k \<times> counters) list \<Rightarrow> ('k \<times> counters) list" where
  "put_counters k c t = (if row_get fst k t = None then t @ [(k, c)] else row_upd fst k (\<lambda>_. (k, c)) t)"

record limits =
  call_limit :: int
  token_limit :: int

datatype ticket_status = ADMITTED | TICKET_DISPATCHED | TICKET_SETTLED | TICKET_CANCELLED

record request_row =
  rq_id :: string
  rq_day :: string
  rq_scope :: string
  rq_reserved :: int
  rq_status :: ticket_status
  rq_created :: instant
  rq_dispatched :: "instant option"
  rq_dollar :: "string option"
  rq_input :: "int option"
  rq_output :: "int option"

record budget =
  scopes :: "((string \<times> string) \<times> counters) list"
  aggregates :: "(string \<times> counters) list"
  requests :: "request_row list"

definition new_budget :: "int \<Rightarrow> int \<Rightarrow> (limits \<times> budget) res" where
  "new_budget calls tokens =
     (if calls \<le> 0 then Inl (ValueError ''daily_call_limit must be positive'')
      else if tokens \<le> 0 then Inl (ValueError ''daily_token_limit must be positive'')
      else Inr (\<lparr>call_limit = calls, token_limit = tokens\<rparr>, \<lparr>scopes = [], aggregates = [], requests = []\<rparr>))"

text \<open>The UTC day of the clock; a naive clock is read as it is.\<close>

definition current_day :: "datetime \<Rightarrow> string" where
  "current_day now = (case now of
     Aware t \<Rightarrow> date_iso (nat (t div int day_us)) | Naive t \<Rightarrow> date_iso (nat (t div int day_us)))"

subsection \<open>Admission\<close>

definition charge_counters :: "limits \<Rightarrow> int \<Rightarrow> counters \<Rightarrow> counters option" where
  "charge_counters lim n c =
     (if cn_calls c < call_limit lim \<and> cn_input c + cn_output c + cn_reserved c + n \<le> token_limit lim
      then Some (c\<lparr>cn_calls := cn_calls c + 1, cn_reserved := cn_reserved c + n\<rparr>) else None)"

definition reserve :: "limits \<Rightarrow> datetime \<Rightarrow> string \<Rightarrow> int \<Rightarrow> (string \<times> instant) option \<Rightarrow> budget \<Rightarrow> (budget \<times> bool) res" where
  "reserve lim now scope n ticket b =
     (if n < 0 then Inl (ValueError ''token_reservation must be a non-negative integer'')
      else let day = current_day now in
        case charge_counters lim n (counters_at day (aggregates b)) of
          None \<Rightarrow> Inr (b, False)
        | Some agg \<Rightarrow>
            (case charge_counters lim n (counters_at (day, scope) (scopes b)) of
               None \<Rightarrow> Inr (b, False)
             | Some sc \<Rightarrow>
                 let b' = b\<lparr>scopes := put_counters (day, scope) sc (scopes b),
                            aggregates := put_counters day agg (aggregates b)\<rparr> in
                 (case ticket of
                    None \<Rightarrow> Inr (b', True)
                  | Some (tid, created) \<Rightarrow>
                      if row_get rq_id tid (requests b) \<noteq> None then Inr (b, False)
                      else Inr (b'\<lparr>requests := requests b @ [\<lparr>rq_id = tid, rq_day = day, rq_scope = scope,
                        rq_reserved = n, rq_status = ADMITTED, rq_created = created, rq_dispatched = None,
                        rq_dollar = None, rq_input = None, rq_output = None\<rparr>]\<rparr>, True))))"

definition reserve_ticket ::
    "limits \<Rightarrow> datetime \<Rightarrow> string \<Rightarrow> int \<Rightarrow> string \<Rightarrow> instant \<Rightarrow> budget \<Rightarrow> (budget \<times> string option) res" where
  "reserve_ticket lim now scope n tid created b =
     ebind (reserve lim now scope n (Some (tid, created)) b)
       (\<lambda>(b', ok). Inr (b', if ok then Some tid else None))"

subsection \<open>Tickets\<close>

definition dispatch_ticket :: "string \<Rightarrow> string option \<Rightarrow> instant \<Rightarrow> budget \<Rightarrow> budget \<times> bool" where
  "dispatch_ticket tid dollar now b =
     (case row_get rq_id tid (requests b) of
        None \<Rightarrow> (b, False)
      | Some r \<Rightarrow>
          if rq_status r \<noteq> ADMITTED then (b, False)
          else (b\<lparr>requests := row_upd rq_id tid (\<lambda>r. r\<lparr>rq_status := TICKET_DISPATCHED,
                 rq_dispatched := Some now, rq_dollar := dollar\<rparr>) (requests b)\<rparr>, True))"

text \<open>The usage a provider reported: input (with cache) and output tokens, when every count present
  is a non-negative integer and they are not all zero.\<close>

definition usage_count :: "(string \<times> json) list \<Rightarrow> string \<Rightarrow> int option" where
  "usage_count ms key = (case jget key ms of Some (JInt i) \<Rightarrow> (if i < 0 then None else Some i) | _ \<Rightarrow> None)"

definition cache_keys :: "(string \<times> json) list \<Rightarrow> string list" where
  "cache_keys ms = filter (\<lambda>k. jget k ms \<noteq> None) [''cache_creation_input_tokens'', ''cache_read_input_tokens'']"

definition ticket_usage :: "json \<Rightarrow> (int \<times> int) option" where
  "ticket_usage usage = (case usage of
       JObj ms \<Rightarrow>
         if list_ex (\<lambda>k. usage_count ms k = None) ([''input_tokens'', ''output_tokens''] @ cache_keys ms) then None
         else
           let inputs = the (usage_count ms ''input_tokens'') + sum_list (map (the \<circ> usage_count ms) (cache_keys ms));
               outputs = the (usage_count ms ''output_tokens'')
           in if inputs = 0 \<and> outputs = 0 then None else Some (inputs, outputs)
     | _ \<Rightarrow> None)"

definition release_counters :: "bool \<Rightarrow> int \<Rightarrow> int \<Rightarrow> int \<Rightarrow> counters \<Rightarrow> counters option" where
  "release_counters cancel i out n c =
     (if 1 \<le> cn_calls c \<and> n \<le> cn_reserved c
      then Some \<lparr>cn_calls = cn_calls c - (if cancel then 1 else 0), cn_input = cn_input c + i,
                 cn_output = cn_output c + out, cn_reserved = cn_reserved c - n\<rparr>
      else None)"

text \<open>An \<open>UPDATE\<close> that must change exactly one row.\<close>

definition update_counters :: "'k \<Rightarrow> (counters \<Rightarrow> counters option) \<Rightarrow> ('k \<times> counters) list \<Rightarrow> ('k \<times> counters) list option" where
  "update_counters k f t =
     (case row_get fst k t of None \<Rightarrow> None | Some r \<Rightarrow> map_option (\<lambda>c. put_counters k c t) (f (snd r)))"

definition finish_ticket :: "bool \<Rightarrow> string \<Rightarrow> int \<Rightarrow> int \<Rightarrow> budget \<Rightarrow> budget \<times> bool" where
  "finish_ticket cancel tid i out b =
     (case row_get rq_id tid (requests b) of
        None \<Rightarrow> (b, False)
      | Some r \<Rightarrow>
          if rq_status r \<noteq> (if cancel then ADMITTED else TICKET_DISPATCHED) then (b, False)
          else
            (case (update_counters (rq_day r, rq_scope r) (release_counters cancel i out (rq_reserved r)) (scopes b),
                   update_counters (rq_day r) (release_counters cancel i out (rq_reserved r)) (aggregates b)) of
               (Some sc, Some ag) \<Rightarrow>
                 (b\<lparr>scopes := sc, aggregates := ag,
                    requests := row_upd rq_id tid (\<lambda>r. r\<lparr>rq_status := (if cancel then TICKET_CANCELLED else TICKET_SETTLED),
                      rq_input := Some i, rq_output := Some out\<rparr>) (requests b)\<rparr>, True)
             | _ \<Rightarrow> (b, False)))"

definition cancel_ticket :: "string \<Rightarrow> budget \<Rightarrow> budget \<times> bool" where
  "cancel_ticket tid b = finish_ticket True tid 0 0 b"

definition settle_ticket :: "string \<Rightarrow> json \<Rightarrow> budget \<Rightarrow> budget \<times> bool" where
  "settle_ticket tid usage b =
     (case ticket_usage usage of None \<Rightarrow> (b, False) | Some (i, out) \<Rightarrow> finish_ticket False tid i out b)"

subsection \<open>Untracked calls\<close>

definition token_count :: "json \<Rightarrow> string \<Rightarrow> int" where
  "token_count usage key = (case usage of
     JObj ms \<Rightarrow> (case usage_count ms key of None \<Rightarrow> 0 | Some i \<Rightarrow> i) | _ \<Rightarrow> 0)"

definition record_counters :: "int \<Rightarrow> int \<Rightarrow> int \<Rightarrow> counters \<Rightarrow> counters" where
  "record_counters i out n c =
     c\<lparr>cn_input := cn_input c + i, cn_output := cn_output c + out, cn_reserved := max 0 (cn_reserved c - n)\<rparr>"

definition record_usage :: "datetime \<Rightarrow> string \<Rightarrow> json \<Rightarrow> int \<Rightarrow> budget \<Rightarrow> budget res" where
  "record_usage now scope usage n b =
     (if n < 0 then Inl (ValueError ''token_reservation must be a non-negative integer'')
      else
        let i = sum_list (map (token_count usage)
              [''input_tokens'', ''cache_creation_input_tokens'', ''cache_read_input_tokens'']);
            out = token_count usage ''output_tokens''; day = current_day now
        in if i = 0 \<and> out = 0 then Inr b
           else Inr (b\<lparr>scopes := put_counters (day, scope)
                         (record_counters i out n (counters_at (day, scope) (scopes b))) (scopes b),
                       aggregates := put_counters day
                         (record_counters i out n (counters_at day (aggregates b))) (aggregates b)\<rparr>))"

subsection \<open>Status\<close>

record headroom =
  hr_calls :: int
  hr_tokens :: int
  hr_reserved :: int
  hr_remaining_calls :: int
  hr_remaining_tokens :: int
  hr_exhausted :: bool

definition headroom_of :: "limits \<Rightarrow> counters \<Rightarrow> headroom" where
  "headroom_of lim c =
     (let tokens = cn_input c + cn_output c in
      \<lparr>hr_calls = cn_calls c, hr_tokens = tokens, hr_reserved = cn_reserved c,
       hr_remaining_calls = max 0 (call_limit lim - cn_calls c),
       hr_remaining_tokens = max 0 (token_limit lim - tokens - cn_reserved c),
       hr_exhausted = (call_limit lim \<le> cn_calls c \<or> token_limit lim \<le> tokens + cn_reserved c)\<rparr>)"

definition budget_status :: "limits \<Rightarrow> datetime \<Rightarrow> string \<Rightarrow> budget \<Rightarrow> headroom \<times> headroom" where
  "budget_status lim now scope b =
     (headroom_of lim (counters_at (current_day now, scope) (scopes b)),
      headroom_of lim (counters_at (current_day now) (aggregates b)))"

end
