(* ===== verification/AiBudgetProps.thy ===== *)
theory AiBudgetProps
  imports AiBudget
begin

text \<open>
  The daily caps hold in every run with honest usage reports, and the counters of a run of
  tickets are exactly what its tickets say.
\<close>

subsection \<open>Counter tables\<close>

lemma counters_put [simp]: "counters_at k (put_counters k' c t) = (if k = k' then c else counters_at k t)"
proof (cases "row_get fst k' t")
  case None
  then show ?thesis by (auto simp: counters_at_def put_counters_def table_simps split: option.split)
next
  case (Some r)
  have "row_get fst k (row_upd fst k' (\<lambda>_. (k', c)) t)
      = (if k = k' then map_option (\<lambda>_. (k', c)) (row_get fst k t) else row_get fst k t)"
    by (induction t) auto
  with Some show ?thesis by (auto simp: counters_at_def put_counters_def)
qed

lemma put_counters_known: "row_get fst k (put_counters k' c t) = None \<longleftrightarrow> k \<noteq> k' \<and> row_get fst k t = None"
proof (cases "row_get fst k' t")
  case None
  then show ?thesis by (auto simp: put_counters_def row_get_None_iff)
next
  case (Some r)
  then have "k' \<in> fst ` set t" by (metis option.distinct(1) row_get_None_iff)
  moreover have "map fst (row_upd fst k' (\<lambda>_. (k', c)) t) = map fst t" by (induction t) auto
  then have "fst ` set (row_upd fst k' (\<lambda>_. (k', c)) t) = fst ` set t" by (metis list.set_map)
  ultimately show ?thesis by (auto simp: put_counters_def row_get_None_iff Some)
qed

lemma update_counters_Some:
  assumes "update_counters k f t = Some t'"
  obtains c where "f (counters_at k t) = Some c" "t' = put_counters k c t" "row_get fst k t \<noteq> None"
  using assms by (auto simp: update_counters_def counters_at_def split: option.splits)

subsection \<open>Operations of a run\<close>

datatype budget_op =
    Reserve datetime string int "(string \<times> instant) option"
  | Dispatch string "string option" instant
  | Cancel string
  | SettleUsage string json

fun budget_exec :: "limits \<Rightarrow> budget_op \<Rightarrow> budget \<Rightarrow> budget" where
  "budget_exec lim (Reserve now scope n ticket) b =
     (case reserve lim now scope n ticket b of Inl _ \<Rightarrow> b | Inr (b', _) \<Rightarrow> b')"
| "budget_exec lim (Dispatch tid dollar now) b = fst (dispatch_ticket tid dollar now b)"
| "budget_exec lim (Cancel tid) b = fst (cancel_ticket tid b)"
| "budget_exec lim (SettleUsage tid usage) b = fst (settle_ticket tid usage b)"

fun budget_run :: "limits \<Rightarrow> budget_op list \<Rightarrow> budget \<Rightarrow> budget" where
  "budget_run lim [] b = b"
| "budget_run lim (x # xs) b = budget_run lim xs (budget_exec lim x b)"

text \<open>A usage report within the ticket's reservation.\<close>

fun within_reservation :: "budget_op \<Rightarrow> budget \<Rightarrow> bool" where
  "within_reservation (SettleUsage tid usage) b =
     (case (ticket_usage usage, row_get rq_id tid (requests b)) of
        (Some (i, out), Some r) \<Rightarrow> i + out \<le> rq_reserved r | _ \<Rightarrow> True)"
| "within_reservation _ b = True"

fun reports_within :: "limits \<Rightarrow> budget_op list \<Rightarrow> budget \<Rightarrow> bool" where
  "reports_within lim [] b = True"
| "reports_within lim (x # xs) b = (within_reservation x b \<and> reports_within lim xs (budget_exec lim x b))"

subsection \<open>Effect of one operation\<close>

lemma charge_Some: "charge_counters lim n c = Some c' \<longleftrightarrow>
    cn_calls c < call_limit lim \<and> tokens_charged c + n \<le> token_limit lim
    \<and> c' = c\<lparr>cn_calls := cn_calls c + 1, cn_reserved := cn_reserved c + n\<rparr>"
  by (auto simp: charge_counters_def tokens_charged_def)

lemma release_Some: "release_counters cancel i out n c = Some c' \<longleftrightarrow> 1 \<le> cn_calls c \<and> n \<le> cn_reserved c
    \<and> c' = \<lparr>cn_calls = cn_calls c - (if cancel then 1 else 0), cn_input = cn_input c + i,
            cn_output = cn_output c + out, cn_reserved = cn_reserved c - n\<rparr>"
  by (auto simp: release_counters_def)

lemma reserve_effect:
  assumes "reserve lim now scope n ticket b = Inr (b', okay)" "b' \<noteq> b"
  obtains agg sc where "0 \<le> n" "charge_counters lim n (counters_at (current_day now) (aggregates b)) = Some agg"
    "charge_counters lim n (counters_at (current_day now, scope) (scopes b)) = Some sc"
    "aggregates b' = put_counters (current_day now) agg (aggregates b)"
    "scopes b' = put_counters (current_day now, scope) sc (scopes b)"
    "ticket = None \<and> requests b' = requests b
     \<or> (\<exists>tid created. ticket = Some (tid, created) \<and> row_get rq_id tid (requests b) = None
         \<and> requests b' = requests b @ [\<lparr>rq_id = tid, rq_day = current_day now, rq_scope = scope,
              rq_reserved = n, rq_status = ADMITTED, rq_created = created, rq_dispatched = None,
              rq_dollar = None, rq_input = None, rq_output = None\<rparr>])"
proof -
  have n: "0 \<le> n" by (rule ccontr) (use assms in \<open>simp add: reserve_def\<close>)
  with assms obtain agg where agg: "charge_counters lim n (counters_at (current_day now) (aggregates b)) = Some agg"
    by (auto simp: reserve_def Let_def split: option.splits)
  with assms n obtain sc where sc: "charge_counters lim n (counters_at (current_day now, scope) (scopes b)) = Some sc"
    by (auto simp: reserve_def Let_def split: option.splits)
  show thesis
  proof (cases ticket)
    case None
    with assms n agg sc show thesis by (intro that [OF n agg sc]) (auto simp: reserve_def Let_def)
  next
    case (Some p)
    obtain tid created where p: "p = (tid, created)" by (cases p)
    with assms n agg sc Some have "row_get rq_id tid (requests b) = None"
      by (auto simp: reserve_def Let_def split: if_splits)
    with assms n agg sc Some p show thesis by (intro that [OF n agg sc]) (auto simp: reserve_def Let_def)
  qed
qed

lemma finish_effect:
  assumes "finish_ticket cancel tid i out b = (b', okay)" "b' \<noteq> b"
  obtains r sc ag where "row_get rq_id tid (requests b) = Some r"
    "rq_status r = (if cancel then ADMITTED else TICKET_DISPATCHED)"
    "release_counters cancel i out (rq_reserved r) (counters_at (rq_day r, rq_scope r) (scopes b)) = Some sc"
    "release_counters cancel i out (rq_reserved r) (counters_at (rq_day r) (aggregates b)) = Some ag"
    "scopes b' = put_counters (rq_day r, rq_scope r) sc (scopes b)"
    "aggregates b' = put_counters (rq_day r) ag (aggregates b)"
    "requests b' = row_upd rq_id tid (\<lambda>r. r\<lparr>rq_status := (if cancel then TICKET_CANCELLED else TICKET_SETTLED),
        rq_input := Some i, rq_output := Some out\<rparr>) (requests b)"
proof -
  from assms obtain r where r: "row_get rq_id tid (requests b) = Some r"
    by (auto simp: finish_ticket_def split: option.splits)
  with assms have st: "rq_status r = (if cancel then ADMITTED else TICKET_DISPATCHED)"
    by (auto simp: finish_ticket_def split: if_splits)
  let ?f = "release_counters cancel i out (rq_reserved r)"
  obtain sc ag where u: "update_counters (rq_day r, rq_scope r) ?f (scopes b) = Some sc"
      "update_counters (rq_day r) ?f (aggregates b) = Some ag"
    using assms r st
    by (cases "update_counters (rq_day r, rq_scope r) ?f (scopes b)"; cases "update_counters (rq_day r) ?f (aggregates b)")
      (auto simp: finish_ticket_def)
  with assms r st have b': "b' = b\<lparr>scopes := sc, aggregates := ag,
      requests := row_upd rq_id tid (\<lambda>r. r\<lparr>rq_status := (if cancel then TICKET_CANCELLED else TICKET_SETTLED),
        rq_input := Some i, rq_output := Some out\<rparr>) (requests b)\<rparr>"
    by (simp add: finish_ticket_def)
  from u(1) obtain c where c: "?f (counters_at (rq_day r, rq_scope r) (scopes b)) = Some c"
    "sc = put_counters (rq_day r, rq_scope r) c (scopes b)" by (rule update_counters_Some)
  from u(2) obtain d where d: "?f (counters_at (rq_day r) (aggregates b)) = Some d"
    "ag = put_counters (rq_day r) d (aggregates b)" by (rule update_counters_Some)
  show thesis by (rule that [OF r st c(1) d(1)]) (simp_all add: b' c d)
qed

lemma dispatch_counters [simp]:
  "scopes (fst (dispatch_ticket tid dollar now b)) = scopes b"
  "aggregates (fst (dispatch_ticket tid dollar now b)) = aggregates b"
  by (auto simp: dispatch_ticket_def split: option.split)

text \<open>One step lowers a charge, keeps it, or leaves it within the limits.\<close>

lemma release_charge:
  assumes "release_counters cancel i out n c = Some c'" "i + out \<le> n"
  shows "tokens_charged c' \<le> tokens_charged c" "cn_calls c' \<le> cn_calls c"
  using assms by (auto simp: release_Some tokens_charged_def)

lemma charge_within:
  assumes "charge_counters lim n c = Some c'"
  shows "tokens_charged c' \<le> token_limit lim" "cn_calls c' \<le> call_limit lim"
  using assms by (auto simp: charge_Some tokens_charged_def)

definition within_limits :: "limits \<Rightarrow> counters \<Rightarrow> counters \<Rightarrow> bool" where
  "within_limits lim c c' \<longleftrightarrow> tokens_charged c' \<le> max (tokens_charged c) (token_limit lim)
     \<and> cn_calls c' \<le> max (cn_calls c) (call_limit lim)"

lemma within_limitsI:
  "c' = c \<Longrightarrow> within_limits lim c c'"
  "charge_counters lim n c = Some c' \<Longrightarrow> within_limits lim c c'"
  "release_counters cancel i out m c = Some c' \<Longrightarrow> i + out \<le> m \<Longrightarrow> within_limits lim c c'"
  using charge_within release_charge by (fastforce simp: within_limits_def)+

lemma finish_limits:
  assumes "\<And>r. row_get rq_id tid (requests b) = Some r \<Longrightarrow> i + out \<le> rq_reserved r"
  shows "within_limits lim (counters_at day (aggregates b)) (counters_at day (aggregates (fst (finish_ticket cancel tid i out b))))
    \<and> within_limits lim (counters_at k (scopes b)) (counters_at k (scopes (fst (finish_ticket cancel tid i out b))))"
proof -
  obtain b' okay where f: "finish_ticket cancel tid i out b = (b', okay)" by fastforce
  show ?thesis
  proof (cases "b' = b")
    case True
    then show ?thesis by (simp add: f within_limitsI)
  next
    case False
    from finish_effect [OF f False] obtain r sc ag where e: "row_get rq_id tid (requests b) = Some r"
      "release_counters cancel i out (rq_reserved r) (counters_at (rq_day r, rq_scope r) (scopes b)) = Some sc"
      "release_counters cancel i out (rq_reserved r) (counters_at (rq_day r) (aggregates b)) = Some ag"
      "scopes b' = put_counters (rq_day r, rq_scope r) sc (scopes b)"
      "aggregates b' = put_counters (rq_day r) ag (aggregates b)" by blast
    from assms [OF e(1)] e(2-5) show ?thesis by (auto simp: f intro: within_limitsI)
  qed
qed

definition reservations_ok :: "budget \<Rightarrow> bool" where
  "reservations_ok b \<longleftrightarrow> list_all (\<lambda>r. 0 \<le> rq_reserved r) (requests b)"

lemma row_get_reserved:
  "reservations_ok b \<Longrightarrow> row_get rq_id tid (requests b) = Some r \<Longrightarrow> 0 \<le> rq_reserved r"
  by (auto simp: reservations_ok_def list_all_iff dest: row_get_Some_key)

lemma budget_exec_limits:
  assumes "reservations_ok b" "within_reservation x b"
  shows "within_limits lim (counters_at day (aggregates b)) (counters_at day (aggregates (budget_exec lim x b)))
    \<and> within_limits lim (counters_at k (scopes b)) (counters_at k (scopes (budget_exec lim x b)))"
proof (cases x)
  case (Reserve now scope n ticket)
  show ?thesis
  proof (cases "reserve lim now scope n ticket b")
    case (Inl e)
    with Reserve show ?thesis by (simp add: within_limitsI)
  next
    case (Inr p)
    obtain b' okay where p: "p = (b', okay)" by (cases p)
    show ?thesis
    proof (cases "b' = b")
      case True
      with Reserve Inr p show ?thesis by (simp add: within_limitsI)
    next
      case False
      show ?thesis
      proof (rule reserve_effect [OF Inr [unfolded p] False], goal_cases)
        case (1 agg sc)
        from 1(2-5) Reserve Inr p show ?thesis by (auto intro: within_limitsI)
      qed
    qed
  qed
next
  case (Dispatch tid dollar now)
  then show ?thesis by (simp add: within_limitsI)
next
  case (Cancel tid)
  show ?thesis unfolding Cancel budget_exec.simps cancel_ticket_def
    by (rule finish_limits) (simp add: row_get_reserved [OF assms(1)])
next
  case (SettleUsage tid usage)
  show ?thesis
  proof (cases "ticket_usage usage")
    case None
    with SettleUsage show ?thesis by (simp add: settle_ticket_def within_limitsI)
  next
    case (Some p)
    obtain i out where p: "p = (i, out)" by (cases p)
    have le: "i + out \<le> rq_reserved r" if "row_get rq_id tid (requests b) = Some r" for r
      using assms(2) SettleUsage Some p that by simp
    have "settle_ticket tid usage b = finish_ticket False tid i out b" by (simp add: settle_ticket_def Some p)
    then show ?thesis unfolding SettleUsage budget_exec.simps by (simp only:) (rule finish_limits, rule le)
  qed
qed

subsection \<open>The caps\<close>

lemma row_upd_all: "(\<And>r. P r \<Longrightarrow> P (f r)) \<Longrightarrow> list_all P t \<Longrightarrow> list_all P (row_upd key k f t)"
  by (induction t) auto

lemma finish_reservations:
  "reservations_ok b \<Longrightarrow> reservations_ok (fst (finish_ticket cancel tid i out b))"
proof -
  assume ok: "reservations_ok b"
  obtain b' okay where f: "finish_ticket cancel tid i out b = (b', okay)" by fastforce
  show ?thesis
  proof (cases "b' = b")
    case True
    with ok show ?thesis by (simp add: f)
  next
    case False
    show ?thesis
      by (rule finish_effect [OF f False]) (use ok in \<open>simp add: f reservations_ok_def row_upd_all\<close>)
  qed
qed

lemma budget_exec_reservations: "reservations_ok b \<Longrightarrow> reservations_ok (budget_exec lim x b)"
proof (cases x)
  case (Reserve now scope n ticket)
  assume ok: "reservations_ok b"
  show ?thesis
  proof (cases "reserve lim now scope n ticket b")
    case (Inl e)
    with Reserve ok show ?thesis by simp
  next
    case (Inr p)
    obtain b' okay where p: "p = (b', okay)" by (cases p)
    show ?thesis
    proof (cases "b' = b")
      case True
      with Reserve Inr p ok show ?thesis by simp
    next
      case False
      show ?thesis
        by (rule reserve_effect [OF Inr [unfolded p] False]) (use Reserve Inr p ok in \<open>auto simp: reservations_ok_def\<close>)
    qed
  qed
next
  case (Dispatch tid dollar now)
  assume "reservations_ok b"
  with Dispatch show ?thesis
    by (auto simp: dispatch_ticket_def reservations_ok_def row_upd_all split: option.split)
next
  case (Cancel tid)
  assume "reservations_ok b"
  with Cancel show ?thesis by (simp add: cancel_ticket_def finish_reservations)
next
  case (SettleUsage tid usage)
  assume "reservations_ok b"
  with SettleUsage show ?thesis by (auto simp: settle_ticket_def finish_reservations split: option.split)
qed

interpretation day_tokens: capped_meter "budget_exec lim" "\<lambda>b. tokens_charged (counters_at day (aggregates b))"
    "token_limit lim" reservations_ok within_reservation for lim day
  by unfold_locales (use budget_exec_reservations budget_exec_limits in \<open>auto simp: within_limits_def\<close>)

interpretation day_calls: capped_meter "budget_exec lim" "\<lambda>b. cn_calls (counters_at day (aggregates b))"
    "call_limit lim" reservations_ok within_reservation for lim day
  by unfold_locales (use budget_exec_reservations budget_exec_limits in \<open>auto simp: within_limits_def\<close>)

interpretation scope_tokens: capped_meter "budget_exec lim" "\<lambda>b. tokens_charged (counters_at k (scopes b))"
    "token_limit lim" reservations_ok within_reservation for lim k
  by unfold_locales (use budget_exec_reservations budget_exec_limits in \<open>auto simp: within_limits_def\<close>)

interpretation scope_calls: capped_meter "budget_exec lim" "\<lambda>b. cn_calls (counters_at k (scopes b))"
    "call_limit lim" reservations_ok within_reservation for lim k
  by unfold_locales (use budget_exec_reservations budget_exec_limits in \<open>auto simp: within_limits_def\<close>)

lemma meter_runs:
  "day_tokens.run lim xs b = budget_run lim xs b" "day_tokens.honest_run lim xs b = reports_within lim xs b"
  "day_calls.run lim xs b = budget_run lim xs b" "day_calls.honest_run lim xs b = reports_within lim xs b"
  "scope_tokens.run lim xs b = budget_run lim xs b" "scope_tokens.honest_run lim xs b = reports_within lim xs b"
  "scope_calls.run lim xs b = budget_run lim xs b" "scope_calls.honest_run lim xs b = reports_within lim xs b"
  by (induction xs arbitrary: b) simp_all

text \<open>C25: the daily caps hold. On a new budget, after any sequence of admissions, dispatches,
  cancellations and settlements in which no reported usage exceeds the tokens reserved for its
  ticket, the tokens charged (used or held) and the calls of every UTC day stay within the
  limits, over all scopes and for every single scope.\<close>

theorem budget_caps_hold:
  assumes "new_budget calls tokens = Inr (lim, b)" "reports_within lim xs b"
  shows "tokens_charged (counters_at day (aggregates (budget_run lim xs b))) \<le> tokens
    \<and> cn_calls (counters_at day (aggregates (budget_run lim xs b))) \<le> calls
    \<and> tokens_charged (counters_at (day, scope) (scopes (budget_run lim xs b))) \<le> tokens
    \<and> cn_calls (counters_at (day, scope) (scopes (budget_run lim xs b))) \<le> calls"
proof -
  from assms(1) have b: "b = \<lparr>scopes = [], aggregates = [], requests = []\<rparr>" "token_limit lim = tokens"
      "call_limit lim = calls" "0 < tokens" "0 < calls"
    by (auto simp: new_budget_def split: if_splits)
  then have "reservations_ok b" "tokens_charged (counters_at day (aggregates b)) \<le> token_limit lim"
      "cn_calls (counters_at day (aggregates b)) \<le> call_limit lim"
      "tokens_charged (counters_at (day, scope) (scopes b)) \<le> token_limit lim"
      "cn_calls (counters_at (day, scope) (scopes b)) \<le> call_limit lim"
    by (simp_all add: reservations_ok_def counters_at_def no_counters_def tokens_charged_def)
  with assms(2) show ?thesis
    using day_tokens.run_within_cap [of b day lim xs] day_calls.run_within_cap [of b day lim xs]
      scope_tokens.run_within_cap [of b "(day, scope)" lim xs] scope_calls.run_within_cap [of b "(day, scope)" lim xs]
    by (simp add: meter_runs b(2,3))
qed

subsection \<open>Counters as a function of the tickets\<close>

definition open_ticket :: "request_row \<Rightarrow> bool" where
  "open_ticket r \<longleftrightarrow> rq_status r = ADMITTED \<or> rq_status r = TICKET_DISPATCHED"

definition known :: "int option \<Rightarrow> int" where
  "known x = (case x of None \<Rightarrow> 0 | Some i \<Rightarrow> i)"

text \<open>What the tickets selected by \<open>P\<close> amount to: a call for each one not cancelled, the tokens
  reported, and the tokens held for the open ones.\<close>

definition ticket_total :: "(request_row \<Rightarrow> bool) \<Rightarrow> request_row list \<Rightarrow> counters" where
  "ticket_total P rs =
     \<lparr>cn_calls = (\<Sum>r\<leftarrow>rs. if P r \<and> rq_status r \<noteq> TICKET_CANCELLED then 1 else 0),
      cn_input = (\<Sum>r\<leftarrow>rs. if P r then known (rq_input r) else 0),
      cn_output = (\<Sum>r\<leftarrow>rs. if P r then known (rq_output r) else 0),
      cn_reserved = (\<Sum>r\<leftarrow>rs. if P r \<and> open_ticket r then rq_reserved r else 0)\<rparr>"

definition of_day :: "string \<Rightarrow> request_row \<Rightarrow> bool" where
  "of_day day r \<longleftrightarrow> rq_day r = day"

definition of_scope :: "string \<times> string \<Rightarrow> request_row \<Rightarrow> bool" where
  "of_scope k r \<longleftrightarrow> (rq_day r, rq_scope r) = k"

definition ticket_inv :: "budget \<Rightarrow> bool" where
  "ticket_inv b \<longleftrightarrow> distinct (map rq_id (requests b)) \<and> reservations_ok b
     \<and> list_all (\<lambda>r. open_ticket r \<longrightarrow> rq_input r = None \<and> rq_output r = None) (requests b)
     \<and> (\<forall>day. counters_at day (aggregates b) = ticket_total (of_day day) (requests b))
     \<and> (\<forall>k. counters_at k (scopes b) = ticket_total (of_scope k) (requests b))
     \<and> (\<forall>r \<in> set (requests b). row_get fst (rq_day r) (aggregates b) \<noteq> None
          \<and> row_get fst (rq_day r, rq_scope r) (scopes b) \<noteq> None)"

fun ticketed :: "budget_op \<Rightarrow> bool" where
  "ticketed (Reserve now scope n ticket) = (ticket \<noteq> None)"
| "ticketed _ = True"

lemma ticket_total_snoc:
  assumes "rq_status r = ADMITTED" "rq_input r = None" "rq_output r = None"
  shows "ticket_total P (rs @ [r]) = (if P r then (ticket_total P rs)\<lparr>cn_calls := cn_calls (ticket_total P rs) + 1,
      cn_reserved := cn_reserved (ticket_total P rs) + rq_reserved r\<rparr> else ticket_total P rs)"
  using assms by (simp add: ticket_total_def open_ticket_def known_def)

lemma ticket_total_dispatch:
  assumes "row_get rq_id tid rs = Some r" "distinct (map rq_id rs)" "rq_status r = ADMITTED"
    and "\<And>x. P (x\<lparr>rq_status := TICKET_DISPATCHED, rq_dispatched := d, rq_dollar := e\<rparr>) = P x"
  shows "ticket_total P (row_upd rq_id tid (\<lambda>r. r\<lparr>rq_status := TICKET_DISPATCHED, rq_dispatched := d, rq_dollar := e\<rparr>) rs)
    = ticket_total P rs"
  using assms(3,4) by (simp add: ticket_total_def sum_row_upd [OF assms(1,2)] open_ticket_def)

lemma ticket_total_finish:
  assumes "row_get rq_id tid rs = Some r" "distinct (map rq_id rs)" "open_ticket r" "rq_input r = None" "rq_output r = None"
    and "\<And>x. P (x\<lparr>rq_status := st, rq_input := Some i, rq_output := Some out\<rparr>) = P x"
    and "st = (if cancel then TICKET_CANCELLED else TICKET_SETTLED)"
  shows "ticket_total P (row_upd rq_id tid (\<lambda>r. r\<lparr>rq_status := st, rq_input := Some i, rq_output := Some out\<rparr>) rs)
    = (let c = ticket_total P rs in
       if P r then \<lparr>cn_calls = cn_calls c - (if cancel then 1 else 0), cn_input = cn_input c + i,
            cn_output = cn_output c + out, cn_reserved = cn_reserved c - rq_reserved r\<rparr> else c)"
proof -
  have "rq_status r \<noteq> TICKET_CANCELLED" using assms(3) by (auto simp: open_ticket_def)
  moreover have "\<not> open_ticket (r\<lparr>rq_status := st, rq_input := Some i, rq_output := Some out\<rparr>)"
    using assms(7) by (simp add: open_ticket_def)
  ultimately show ?thesis
    using assms(3-7) by (simp add: ticket_total_def sum_row_upd [OF assms(1,2)] known_def Let_def)
qed

lemma ticket_inv_reserve:
  assumes inv: "ticket_inv b" and op: "reserve lim now scope n (Some p) b = Inr (b', okay)"
  shows "ticket_inv b'"
proof (cases "b' = b")
  case False
  from op False show ?thesis
  proof (rule reserve_effect, goal_cases)
    case (1 agg sc)
    then obtain tid created where new: "row_get rq_id tid (requests b) = None"
      and rs: "requests b' = requests b @ [\<lparr>rq_id = tid, rq_day = current_day now, rq_scope = scope,
              rq_reserved = n, rq_status = ADMITTED, rq_created = created, rq_dispatched = None,
              rq_dollar = None, rq_input = None, rq_output = None\<rparr>]" (is "_ = _ @ [?r]") by auto
    have tot: "ticket_total P (requests b') = (if P ?r then (ticket_total P (requests b))\<lparr>cn_calls := cn_calls (ticket_total P (requests b)) + 1,
        cn_reserved := cn_reserved (ticket_total P (requests b)) + n\<rparr> else ticket_total P (requests b))" for P
      unfolding rs by (subst ticket_total_snoc) simp_all
    from inv have c: "counters_at day (aggregates b) = ticket_total (of_day day) (requests b)"
        "counters_at k (scopes b) = ticket_total (of_scope k) (requests b)" for day k
      unfolding ticket_inv_def by blast+
    have "counters_at day (aggregates b') = ticket_total (of_day day) (requests b')" for day
      using 1(2,4) by (auto simp: tot charge_Some c of_day_def)
    moreover have "counters_at k (scopes b') = ticket_total (of_scope k) (requests b')" for k
      using 1(3,5) by (auto simp: tot charge_Some c of_scope_def)
    moreover have "tid \<notin> rq_id ` set (requests b)" using new by (simp add: row_get_None_iff)
    ultimately show ?thesis using inv 1(1)
      unfolding ticket_inv_def
      by (simp add: rs reservations_ok_def 1(4,5) put_counters_known del: not_None_eq)
  qed
qed (simp add: inv)

lemma ticket_inv_dispatch: "ticket_inv b \<Longrightarrow> ticket_inv (fst (dispatch_ticket tid dollar now b))"
proof (cases "row_get rq_id tid (requests b)")
  case None
  assume "ticket_inv b"
  with None show ?thesis by (simp add: dispatch_ticket_def)
next
  case (Some r)
  assume inv: "ticket_inv b"
  let ?f = "\<lambda>r. r\<lparr>rq_status := TICKET_DISPATCHED, rq_dispatched := Some now, rq_dollar := dollar\<rparr>"
  show ?thesis
  proof (cases "rq_status r = ADMITTED")
    case True
    have tot: "ticket_total P (row_upd rq_id tid ?f (requests b)) = ticket_total P (requests b)"
      if "\<And>x. P (?f x) = P x" for P
      using inv that by (intro ticket_total_dispatch [OF Some _ True]) (simp_all add: ticket_inv_def)
    have r: "rq_input r = None" "rq_output r = None"
      using inv row_get_Some_key [OF Some] True by (auto simp: ticket_inv_def list_all_iff open_ticket_def)
    have upd: "set (row_upd rq_id tid ?f (requests b)) \<subseteq> insert (?f r) (set (requests b))"
      using inv by (intro row_upd_subset [OF Some]) (simp add: ticket_inv_def)
    have ids: "map rq_id (row_upd rq_id tid ?f (requests b)) = map rq_id (requests b)" by (rule keys_upd) simp
    have rr: "r \<in> set (requests b)" using row_get_Some_key [OF Some] by simp
    show ?thesis using inv r True rr
      unfolding ticket_inv_def
      by (auto simp: dispatch_ticket_def Some ids tot of_day_def of_scope_def reservations_ok_def list_all_iff
          dest!: subsetD [OF upd])
  qed (simp add: dispatch_ticket_def Some inv)
qed

lemma ticket_inv_finish:
  assumes inv: "ticket_inv b"
  shows "ticket_inv (fst (finish_ticket cancel tid i out b))"
proof -
  obtain b' okay where f: "finish_ticket cancel tid i out b = (b', okay)" by fastforce
  show ?thesis
  proof (cases "b' = b")
    case False
    let ?st = "if cancel then TICKET_CANCELLED else TICKET_SETTLED"
    let ?f = "\<lambda>r. r\<lparr>rq_status := ?st, rq_input := Some i, rq_output := Some out\<rparr>"
    show ?thesis
    proof (rule finish_effect [OF f False], goal_cases)
      case (1 r sc ag)
      have rr: "r \<in> set (requests b)" using row_get_Some_key [OF 1(1)] by simp
      have dis: "distinct (map rq_id (requests b))" using inv by (simp add: ticket_inv_def)
      have op: "open_ticket r" using 1(2) by (simp add: open_ticket_def split: if_splits)
      with inv rr have r: "rq_input r = None" "rq_output r = None" by (auto simp: ticket_inv_def list_all_iff)
      have tot: "ticket_total P (requests b') = (let c = ticket_total P (requests b) in
          if P r then \<lparr>cn_calls = cn_calls c - (if cancel then 1 else 0), cn_input = cn_input c + i,
            cn_output = cn_output c + out, cn_reserved = cn_reserved c - rq_reserved r\<rparr> else c)"
        if "\<And>x. P (?f x) = P x" for P
        unfolding 1(7) using that by (intro ticket_total_finish [OF 1(1) dis op r]) simp_all
      have c: "counters_at day (aggregates b) = ticket_total (of_day day) (requests b)"
          "counters_at k (scopes b) = ticket_total (of_scope k) (requests b)" for day k
        using inv unfolding ticket_inv_def by blast+
      have agg: "counters_at day (aggregates b') = ticket_total (of_day day) (requests b')" for day
        using 1(4) by (simp add: tot of_day_def 1(6) release_Some c Let_def)
      have sco: "counters_at k (scopes b') = ticket_total (of_scope k) (requests b')" for k
        using 1(3) by (simp add: tot of_scope_def 1(5) release_Some c Let_def)
      have upd: "set (requests b') \<subseteq> insert (?f r) (set (requests b))"
        unfolding 1(7) by (rule row_upd_subset [OF 1(1) dis])
      have ids: "map rq_id (requests b') = map rq_id (requests b)" unfolding 1(7) by (rule keys_upd) simp
      have "\<not> open_ticket (?f r)" by (simp add: open_ticket_def)
      with inv rr agg sco show ?thesis
        unfolding ticket_inv_def
        by (auto simp: f ids reservations_ok_def list_all_iff 1(5,6) put_counters_known dest!: subsetD [OF upd])
    qed
  qed (simp add: f inv)
qed

lemma ticket_inv_exec: "ticket_inv b \<Longrightarrow> ticketed x \<Longrightarrow> ticket_inv (budget_exec lim x b)"
proof (cases x)
  case (Reserve now scope n ticket)
  assume "ticket_inv b" "ticketed x"
  with Reserve show ?thesis by (auto intro: ticket_inv_reserve split: sum.split)
qed (auto simp: ticket_inv_dispatch cancel_ticket_def settle_ticket_def ticket_inv_finish split: option.split)

lemma ticket_inv_run: "ticket_inv b \<Longrightarrow> list_all ticketed xs \<Longrightarrow> ticket_inv (budget_run lim xs b)"
  by (induction xs arbitrary: b) (simp_all add: ticket_inv_exec)

lemma ticket_inv_new: "new_budget calls tokens = Inr (lim, b) \<Longrightarrow> ticket_inv b"
  by (auto simp: new_budget_def ticket_inv_def reservations_ok_def counters_at_def no_counters_def ticket_total_def
      split: if_splits)

text \<open>C26: the counter tables say what the tickets say. On a new budget, after any run in which every
  admission has a ticket, the counters of every UTC day, and of every day and scope, are the
  totals of the ticket table: one call per ticket not cancelled, the tokens reported for the
  settled ones and the tokens held for the open ones. Nothing leaks across days, whenever the
  settlement happens.\<close>

theorem counters_refine_tickets:
  assumes "new_budget calls tokens = Inr (lim, b)" "list_all ticketed xs"
  shows "counters_at day (aggregates (budget_run lim xs b)) = ticket_total (of_day day) (requests (budget_run lim xs b))
    \<and> counters_at (day, scope) (scopes (budget_run lim xs b))
        = ticket_total (of_scope (day, scope)) (requests (budget_run lim xs b))"
  using ticket_inv_run [OF ticket_inv_new [OF assms(1)] assms(2)] unfolding ticket_inv_def by blast

lemma finish_succeeds:
  assumes inv: "ticket_inv b" and r: "row_get rq_id tid (requests b) = Some r"
    and st: "rq_status r = (if cancel then ADMITTED else TICKET_DISPATCHED)"
  shows "snd (finish_ticket cancel tid i out b)"
proof -
  have rr: "r \<in> set (requests b)" using row_get_Some_key [OF r] by simp
  have op: "open_ticket r" "rq_status r \<noteq> TICKET_CANCELLED" using st by (auto simp: open_ticket_def split: if_splits)
  have nonneg: "0 \<le> rq_reserved x" if "x \<in> set (requests b)" for x
    using inv that by (auto simp: ticket_inv_def reservations_ok_def list_all_iff)
  have tot: "1 \<le> cn_calls (ticket_total P (requests b)) \<and> rq_reserved r \<le> cn_reserved (ticket_total P (requests b))"
    if "P r" for P
    using member_le_sum_int [OF rr, of "\<lambda>r. if P r \<and> rq_status r \<noteq> TICKET_CANCELLED then 1 else 0"]
      member_le_sum_int [OF rr, of "\<lambda>r. if P r \<and> open_ticket r then rq_reserved r else 0"] that op nonneg
    by (auto simp: ticket_total_def)
  have day: "\<exists>c. release_counters cancel i out (rq_reserved r) (counters_at (rq_day r) (aggregates b)) = Some c"
    and scope: "\<exists>c. release_counters cancel i out (rq_reserved r) (counters_at (rq_day r, rq_scope r) (scopes b)) = Some c"
    using inv tot [of "of_day (rq_day r)"] tot [of "of_scope (rq_day r, rq_scope r)"]
    unfolding ticket_inv_def release_Some by (simp_all add: of_day_def of_scope_def)
  have "row_get fst (rq_day r) (aggregates b) \<noteq> None" "row_get fst (rq_day r, rq_scope r) (scopes b) \<noteq> None"
    using inv rr unfolding ticket_inv_def by blast+
  with day scope have "update_counters (rq_day r) (release_counters cancel i out (rq_reserved r)) (aggregates b) \<noteq> None"
      "update_counters (rq_day r, rq_scope r) (release_counters cancel i out (rq_reserved r)) (scopes b) \<noteq> None"
    by (auto simp: update_counters_def counters_at_def)
  with r st show ?thesis by (auto simp: finish_ticket_def)
qed

text \<open>C27: a ticket can always be closed. In every such run a dispatched ticket is settled by the first
  valid usage report, on whatever day it arrives, and an admitted one can be cancelled: the
  consistency checks of the settlement never block it.\<close>

theorem tickets_close:
  assumes "new_budget calls tokens = Inr (lim, b)" "list_all ticketed xs"
    and "row_get rq_id tid (requests (budget_run lim xs b)) = Some r"
  shows "(rq_status r = TICKET_DISPATCHED \<and> ticket_usage usage \<noteq> None \<longrightarrow> snd (settle_ticket tid usage (budget_run lim xs b)))
    \<and> (rq_status r = ADMITTED \<longrightarrow> snd (cancel_ticket tid (budget_run lim xs b)))"
  using finish_succeeds [OF ticket_inv_run [OF ticket_inv_new [OF assms(1)] assms(2)] assms(3)]
  by (auto simp: settle_ticket_def cancel_ticket_def)

subsection \<open>An example day\<close>

definition sample_ops :: "budget_op list" where
  "sample_ops = [Reserve (Aware 0) ''s'' 50 (Some (''t'', 0)), Dispatch ''t'' None 1]"

lemma sample_budget: "new_budget 2 100 = Inr (\<lparr>call_limit = 2, token_limit = 100\<rparr>, \<lparr>scopes = [], aggregates = [], requests = []\<rparr>)"
  by (simp add: new_budget_def)

lemma sample_ops_run:
  "budget_run \<lparr>call_limit = 2, token_limit = 100\<rparr> sample_ops \<lparr>scopes = [], aggregates = [], requests = []\<rparr>
    = \<lparr>scopes = [((current_day (Aware 0), ''s''), \<lparr>cn_calls = 1, cn_input = 0, cn_output = 0, cn_reserved = 50\<rparr>)],
       aggregates = [(current_day (Aware 0), \<lparr>cn_calls = 1, cn_input = 0, cn_output = 0, cn_reserved = 50\<rparr>)],
       requests = [\<lparr>rq_id = ''t'', rq_day = current_day (Aware 0), rq_scope = ''s'', rq_reserved = 50,
         rq_status = TICKET_DISPATCHED, rq_created = 0, rq_dispatched = Some 1, rq_dollar = None,
         rq_input = None, rq_output = None\<rparr>]\<rparr>"
  by (simp add: sample_ops_def reserve_def charge_counters_def counters_at_def no_counters_def put_counters_def
      dispatch_ticket_def Let_def)

theorem budget_caps_hold_witness:
  "tokens_charged (counters_at (current_day (Aware 0)) (aggregates (budget_run \<lparr>call_limit = 2, token_limit = 100\<rparr>
      sample_ops \<lparr>scopes = [], aggregates = [], requests = []\<rparr>))) \<le> 100"
  using budget_caps_hold [OF sample_budget, of sample_ops "current_day (Aware 0)" "''s''"] by (simp add: sample_ops_def)

theorem counters_refine_tickets_witness:
  "ticket_total (of_day (current_day (Aware 0))) (requests (budget_run \<lparr>call_limit = 2, token_limit = 100\<rparr>
      sample_ops \<lparr>scopes = [], aggregates = [], requests = []\<rparr>))
    = \<lparr>cn_calls = 1, cn_input = 0, cn_output = 0, cn_reserved = 50\<rparr>"
  using counters_refine_tickets [OF sample_budget, of sample_ops "current_day (Aware 0)" "''s''"]
  by (simp add: sample_ops_run counters_at_def) (simp add: sample_ops_def)

theorem tickets_close_witness:
  "snd (settle_ticket ''t'' (JObj [(''input_tokens'', JInt 30), (''output_tokens'', JInt 5)])
     (budget_run \<lparr>call_limit = 2, token_limit = 100\<rparr> sample_ops \<lparr>scopes = [], aggregates = [], requests = []\<rparr>))"
proof -
  have "ticket_usage (JObj [(''input_tokens'', JInt 30), (''output_tokens'', JInt 5)]) = Some (30, 5)"
    by (simp add: ticket_usage_def cache_keys_def usage_count_def jget_def Let_def)
  moreover have "list_all ticketed sample_ops" by (simp add: sample_ops_def)
  ultimately show ?thesis
    using tickets_close [OF sample_budget, of sample_ops "''t''"] by (simp add: sample_ops_run)
qed

end
