(* ===== verification/Saas.thy ===== *)
theory Saas
  imports Json Calendar
begin

text \<open>
  \<^verbatim>\<open>src/quant_ai/service/saas_controls.py\<close>: tenant accounts, data grants and reservations of model
  cost. Amounts are integer micro-USD. A table is the list of its rows; \<open>sha\<close> is SHA-256. The
  audit log keeps the values its JSON texts denote. An operation that raises leaves the state
  as it was: all its writes are one transaction.
\<close>

subsection \<open>Tables and input checks\<close>

record account_row =
  sa_tenant :: string
  sa_active :: bool
  sa_budget :: int

record grant_row =
  sg_key :: "string \<times> string \<times> string"
  sg_from :: instant
  sg_expires :: instant
  sg_evidence :: string
  sg_reviewer :: string
  sg_enabled :: bool

record usage_row =
  su_key :: "string \<times> string"
  su_fingerprint :: string
  su_period :: string
  su_reserved :: int
  su_actual :: "int option"
  su_created :: instant
  su_settled :: "instant option"

record audit_row =
  au_tenant :: string
  au_event :: string
  au_body :: json
  au_at :: instant

record saas =
  saas_accounts :: "account_row list"
  saas_grants :: "grant_row list"
  saas_usage :: "usage_row list"
  saas_audit :: "audit_row list"

definition new_saas :: saas where
  "new_saas = \<lparr>saas_accounts = [], saas_grants = [], saas_usage = [], saas_audit = []\<rparr>"

definition purposes :: "string list" where
  "purposes = [''private_research'', ''simulation'', ''customer_display'', ''model_input'']"

definition saas_id :: "string \<Rightarrow> string res" where
  "saas_id s = (if id_match 128 s then Inr s else Inl (ValueError ''invalid_identifier''))"

definition saas_amount :: "int \<Rightarrow> int res" where
  "saas_amount i = (if 0 \<le> i \<and> i \<le> 10 ^ 12 then Inr i else Inl (ValueError ''invalid_micro_usd_amount''))"

definition saas_time :: "datetime \<Rightarrow> instant res" where
  "saas_time d = utc_instant (ValueError ''aware_time_required'') d"

definition saas_digest :: "string \<Rightarrow> string res" where
  "saas_digest s = (if sha_match s then Inr s else Inl (ValueError ''sha256_required''))"

definition audit :: "string \<Rightarrow> string \<Rightarrow> json \<Rightarrow> instant \<Rightarrow> saas \<Rightarrow> saas" where
  "audit tenant event body now s =
     s\<lparr>saas_audit := saas_audit s @ [\<lparr>au_tenant = tenant, au_event = event, au_body = body, au_at = now\<rparr>]\<rparr>"

text \<open>\<open>INSERT ... ON CONFLICT DO UPDATE\<close>\<close>

definition upsert :: "('r \<Rightarrow> 'k) \<Rightarrow> 'r \<Rightarrow> 'r list \<Rightarrow> 'r list" where
  "upsert key row t = (if row_get key (key row) t = None then t @ [row] else row_upd key (key row) (\<lambda>_. row) t)"

subsection \<open>Accounts and grants\<close>

definition configure_account :: "string \<Rightarrow> bool \<Rightarrow> int \<Rightarrow> string \<Rightarrow> datetime \<Rightarrow> saas \<Rightarrow> saas res" where
  "configure_account tenant active limit reviewer now s =
     ebind (saas_id tenant) (\<lambda>_.
     ebind (saas_id reviewer) (\<lambda>_.
     ebind (saas_amount limit) (\<lambda>_.
     ebind (saas_time now) (\<lambda>t.
     Inr (audit tenant ''account_configured''
       (JObj [(''active'', JBool active), (''budget'', JInt limit), (''reviewer'', JStr reviewer)]) t
       (s\<lparr>saas_accounts := upsert sa_tenant \<lparr>sa_tenant = tenant, sa_active = active, sa_budget = limit\<rparr>
            (saas_accounts s)\<rparr>))))))"

definition grant_data ::
    "string \<Rightarrow> string \<Rightarrow> string \<Rightarrow> datetime \<Rightarrow> datetime \<Rightarrow> string \<Rightarrow> string \<Rightarrow> datetime \<Rightarrow> saas \<Rightarrow> saas res" where
  "grant_data tenant source purpose valid_from expires evidence reviewer now s =
     ebind (saas_id tenant) (\<lambda>_.
     ebind (saas_id source) (\<lambda>_.
     ebind (saas_id reviewer) (\<lambda>_.
     ebind (saas_digest evidence) (\<lambda>_.
     if purpose \<notin> set purposes then Inl (ValueError ''unsupported_data_purpose'')
     else
     ebind (saas_time valid_from) (\<lambda>start.
     ebind (saas_time expires) (\<lambda>end_at.
     ebind (saas_time now) (\<lambda>t.
     if end_at \<le> start \<or> end_at \<le> t then Inl (ValueError ''invalid_licence_window'')
     else if row_get sa_tenant tenant (saas_accounts s) = None then Inl (IntegrityError ''FOREIGN KEY constraint failed'')
     else Inr (audit tenant ''data_granted''
       (JObj [(''source'', JStr source), (''purpose'', JStr purpose), (''evidence'', JStr evidence),
         (''reviewer'', JStr reviewer), (''valid_from'', JStr (iso_utc start)), (''expires'', JStr (iso_utc end_at))]) t
       (s\<lparr>saas_grants := upsert sg_key \<lparr>sg_key = (tenant, source, purpose), sg_from = start, sg_expires = end_at,
            sg_evidence = evidence, sg_reviewer = reviewer, sg_enabled = True\<rparr> (saas_grants s)\<rparr>)))))))))"

definition revoke_data :: "string \<Rightarrow> string \<Rightarrow> string \<Rightarrow> string \<Rightarrow> datetime \<Rightarrow> saas \<Rightarrow> saas res" where
  "revoke_data tenant source purpose reviewer now s =
     ebind (saas_id tenant) (\<lambda>_.
     ebind (saas_id source) (\<lambda>_.
     ebind (saas_id reviewer) (\<lambda>_.
     if purpose \<notin> set purposes then Inl (ValueError ''unsupported_data_purpose'')
     else
     ebind (saas_time now) (\<lambda>t.
     Inr (audit tenant ''data_revoked''
       (JObj [(''source'', JStr source), (''purpose'', JStr purpose), (''reviewer'', JStr reviewer)]) t
       (s\<lparr>saas_grants := row_upd sg_key (tenant, source, purpose) (\<lambda>g. g\<lparr>sg_enabled := False\<rparr>) (saas_grants s)\<rparr>))))))"

subsection \<open>Admission\<close>

definition account_active :: "string \<Rightarrow> saas \<Rightarrow> bool" where
  "account_active tenant s = (case row_get sa_tenant tenant (saas_accounts s) of None \<Rightarrow> False | Some a \<Rightarrow> sa_active a)"

definition grant_current :: "string \<Rightarrow> string \<Rightarrow> string \<Rightarrow> instant \<Rightarrow> saas \<Rightarrow> bool" where
  "grant_current tenant source purpose now s =
     (case row_get sg_key (tenant, source, purpose) (saas_grants s) of
        None \<Rightarrow> False | Some g \<Rightarrow> sg_enabled g \<and> sg_from g \<le> now \<and> now < sg_expires g)"

definition admission_reasons :: "string \<Rightarrow> string list \<Rightarrow> string \<Rightarrow> instant \<Rightarrow> saas \<Rightarrow> string list" where
  "admission_reasons tenant sources purpose now s =
     (if account_active tenant s then [] else [''subscription_inactive''])
     @ map (\<lambda>x. ''data_permission_missing:'' @ x) (filter (\<lambda>x. \<not> grant_current tenant x purpose now s) sources)"

definition admission_inputs :: "string \<Rightarrow> string list \<Rightarrow> string \<Rightarrow> datetime \<Rightarrow> (string list \<times> instant) res" where
  "admission_inputs tenant sources purpose now =
     ebind (saas_id tenant) (\<lambda>_.
     if purpose \<notin> set purposes then Inl (ValueError ''unsupported_data_purpose'')
     else if sources = [] \<or> 100 < length sources then Inl (ValueError ''source_list_required'')
     else
     ebind (map_res saas_id sources) (\<lambda>xs.
     ebind (saas_time now) (\<lambda>t. Inr (sort (remdups xs), t))))"

definition admission :: "string \<Rightarrow> string list \<Rightarrow> string \<Rightarrow> datetime \<Rightarrow> saas \<Rightarrow> (bool \<times> string list) res" where
  "admission tenant sources purpose now s =
     ebind (admission_inputs tenant sources purpose now) (\<lambda>(xs, t).
     let reasons = admission_reasons tenant xs purpose t s in Inr (reasons = [], reasons))"

subsection \<open>Reservations\<close>

fun join_with :: "string \<Rightarrow> string list \<Rightarrow> string" where
  "join_with sep [] = []"
| "join_with sep [x] = x"
| "join_with sep (x # y # xs) = x @ sep @ join_with sep (y # xs)"

text \<open>\<open>json.dumps([input, model, sources, maximum])\<close> with the default separators.\<close>

definition fingerprint_text :: "string \<Rightarrow> string \<Rightarrow> string list \<Rightarrow> int \<Rightarrow> string" where
  "fingerprint_text input model sources maximum =
     ''['' @ join_with '', '' [jstring True input, jstring True model,
        ''['' @ join_with '', '' (map (jstring True) sources) @ '']'', show_int maximum] @ '']''"

definition cost_used :: "string \<Rightarrow> string \<Rightarrow> saas \<Rightarrow> int" where
  "cost_used tenant period s =
     (\<Sum>r\<leftarrow>saas_usage s. if fst (su_key r) = tenant \<and> su_period r = period
        then (case su_actual r of None \<Rightarrow> su_reserved r | Some a \<Rightarrow> a) else 0)"

definition saas_reserve ::
    "(string \<Rightarrow> string) \<Rightarrow> string \<Rightarrow> string \<Rightarrow> string \<Rightarrow> string \<Rightarrow> string list \<Rightarrow> int \<Rightarrow> datetime \<Rightarrow> saas
      \<Rightarrow> (saas \<times> bool \<times> string) res" where
  "saas_reserve sha tenant request input model sources maximum now s =
     ebind (saas_id request) (\<lambda>_.
     ebind (saas_id model) (\<lambda>_.
     ebind (saas_digest input) (\<lambda>_.
     ebind (saas_amount maximum) (\<lambda>_.
     if maximum = 0 then Inl (ValueError ''positive_reservation_required'')
     else
     ebind (admission_inputs tenant sources ''model_input'' now) (\<lambda>(xs, t).
     let fingerprint = sha (fingerprint_text input model xs maximum); period = month_text t in
     case row_get su_key (tenant, request) (saas_usage s) of
       Some previous \<Rightarrow>
         if su_fingerprint previous \<noteq> fingerprint then Inl (ValueError ''idempotency_conflict'')
         else Inr (s, False, ''already_reserved_or_settled'')
     | None \<Rightarrow>
         let reasons = admission_reasons tenant xs ''model_input'' t s in
         if reasons \<noteq> []
         then Inr (audit tenant ''request_denied''
                (JObj [(''request'', JStr request), (''reasons'', JArr (map JStr reasons))]) t s,
              False, join_with '';'' reasons)
         else (case row_get sa_tenant tenant (saas_accounts s) of
             None \<Rightarrow> Inl (TypeError ''NoneType'')
           | Some account \<Rightarrow>
               if sa_budget account < cost_used tenant period s + maximum
               then Inr (audit tenant ''request_denied''
                      (JObj [(''request'', JStr request), (''reasons'', JArr [JStr ''budget''])]) t s,
                    False, ''budget_exceeded'')
               else Inr (audit tenant ''cost_reserved''
                      (JObj [(''request'', JStr request), (''maximum'', JInt maximum)]) t
                      (s\<lparr>saas_usage := saas_usage s @ [\<lparr>su_key = (tenant, request), su_fingerprint = fingerprint,
                           su_period = period, su_reserved = maximum, su_actual = None, su_created = t,
                           su_settled = None\<rparr>]\<rparr>),
                    True, ''reserved'')))))))"

definition pause_account :: "string \<Rightarrow> saas \<Rightarrow> saas" where
  "pause_account tenant s =
     s\<lparr>saas_accounts := row_upd sa_tenant tenant (\<lambda>a. a\<lparr>sa_active := False\<rparr>) (saas_accounts s)\<rparr>"

definition saas_settle :: "string \<Rightarrow> string \<Rightarrow> int option \<Rightarrow> datetime \<Rightarrow> saas \<Rightarrow> saas res" where
  "saas_settle tenant request actual now s =
     ebind (saas_id tenant) (\<lambda>_.
     ebind (saas_id request) (\<lambda>_.
     ebind (saas_time now) (\<lambda>t.
     ebind (case actual of None \<Rightarrow> Inr 0 | Some a \<Rightarrow> saas_amount a) (\<lambda>_.
     case row_get su_key (tenant, request) (saas_usage s) of
       None \<Rightarrow> Inl (ValueError ''unknown_request'')
     | Some row \<Rightarrow>
         if t < su_created row then Inl (ValueError ''settlement_before_request'')
         else if su_actual row \<noteq> None
           then (if su_actual row \<noteq> actual then Inl (ValueError ''settlement_conflict'') else Inr s)
         else (case actual of
             None \<Rightarrow> Inr s
           | Some a \<Rightarrow>
               let s1 = audit tenant ''cost_settled''
                     (JObj [(''request'', JStr request), (''actual'', JInt a),
                       (''exceeded_reservation'', JBool (su_reserved row < a))]) t
                     (s\<lparr>saas_usage := row_upd su_key (tenant, request)
                        (\<lambda>r. r\<lparr>su_actual := Some a, su_settled := Some t\<rparr>) (saas_usage s)\<rparr>)
               in Inr (if su_reserved row < a
                    then audit tenant ''account_paused_cost_overrun'' (JObj [(''request'', JStr request)]) t
                           (pause_account tenant s1)
                    else s1))))))"

record usage_report =
  ut_period :: string
  ut_requests :: nat
  ut_known_cost :: int
  ut_held :: int
  ut_unresolved :: nat

definition saas_usage_report :: "string \<Rightarrow> datetime \<Rightarrow> saas \<Rightarrow> usage_report res" where
  "saas_usage_report tenant now s =
     ebind (saas_id tenant) (\<lambda>_.
     ebind (saas_time now) (\<lambda>t.
     let period = month_text t;
         rows = filter (\<lambda>r. fst (su_key r) = tenant \<and> su_period r = period) (saas_usage s)
     in Inr \<lparr>ut_period = period, ut_requests = length rows,
          ut_known_cost = sum_list (map (\<lambda>r. case su_actual r of None \<Rightarrow> 0 | Some a \<Rightarrow> a) rows),
          ut_held = sum_list (map (\<lambda>r. if su_actual r = None then su_reserved r else 0) rows),
          ut_unresolved = length (filter (\<lambda>r. su_actual r = None) rows)\<rparr>))"

end
