(* ===== verification/SaasProps.thy ===== *)
theory SaasProps
  imports Saas
begin

text \<open>
  The cost control of \<open>Saas\<close>: budgets cap what a tenant may be charged, a request executes at
  most once, and a tenant whose cost ran over stays paused until an operator acts.
\<close>

datatype saas_op =
    Configure string bool int string datetime
  | Grant string string string datetime datetime string string datetime
  | Revoke string string string string datetime
  | ReserveCost string string string string "string list" int datetime
  | SettleCost string string "int option" datetime

text \<open>The state after an operation, and whether the caller was told to execute its request.\<close>

fun saas_exec :: "(string \<Rightarrow> string) \<Rightarrow> saas_op \<Rightarrow> saas \<Rightarrow> saas \<times> bool" where
  "saas_exec sha (Configure tenant active limit reviewer now) s =
     (case configure_account tenant active limit reviewer now s of Inl _ \<Rightarrow> (s, False) | Inr s' \<Rightarrow> (s', False))"
| "saas_exec sha (Grant tenant source purpose start end_at evidence reviewer now) s =
     (case grant_data tenant source purpose start end_at evidence reviewer now s of
        Inl _ \<Rightarrow> (s, False) | Inr s' \<Rightarrow> (s', False))"
| "saas_exec sha (Revoke tenant source purpose reviewer now) s =
     (case revoke_data tenant source purpose reviewer now s of Inl _ \<Rightarrow> (s, False) | Inr s' \<Rightarrow> (s', False))"
| "saas_exec sha (ReserveCost tenant request input model sources maximum now) s =
     (case saas_reserve sha tenant request input model sources maximum now s of
        Inl _ \<Rightarrow> (s, False) | Inr (s', execute, _) \<Rightarrow> (s', execute))"
| "saas_exec sha (SettleCost tenant request actual now) s =
     (case saas_settle tenant request actual now s of Inl _ \<Rightarrow> (s, False) | Inr s' \<Rightarrow> (s', False))"

definition saas_step :: "(string \<Rightarrow> string) \<Rightarrow> saas_op \<Rightarrow> saas \<Rightarrow> saas" where
  "saas_step sha x s = fst (saas_exec sha x s)"

fun saas_run :: "(string \<Rightarrow> string) \<Rightarrow> saas_op list \<Rightarrow> saas \<Rightarrow> saas" where
  "saas_run sha [] s = s"
| "saas_run sha (x # xs) s = saas_run sha xs (saas_step sha x s)"

subsection \<open>Effect of the operations\<close>

lemma audit_tables [simp]:
  "saas_accounts (audit te e b t s) = saas_accounts s" "saas_grants (audit te e b t s) = saas_grants s"
  "saas_usage (audit te e b t s) = saas_usage s"
  by (simp_all add: audit_def)

lemma pause_tables [simp]:
  "saas_grants (pause_account te s) = saas_grants s" "saas_usage (pause_account te s) = saas_usage s"
  "saas_accounts (pause_account te s) = row_upd sa_tenant te (\<lambda>a. a\<lparr>sa_active := False\<rparr>) (saas_accounts s)"
  by (simp_all add: pause_account_def)

lemma configure_effect:
  assumes "configure_account te active limit rv now s = Inr s'"
  shows "saas_usage s' = saas_usage s"
    "saas_accounts s' = upsert sa_tenant \<lparr>sa_tenant = te, sa_active = active, sa_budget = limit\<rparr> (saas_accounts s)"
  using assms by (auto simp: configure_account_def res_simps)

lemma grant_effect:
  assumes "grant_data te so p a b ev rv now s = Inr s'"
  shows "saas_usage s' = saas_usage s" "saas_accounts s' = saas_accounts s"
  using assms by (auto simp: grant_data_def res_simps split: if_splits)

lemma revoke_effect:
  assumes "revoke_data te so p rv now s = Inr s'"
  shows "saas_usage s' = saas_usage s" "saas_accounts s' = saas_accounts s"
  using assms by (auto simp: revoke_data_def res_simps split: if_splits)

lemma saas_reserve_effect:
  assumes "saas_reserve sha te rq inp mo src mx now s = Inr (s', ex, why)"
  obtains (refused) "\<not> ex" "saas_usage s' = saas_usage s" "saas_accounts s' = saas_accounts s"
  | (reserved) t account fp where "ex" "row_get su_key (te, rq) (saas_usage s) = None"
      "account_active te s" "row_get sa_tenant te (saas_accounts s) = Some account"
      "cost_used te (month_text t) s + mx \<le> sa_budget account"
      "saas_accounts s' = saas_accounts s"
      "saas_usage s' = saas_usage s @ [\<lparr>su_key = (te, rq), su_fingerprint = fp, su_period = month_text t,
         su_reserved = mx, su_actual = None, su_created = t, su_settled = None\<rparr>]"
proof -
  from assms obtain xs t where p: "(let fingerprint = sha (fingerprint_text inp mo xs mx); period = month_text t in
     case row_get su_key (te, rq) (saas_usage s) of
       Some previous \<Rightarrow>
         if su_fingerprint previous \<noteq> fingerprint then Inl (ValueError ''idempotency_conflict'')
         else Inr (s, False, ''already_reserved_or_settled'')
     | None \<Rightarrow>
         let reasons = admission_reasons te xs ''model_input'' t s in
         if reasons \<noteq> []
         then Inr (audit te ''request_denied''
                (JObj [(''request'', JStr rq), (''reasons'', JArr (map JStr reasons))]) t s,
              False, join_with '';'' reasons)
         else (case row_get sa_tenant te (saas_accounts s) of
             None \<Rightarrow> Inl (TypeError ''NoneType'')
           | Some account \<Rightarrow>
               if sa_budget account < cost_used te period s + mx
               then Inr (audit te ''request_denied''
                      (JObj [(''request'', JStr rq), (''reasons'', JArr [JStr ''budget''])]) t s,
                    False, ''budget_exceeded'')
               else Inr (audit te ''cost_reserved''
                      (JObj [(''request'', JStr rq), (''maximum'', JInt mx)]) t
                      (s\<lparr>saas_usage := saas_usage s @ [\<lparr>su_key = (te, rq), su_fingerprint = fingerprint,
                           su_period = period, su_reserved = mx, su_actual = None, su_created = t,
                           su_settled = None\<rparr>]\<rparr>),
                    True, ''reserved''))) = Inr (s', ex, why)"
    unfolding saas_reserve_def if_Inl_eq_Inr ebind_eq_Inr by (elim conjE exE) auto
  show thesis
  proof (cases "row_get su_key (te, rq) (saas_usage s)")
    case (Some r)
    with p show thesis by (intro refused) (auto simp: Let_def split: if_splits)
  next
    case None
    show thesis
    proof (cases "admission_reasons te xs ''model_input'' t s = []")
      case False
      with p None show thesis by (intro refused) (auto simp: Let_def)
    next
      case True
      then have act: "account_active te s" by (simp add: admission_reasons_def split: if_splits)
      then obtain account where acc: "row_get sa_tenant te (saas_accounts s) = Some account"
        by (auto simp: account_active_def split: option.splits)
      show thesis
      proof (cases "sa_budget account < cost_used te (month_text t) s + mx")
        case over: True
        with p None True acc show thesis by (intro refused) (auto simp: Let_def)
      next
        case False
        with p None True acc show thesis
          by (intro reserved [OF _ None act acc, of t]) (auto simp: Let_def)
      qed
    qed
  qed
qed

lemma saas_settle_effect:
  assumes "saas_settle te rq actual now s = Inr s'"
  obtains (same) "saas_usage s' = saas_usage s" "saas_accounts s' = saas_accounts s"
      "actual = None \<or> (\<exists>row. row_get su_key (te, rq) (saas_usage s) = Some row \<and> su_actual row \<noteq> None)"
  | (settled) row a t where "row_get su_key (te, rq) (saas_usage s) = Some row" "su_actual row = None" "actual = Some a"
      "saas_usage s' = row_upd su_key (te, rq) (\<lambda>r. r\<lparr>su_actual := Some a, su_settled := Some t\<rparr>) (saas_usage s)"
      "saas_accounts s' = (if su_reserved row < a
         then row_upd sa_tenant te (\<lambda>a. a\<lparr>sa_active := False\<rparr>) (saas_accounts s) else saas_accounts s)"
proof -
  from assms obtain t row where t: "now = Aware t" and row: "row_get su_key (te, rq) (saas_usage s) = Some row"
    by (auto simp: saas_settle_def res_simps saas_time_def split: option.splits)
  show thesis
  proof (cases "su_actual row = None \<and> actual \<noteq> None")
    case True
    then obtain a where a: "actual = Some a" by auto
    show thesis
      by (rule settled [OF row _ a, of t])
        (use assms t row True a in \<open>auto simp: saas_settle_def res_simps saas_time_def Let_def split: if_splits\<close>)
  next
    case False
    with row have "actual = None \<or> (\<exists>row. row_get su_key (te, rq) (saas_usage s) = Some row \<and> su_actual row \<noteq> None)"
      by auto
    with assms t row False show thesis
      by (intro same) (auto simp: saas_settle_def res_simps saas_time_def split: if_splits option.splits)
  qed
qed

subsection \<open>Budgets\<close>

text \<open>Budgets at most \<open>B\<close> and settlements within their reservations.\<close>

fun within_budget_op :: "int \<Rightarrow> saas_op \<Rightarrow> saas \<Rightarrow> bool" where
  "within_budget_op B (Configure tenant active limit reviewer now) s \<longleftrightarrow> limit \<le> B"
| "within_budget_op B (SettleCost tenant request actual now) s \<longleftrightarrow>
     (case (actual, row_get su_key (tenant, request) (saas_usage s)) of
        (Some a, Some r) \<Rightarrow> a \<le> su_reserved r | _ \<Rightarrow> True)"
| "within_budget_op B _ s \<longleftrightarrow> True"

fun within_budget_run :: "int \<Rightarrow> (string \<Rightarrow> string) \<Rightarrow> saas_op list \<Rightarrow> saas \<Rightarrow> bool" where
  "within_budget_run B sha [] s \<longleftrightarrow> True"
| "within_budget_run B sha (x # xs) s \<longleftrightarrow> within_budget_op B x s \<and> within_budget_run B sha xs (saas_step sha x s)"

definition saas_good :: "int \<Rightarrow> saas \<Rightarrow> bool" where
  "saas_good B s \<longleftrightarrow> list_all (\<lambda>a. sa_budget a \<le> B) (saas_accounts s) \<and> distinct (map su_key (saas_usage s))"

lemma upsert_all: "P row \<Longrightarrow> list_all P t \<Longrightarrow> list_all P (upsert key row t)"
  by (auto simp: upsert_def list_all_iff row_upd_def)

lemma row_upd_list_all: "(\<And>r. P r \<Longrightarrow> P (f r)) \<Longrightarrow> list_all P t \<Longrightarrow> list_all P (row_upd key k f t)"
  by (induction t) auto

definition cost_of :: "usage_row \<Rightarrow> int" where
  "cost_of r = (case su_actual r of None \<Rightarrow> su_reserved r | Some a \<Rightarrow> a)"

lemma cost_used_rows: "cost_used te p s = (\<Sum>r\<leftarrow>saas_usage s. if fst (su_key r) = te \<and> su_period r = p then cost_of r else 0)"
  unfolding cost_used_def cost_of_def by (rule refl)

lemma saas_step_good:
  assumes good: "saas_good B s" and op: "within_budget_op B x s"
  shows "saas_good B (saas_step sha x s) \<and> cost_used te p (saas_step sha x s) \<le> max (cost_used te p s) B"
proof (cases x)
  case (Configure tenant active limit reviewer now)
  show ?thesis
  proof (cases "configure_account tenant active limit reviewer now s")
    case (Inr s')
    from configure_effect [OF Inr] op good Configure Inr show ?thesis
      by (simp add: saas_step_def saas_good_def upsert_all cost_used_rows)
  qed (simp add: saas_step_def Configure good)
next
  case (Grant tenant source purpose start end_at evidence reviewer now)
  show ?thesis
  proof (cases "grant_data tenant source purpose start end_at evidence reviewer now s")
    case (Inr s')
    from grant_effect [OF Inr] good Grant Inr show ?thesis
      by (simp add: saas_step_def saas_good_def cost_used_rows)
  qed (simp add: saas_step_def Grant good)
next
  case (Revoke tenant source purpose reviewer now)
  show ?thesis
  proof (cases "revoke_data tenant source purpose reviewer now s")
    case (Inr s')
    from revoke_effect [OF Inr] good Revoke Inr show ?thesis
      by (simp add: saas_step_def saas_good_def cost_used_rows)
  qed (simp add: saas_step_def Revoke good)
next
  case (ReserveCost tenant request input model sources maximum now)
  show ?thesis
  proof (cases "saas_reserve sha tenant request input model sources maximum now s")
    case (Inr r)
    obtain s' ex why where r: "r = (s', ex, why)" by (cases r)
    have step: "saas_step sha x s = s'" by (simp add: saas_step_def ReserveCost Inr r)
    from Inr [unfolded r] show ?thesis
    proof (cases rule: saas_reserve_effect)
      case refused
      with good show ?thesis by (simp add: step saas_good_def cost_used_rows)
    next
      case (reserved t account fp)
      from good reserved(4) have "sa_budget account \<le> B"
        by (auto simp: saas_good_def list_all_iff dest: row_get_Some_key)
      with reserved(5) have "cost_used tenant (month_text t) s + maximum \<le> B" by simp
      moreover have "cost_used te p s' = cost_used te p s + (if tenant = te \<and> month_text t = p then maximum else 0)"
        by (simp add: cost_used_rows reserved(7) cost_of_def)
      moreover have "(tenant, request) \<notin> su_key ` set (saas_usage s)" using reserved(2) by (simp add: row_get_None_iff)
      ultimately show ?thesis using good by (auto simp: step saas_good_def reserved(6,7))
    qed
  qed (simp add: saas_step_def ReserveCost good)
next
  case (SettleCost tenant request actual now)
  show ?thesis
  proof (cases "saas_settle tenant request actual now s")
    case (Inr s')
    have step: "saas_step sha x s = s'" by (simp add: saas_step_def SettleCost Inr)
    from Inr show ?thesis
    proof (cases rule: saas_settle_effect)
      case same
      with good show ?thesis by (simp add: step saas_good_def cost_used_rows)
    next
      case (settled row a t)
      let ?f = "\<lambda>r. r\<lparr>su_actual := Some a, su_settled := Some t\<rparr>"
      from good have dis: "distinct (map su_key (saas_usage s))" by (simp add: saas_good_def)
      from op SettleCost settled(1,3) have "a \<le> su_reserved row" by simp
      then have "cost_of (?f row) \<le> cost_of row" by (simp add: cost_of_def settled(2))
      then have "cost_used te p s' \<le> cost_used te p s"
        by (simp add: cost_used_rows settled(4) sum_row_upd [OF settled(1) dis])
      moreover have "list_all (\<lambda>a. sa_budget a \<le> B) (saas_accounts s')"
        using good by (auto simp: settled(5) saas_good_def intro!: row_upd_list_all)
      moreover have "map su_key (saas_usage s') = map su_key (saas_usage s)" unfolding settled(4) by (rule keys_upd) simp
      ultimately show ?thesis using dis by (simp add: step saas_good_def)
    qed
  qed (simp add: saas_step_def SettleCost good)
qed

interpretation saas_meter: capped_meter "saas_step sha" "cost_used te p" B "saas_good B" "within_budget_op B"
  for sha te p B
  by unfold_locales (use saas_step_good in blast)+

lemma saas_meter_run:
  "saas_meter.run sha xs s = saas_run sha xs s" "saas_meter.honest_run sha B xs s = within_budget_run B sha xs s"
  by (induction xs arbitrary: s) simp_all

text \<open>C28: a tenant is never charged more than its budget. From an empty database, if no configured
  budget exceeds \<open>B\<close> and no settlement exceeds its reservation, then after any sequence of
  operations the cost of every tenant in every month, settled or still held, is at most \<open>B\<close>.\<close>

theorem saas_cost_within_budget:
  assumes "0 \<le> B" "within_budget_run B sha xs new_saas"
  shows "cost_used te p (saas_run sha xs new_saas) \<le> B"
proof -
  have "saas_good B new_saas" "cost_used te p new_saas \<le> B"
    using assms(1) by (simp_all add: saas_good_def new_saas_def cost_used_def)
  with saas_meter.run_within_cap [of B new_saas te p sha xs] assms(2) show ?thesis by (simp add: saas_meter_run)
qed

subsection \<open>A request executes once\<close>

definition request_of :: "saas_op \<Rightarrow> (string \<times> string) option" where
  "request_of x = (case x of ReserveCost te rq inp mo src mx now \<Rightarrow> Some (te, rq) | _ \<Rightarrow> None)"

text \<open>The requests a run told its callers to execute, in order.\<close>

fun executed :: "(string \<Rightarrow> string) \<Rightarrow> saas_op list \<Rightarrow> saas \<Rightarrow> (string \<times> string) list" where
  "executed sha [] s = []"
| "executed sha (x # xs) s =
     (case request_of x of Some k \<Rightarrow> (if snd (saas_exec sha x s) then [k] else []) | None \<Rightarrow> [])
     @ executed sha xs (saas_step sha x s)"

lemma saas_step_usage:
  "su_key ` set (saas_usage s) \<subseteq> su_key ` set (saas_usage (saas_step sha x s))"
  "request_of x = Some k \<Longrightarrow> snd (saas_exec sha x s) \<Longrightarrow>
     k \<notin> su_key ` set (saas_usage s) \<and> k \<in> su_key ` set (saas_usage (saas_step sha x s))"
proof -
  have "su_key ` set (saas_usage s) \<subseteq> su_key ` set (saas_usage (saas_step sha x s))
    \<and> (request_of x = Some k \<longrightarrow> snd (saas_exec sha x s) \<longrightarrow>
       k \<notin> su_key ` set (saas_usage s) \<and> k \<in> su_key ` set (saas_usage (saas_step sha x s)))"
  proof (cases x)
    case (ReserveCost tenant request input model sources maximum now)
    show ?thesis
    proof (cases "saas_reserve sha tenant request input model sources maximum now s")
      case (Inr r)
      obtain s' ex why where r: "r = (s', ex, why)" by (cases r)
      have step: "saas_exec sha x s = (s', ex)" by (simp add: ReserveCost Inr r)
      from Inr [unfolded r] show ?thesis
      proof (cases rule: saas_reserve_effect)
        case refused
        then show ?thesis by (simp add: saas_step_def step)
      next
        case (reserved t account fp)
        have "(tenant, request) \<notin> su_key ` set (saas_usage s)" using reserved(2) by (simp add: row_get_None_iff)
        moreover have "request_of x = Some (tenant, request)" by (simp add: ReserveCost request_of_def)
        ultimately show ?thesis by (auto simp: saas_step_def step reserved(7))
      qed
    qed (simp add: saas_step_def ReserveCost)
  next
    case (SettleCost tenant request actual now)
    show ?thesis
    proof (cases "saas_settle tenant request actual now s")
      case (Inr s')
      have step: "saas_step sha x s = s'" by (simp add: saas_step_def SettleCost Inr)
      from Inr have "su_key ` set (saas_usage s') = su_key ` set (saas_usage s)"
      proof (cases rule: saas_settle_effect)
        case (settled row a t)
        have "map su_key (saas_usage s') = map su_key (saas_usage s)" unfolding settled(4) by (rule keys_upd) simp
        then show ?thesis by (metis list.set_map)
      qed simp
      then show ?thesis by (simp add: step [unfolded SettleCost] SettleCost request_of_def)
    qed (simp add: saas_step_def SettleCost request_of_def)
  qed (auto simp: saas_step_def request_of_def configure_effect grant_effect revoke_effect split: sum.split)
  then show "su_key ` set (saas_usage s) \<subseteq> su_key ` set (saas_usage (saas_step sha x s))"
    and "request_of x = Some k \<Longrightarrow> snd (saas_exec sha x s) \<Longrightarrow>
     k \<notin> su_key ` set (saas_usage s) \<and> k \<in> su_key ` set (saas_usage (saas_step sha x s))" by blast+
qed

lemma executed_fresh: "distinct (executed sha xs s) \<and> set (executed sha xs s) \<inter> su_key ` set (saas_usage s) = {}"
proof (induction xs arbitrary: s)
  case Nil
  then show ?case by simp
next
  case (Cons x xs)
  let ?t = "saas_step sha x s"
  note sub = saas_step_usage(1) [of s sha x]
  show ?case
  proof (cases "\<exists>k. request_of x = Some k \<and> snd (saas_exec sha x s)")
    case True
    then obtain k where k: "request_of x = Some k" "snd (saas_exec sha x s)" by blast
    from saas_step_usage(2) [OF k] Cons.IH [of ?t] sub have "k \<notin> set (executed sha xs ?t)"
      "k \<notin> su_key ` set (saas_usage s)" by blast+
    with Cons.IH [of ?t] sub k show ?thesis by auto
  next
    case False
    then have "executed sha (x # xs) s = executed sha xs ?t" by (auto split: option.split)
    with Cons.IH [of ?t] sub show ?thesis by auto
  qed
qed

text \<open>C29: a request is executed at most once. In any run from any state, whatever is retried and with
  whatever payload, no tenant is told twice to execute one request, and never for a request
  that was reserved before the run.\<close>

theorem saas_executes_once:
  "distinct (executed sha xs s) \<and> set (executed sha xs s) \<inter> su_key ` set (saas_usage s) = {}"
  by (rule executed_fresh)

subsection \<open>A cost overrun pauses the tenant\<close>

fun configures :: "string \<Rightarrow> saas_op \<Rightarrow> bool" where
  "configures te (Configure tenant active limit reviewer now) \<longleftrightarrow> tenant = te"
| "configures te _ \<longleftrightarrow> False"

lemma row_get_replace:
  assumes "\<And>r. key r = k \<Longrightarrow> key (f r) = k"
  shows "row_get key k' (row_upd key k f t) = (if k' = k then map_option f (row_get key k t) else row_get key k' t)"
  using assms by (induction t) auto

lemma inactive_stays:
  assumes "\<not> account_active te s" "\<not> configures te x"
  shows "\<not> account_active te (saas_step sha x s)"
proof -
  have active: "account_active te s' \<longleftrightarrow> account_active te s" if "saas_accounts s' = saas_accounts s" for s'
    by (simp add: account_active_def that)
  have other: "row_get sa_tenant te (upsert sa_tenant row t) = row_get sa_tenant te t" if "sa_tenant row \<noteq> te" for row t
    using that by (auto simp: upsert_def table_simps row_get_replace split: option.split)
  show ?thesis
  proof (cases x)
    case (Configure tenant active limit reviewer now)
    show ?thesis
    proof (cases "configure_account tenant active limit reviewer now s")
      case (Inr s')
      have "saas_step sha x s = s'" by (simp add: saas_step_def Configure Inr)
      moreover have "row_get sa_tenant te (saas_accounts s') = row_get sa_tenant te (saas_accounts s)"
        unfolding configure_effect(2) [OF Inr] using assms(2) Configure by (intro other) simp
      ultimately show ?thesis using assms(1) by (simp add: account_active_def)
    qed (simp add: saas_step_def Configure assms(1))
  next
    case (Grant tenant source purpose start end_at evidence reviewer now)
    show ?thesis
    proof (cases "grant_data tenant source purpose start end_at evidence reviewer now s")
      case (Inr s')
      with active [OF grant_effect(2) [OF Inr]] assms(1) Grant show ?thesis by (simp add: saas_step_def)
    qed (simp add: saas_step_def Grant assms(1))
  next
    case (Revoke tenant source purpose reviewer now)
    show ?thesis
    proof (cases "revoke_data tenant source purpose reviewer now s")
      case (Inr s')
      with active [OF revoke_effect(2) [OF Inr]] assms(1) Revoke show ?thesis by (simp add: saas_step_def)
    qed (simp add: saas_step_def Revoke assms(1))
  next
    case (ReserveCost tenant request input model sources maximum now)
    have "saas_accounts (saas_step sha x s) = saas_accounts s"
    proof (cases "saas_reserve sha tenant request input model sources maximum now s")
      case (Inr r)
      obtain s' ex why where r: "r = (s', ex, why)" by (cases r)
      from Inr [unfolded r] have "saas_accounts s' = saas_accounts s" by (cases rule: saas_reserve_effect) simp_all
      then show ?thesis by (simp add: saas_step_def ReserveCost Inr r)
    qed (simp add: saas_step_def ReserveCost)
    with assms(1) active show ?thesis by blast
  next
    case (SettleCost tenant request actual now)
    show ?thesis
    proof (cases "saas_settle tenant request actual now s")
      case (Inr s')
      have "\<not> account_active te s'"
        using Inr
      proof (cases rule: saas_settle_effect)
        case same
        with active assms(1) show ?thesis by blast
      next
        case (settled row a t)
        with assms(1) show ?thesis by (auto simp: account_active_def row_get_replace split: option.splits)
      qed
      then show ?thesis by (simp add: saas_step_def SettleCost Inr)
    qed (simp add: saas_step_def SettleCost assms(1))
  qed
qed

lemma inactive_executes_nothing:
  assumes "\<not> account_active te s" "list_all (\<lambda>x. \<not> configures te x) xs"
  shows "te \<notin> fst ` set (executed sha xs s)"
  using assms
proof (induction xs arbitrary: s)
  case Nil
  then show ?case by simp
next
  case (Cons x xs)
  have "\<not> snd (saas_exec sha x s)" if "request_of x = Some k" "fst k = te" for k
  proof
    assume ex: "snd (saas_exec sha x s)"
    from that obtain rq inp mo src mx now where x: "x = ReserveCost te rq inp mo src mx now"
      by (cases x) (auto simp: request_of_def)
    from ex obtain s' why where "saas_reserve sha te rq inp mo src mx now s = Inr (s', True, why)"
      by (auto simp: x split: sum.splits)
    then show False using Cons.prems(1) by (cases rule: saas_reserve_effect) simp_all
  qed
  moreover have "te \<notin> fst ` set (executed sha xs (saas_step sha x s))"
    using Cons.prems by (intro Cons.IH inactive_stays) simp_all
  ultimately show ?case by (cases "request_of x") auto
qed

text \<open>C30: a cost overrun stops the tenant. When a settlement records a cost above its reservation, no
  later request of the tenant is executed until an operator configures the account again,
  whatever else happens in between.\<close>

theorem overrun_pauses_tenant:
  assumes "saas_settle te rq (Some a) now s = Inr s'" "row_get su_key (te, rq) (saas_usage s) = Some row"
    and "su_actual row = None" "su_reserved row < a" "list_all (\<lambda>x. \<not> configures te x) xs"
  shows "te \<notin> fst ` set (executed sha xs s')"
proof -
  have "\<not> account_active te s'"
    using assms(1)
  proof (cases rule: saas_settle_effect)
    case same
    with assms(2,3) show ?thesis by simp
  next
    case (settled row' b t)
    with assms(2,4) show ?thesis by (auto simp: account_active_def row_get_replace split: option.split)
  qed
  then show ?thesis using assms(5) by (rule inactive_executes_nothing)
qed

subsection \<open>An example tenant\<close>

definition sample_evidence :: string where
  "sample_evidence = replicate 64 CHR ''a''"

definition sample_setup :: "saas_op list" where
  "sample_setup = [Configure ''acme'' True 100 ''op'' (Aware 0),
     Grant ''acme'' ''nse'' ''model_input'' (Aware 0) (Aware 50) sample_evidence ''op'' (Aware 0),
     ReserveCost ''acme'' ''r1'' sample_evidence ''m'' [''nse''] 60 (Aware 5)]"

definition sample_saas :: saas where
  "sample_saas = saas_run (\<lambda>_. ''h'') sample_setup new_saas"

lemma sample_saas_ids: "id_match 128 ''acme''" "id_match 128 ''op''" "id_match 128 ''nse''" "id_match 128 ''r1''" "id_match 128 ''m''"
  "sha_match sample_evidence" "''model_input'' \<in> set purposes"
  by (simp_all add: id_match_def id_char_def is_upper_def is_lower_def is_digit_def sha_match_def sample_evidence_def
      list_all_iff purposes_def)

lemma sample_saas_tables:
  "saas_accounts sample_saas = [\<lparr>sa_tenant = ''acme'', sa_active = True, sa_budget = 100\<rparr>]"
  "saas_usage sample_saas = [\<lparr>su_key = (''acme'', ''r1''), su_fingerprint = ''h'', su_period = month_text 5,
     su_reserved = 60, su_actual = None, su_created = 5, su_settled = None\<rparr>]"
proof -
  let ?s1 = "saas_step (\<lambda>_. ''h'') (Configure ''acme'' True 100 ''op'' (Aware 0)) new_saas"
  let ?s2 = "saas_step (\<lambda>_. ''h'') (Grant ''acme'' ''nse'' ''model_input'' (Aware 0) (Aware 50) sample_evidence ''op'' (Aware 0)) ?s1"
  have one: "saas_accounts ?s1 = [\<lparr>sa_tenant = ''acme'', sa_active = True, sa_budget = 100\<rparr>]"
    "saas_grants ?s1 = []" "saas_usage ?s1 = []"
    by (simp_all add: saas_step_def configure_account_def saas_id_def saas_amount_def saas_time_def sample_saas_ids
        new_saas_def upsert_def)
  have two: "saas_accounts ?s2 = [\<lparr>sa_tenant = ''acme'', sa_active = True, sa_budget = 100\<rparr>]"
    "saas_grants ?s2 = [\<lparr>sg_key = (''acme'', ''nse'', ''model_input''), sg_from = 0, sg_expires = 50,
       sg_evidence = sample_evidence, sg_reviewer = ''op'', sg_enabled = True\<rparr>]" "saas_usage ?s2 = []"
    using one
    by (simp_all add: saas_step_def [of _ "Grant _ _ _ _ _ _ _ _"] grant_data_def saas_id_def saas_digest_def saas_time_def sample_saas_ids
        upsert_def)
  have three: "sample_saas = saas_step (\<lambda>_. ''h'') (ReserveCost ''acme'' ''r1'' sample_evidence ''m'' [''nse''] 60 (Aware 5)) ?s2"
    by (simp add: sample_saas_def sample_setup_def)
  have "admission_inputs ''acme'' [''nse''] ''model_input'' (Aware 5) = Inr ([''nse''], 5)"
    by (simp add: admission_inputs_def saas_id_def saas_time_def sample_saas_ids)
  moreover have "admission_reasons ''acme'' [''nse''] ''model_input'' 5 ?s2 = []"
    by (simp add: admission_reasons_def account_active_def grant_current_def two)
  moreover have "cost_used ''acme'' p ?s2 = 0" for p by (simp add: cost_used_def two)
  ultimately show "saas_accounts sample_saas = [\<lparr>sa_tenant = ''acme'', sa_active = True, sa_budget = 100\<rparr>]"
    "saas_usage sample_saas = [\<lparr>su_key = (''acme'', ''r1''), su_fingerprint = ''h'', su_period = month_text 5,
     su_reserved = 60, su_actual = None, su_created = 5, su_settled = None\<rparr>]"
    unfolding three
    by (simp_all add: saas_step_def [of _ "ReserveCost _ _ _ _ _ _ _"] saas_reserve_def saas_id_def saas_digest_def saas_amount_def
        sample_saas_ids two Let_def)
qed

theorem saas_cost_within_budget_witness:
  "cost_used ''acme'' (month_text 5) (saas_run (\<lambda>_. ''h'') sample_setup new_saas) \<le> 100
     \<and> cost_used ''acme'' (month_text 5) (saas_run (\<lambda>_. ''h'') sample_setup new_saas) = 60"
proof -
  have "within_budget_run 100 (\<lambda>_. ''h'') sample_setup new_saas" by (simp add: sample_setup_def)
  from saas_cost_within_budget [OF _ this, of "''acme''" "month_text 5"] show ?thesis
    by (simp add: cost_used_def sample_saas_tables flip: sample_saas_def)
qed

theorem overrun_pauses_tenant_witness:
  "\<exists>s'. saas_settle ''acme'' ''r1'' (Some 80) (Aware 9) sample_saas = Inr s'
     \<and> ''acme'' \<notin> fst ` set (executed (\<lambda>_. ''h'') [ReserveCost ''acme'' ''r2'' sample_evidence ''m'' [''nse''] 5 (Aware 10)] s')"
proof -
  have "\<exists>s'. saas_settle ''acme'' ''r1'' (Some 80) (Aware 9) sample_saas = Inr s'"
    by (simp add: saas_settle_def saas_id_def saas_time_def saas_amount_def sample_saas_ids sample_saas_tables Let_def)
  then obtain s' where s': "saas_settle ''acme'' ''r1'' (Some 80) (Aware 9) sample_saas = Inr s'" ..
  have "''acme'' \<notin> fst ` set (executed (\<lambda>_. ''h'') [ReserveCost ''acme'' ''r2'' sample_evidence ''m'' [''nse''] 5 (Aware 10)] s')"
    by (rule overrun_pauses_tenant [OF s']) (simp add: sample_saas_tables, simp_all)
  with s' show ?thesis by blast
qed

end
