(* ===== verification/Lifecycle.thy ===== *)
theory Lifecycle
  imports DecText Calendar
begin

text \<open>
  \<^verbatim>\<open>src/quant_ai/portfolio/lifecycle.py\<close>: the position manager, which proposes exits, reductions and
  additions for one position. Decimals are finite; a \<open>timedelta\<close> is a number of microseconds;
  the set of completed rules is a list.
\<close>

subsection \<open>Data\<close>

datatype PositionDirection = LONG | SHORT

datatype LifecycleAction = HOLD | EXIT_ALL | REDUCE | ADD

record scale_rule =
  ru_id :: string
  ru_gain :: dec
  ru_fraction :: dec

definition new_scale_rule :: "scale_rule \<Rightarrow> scale_rule res" where
  "new_scale_rule r =
     (if strip (ru_id r) = [] then Inl (ValueError ''position_scale_rule_id_required'')
      else if dle (ru_gain r) dzero then Inl (ValueError ''position_scale_gain_must_be_positive'')
      else if \<not> (dlt dzero (ru_fraction r) \<and> dle (ru_fraction r) (dec_of_int 1))
        then Inl (ValueError ''position_scale_fraction_must_be_in_0_1'')
      else Inr r)"

record lifecycle_policy =
  lp_lot :: int
  lp_max_holding :: "int option"
  lp_break_even :: "dec option"
  lp_trailing_gain :: "dec option"
  lp_trailing_distance :: "dec option"
  lp_scale_out :: "scale_rule list"
  lp_scale_in :: "scale_rule list"
  lp_max_quantity :: "int option"

definition new_lifecycle_policy :: "lifecycle_policy \<Rightarrow> lifecycle_policy res" where
  "new_lifecycle_policy p =
     (if lp_lot p < 1 then Inl (ValueError ''position_lifecycle_lot_size_invalid'')
      else if \<not> opt_all (\<lambda>d. 0 < d) (lp_max_holding p) then Inl (ValueError ''max_holding_period_must_be_positive'')
      else if \<not> opt_all (dlt dzero) (lp_break_even p) then Inl (ValueError ''break_even_activation_gain_must_be_positive'')
      else if \<not> opt_all (dlt dzero) (lp_trailing_gain p) then Inl (ValueError ''trailing_activation_gain_must_be_positive'')
      else if \<not> opt_all (\<lambda>d. dlt dzero d \<and> dlt d (dec_of_int 1)) (lp_trailing_distance p)
        then Inl (ValueError ''trailing_distance_fraction_must_be_in_0_1'')
      else if (lp_trailing_gain p = None) \<noteq> (lp_trailing_distance p = None)
        then Inl (ValueError ''trailing_activation_and_distance_must_be_configured_together'')
      else if \<not> distinct (map ru_id (lp_scale_out p @ lp_scale_in p)) then Inl (ValueError ''duplicate_position_scale_rule'')
      else if \<not> sorted_wrt (\<lambda>r s. dle (ru_gain r) (ru_gain s)) (lp_scale_out p)
        \<or> \<not> sorted_wrt (\<lambda>r s. dle (ru_gain r) (ru_gain s)) (lp_scale_in p)
        then Inl (ValueError ''position_scale_rules_must_be_gain_ordered'')
      else if \<not> opt_all (\<lambda>m. lp_lot p \<le> m \<and> m mod lp_lot p = 0) (lp_max_quantity p)
        then Inl (ValueError ''max_position_quantity_must_be_whole_lots'')
      else Inr p)"

record lifecycle_state =
  ls_symbol :: string
  ls_direction :: PositionDirection
  ls_quantity :: int
  ls_initial :: int
  ls_entry :: dec
  ls_opened :: datetime
  ls_extreme :: dec
  ls_stop :: "dec option"
  ls_target :: "dec option"
  ls_completed :: "string list"

definition new_lifecycle_state :: "lifecycle_state \<Rightarrow> lifecycle_state res" where
  "new_lifecycle_state s =
     (if strip (ls_symbol s) = [] then Inl (ValueError ''position_lifecycle_symbol_required'')
      else if ls_quantity s \<le> 0 then Inl (ValueError ''position_lifecycle_quantity_must_be_positive_integer'')
      else if ls_initial s \<le> 0 then Inl (ValueError ''position_lifecycle_initial_quantity_must_be_positive_integer'')
      else if dle (ls_entry s) dzero then Inl (ValueError ''position_lifecycle_entry_price_invalid'')
      else if dle (ls_extreme s) dzero then Inl (ValueError ''position_lifecycle_extreme_invalid'')
      else
      ebind (utc_instant (ValueError ''position_lifecycle_opened_at_must_be_timezone_aware'') (ls_opened s)) (\<lambda>_.
      if \<not> opt_all (dlt dzero) (ls_stop s) \<or> \<not> opt_all (dlt dzero) (ls_target s)
        then Inl (ValueError ''position_lifecycle_protective_level_invalid'')
      else (case (ls_stop s, ls_target s) of
          (Some stop, Some target) \<Rightarrow>
            if (if ls_direction s = LONG then dle target stop else dle stop target)
            then Inl (ValueError ''position_lifecycle_protection_inverted'') else Inr s
        | _ \<Rightarrow> Inr s)))"

record lifecycle_decision =
  ld_action :: LifecycleAction
  ld_quantity :: int
  ld_reason :: string
  ld_stop :: "dec option"
  ld_extreme :: dec
  ld_rule :: "string option"

subsection \<open>Evaluation\<close>

definition updated_extreme :: "lifecycle_state \<Rightarrow> dec \<Rightarrow> dec" where
  "updated_extreme s mark = (if ls_direction s = LONG then dmax (ls_extreme s) mark else dmin (ls_extreme s) mark)"

definition gain_of :: "lifecycle_state \<Rightarrow> dec \<Rightarrow> dec res" where
  "gain_of s mark =
     (if ls_direction s = LONG then ddiv (dsub mark (ls_entry s)) (ls_entry s)
      else ddiv (dsub (ls_entry s) mark) (ls_entry s))"

definition stop_hit :: "lifecycle_state \<Rightarrow> dec \<Rightarrow> bool" where
  "stop_hit s mark = (case ls_stop s of None \<Rightarrow> False
     | Some stop \<Rightarrow> if ls_direction s = LONG then dle mark stop else dle stop mark)"

definition target_hit :: "lifecycle_state \<Rightarrow> dec \<Rightarrow> bool" where
  "target_hit s mark = (case ls_target s of None \<Rightarrow> False
     | Some target \<Rightarrow> if ls_direction s = LONG then dle target mark else dle mark target)"

fun best :: "(dec \<Rightarrow> dec \<Rightarrow> dec) \<Rightarrow> dec list \<Rightarrow> dec option" where
  "best f [] = None"
| "best f (x # xs) = Some (foldl f x xs)"

definition stop_candidates :: "lifecycle_state \<Rightarrow> dec \<Rightarrow> dec \<Rightarrow> lifecycle_policy \<Rightarrow> dec list" where
  "stop_candidates s extreme gain p =
     (case ls_stop s of None \<Rightarrow> [] | Some stop \<Rightarrow> [stop])
     @ (case lp_break_even p of None \<Rightarrow> [] | Some g \<Rightarrow> if dle g gain then [ls_entry s] else [])
     @ (case (lp_trailing_gain p, lp_trailing_distance p) of
          (Some g, Some d) \<Rightarrow>
            if dle g gain
            then [if ls_direction s = LONG then dmul extreme (dsub (dec_of_int 1) d)
                  else dmul extreme (dadd (dec_of_int 1) d)]
            else []
        | _ \<Rightarrow> [])"

definition tightened_stop :: "lifecycle_state \<Rightarrow> dec \<Rightarrow> dec \<Rightarrow> lifecycle_policy \<Rightarrow> dec option" where
  "tightened_stop s extreme gain p =
     best (if ls_direction s = LONG then dmax else dmin) (stop_candidates s extreme gain p)"

definition rule_quantity :: "int \<Rightarrow> scale_rule \<Rightarrow> lifecycle_policy \<Rightarrow> int" where
  "rule_quantity initial r p = (dfloor (dmul (dec_of_int initial) (ru_fraction r)) div lp_lot p) * lp_lot p"

definition rule_open :: "lifecycle_state \<Rightarrow> dec \<Rightarrow> scale_rule \<Rightarrow> bool" where
  "rule_open s gain r \<longleftrightarrow> ru_id r \<notin> set (ls_completed s) \<and> \<not> dlt gain (ru_gain r)"

text \<open>The first rule of each list that applies, with the quantity it asks for.\<close>

fun first_scale_out :: "lifecycle_state \<Rightarrow> dec \<Rightarrow> lifecycle_policy \<Rightarrow> scale_rule list \<Rightarrow> (scale_rule \<times> int) option" where
  "first_scale_out s gain p [] = None"
| "first_scale_out s gain p (r # rs) =
     (let q = min (ls_quantity s) (rule_quantity (ls_initial s) r p)
      in if \<not> rule_open s gain r \<or> q \<le> 0 then first_scale_out s gain p rs else Some (r, q))"

fun first_scale_in :: "lifecycle_state \<Rightarrow> dec \<Rightarrow> dec option \<Rightarrow> lifecycle_policy \<Rightarrow> scale_rule list \<Rightarrow> (scale_rule \<times> int) option" where
  "first_scale_in s gain proposed p [] = None"
| "first_scale_in s gain proposed p (r # rs) =
     (let q = rule_quantity (ls_initial s) r p
      in if \<not> rule_open s gain r \<or> (ls_stop s = None \<and> proposed = None) \<or> q \<le> 0
           \<or> \<not> opt_all (\<lambda>m. ls_quantity s + q \<le> m) (lp_max_quantity p)
         then first_scale_in s gain proposed p rs else Some (r, q))"

definition same_stop :: "dec option \<Rightarrow> dec option \<Rightarrow> bool" where
  "same_stop a b = (case (a, b) of (None, None) \<Rightarrow> True | (Some x, Some y) \<Rightarrow> deq x y | _ \<Rightarrow> False)"

definition decision :: "LifecycleAction \<Rightarrow> int \<Rightarrow> string \<Rightarrow> dec option \<Rightarrow> dec \<Rightarrow> string option \<Rightarrow> lifecycle_decision" where
  "decision action q reason stop extreme rule =
     \<lparr>ld_action = action, ld_quantity = q, ld_reason = reason, ld_stop = stop, ld_extreme = extreme, ld_rule = rule\<rparr>"

text \<open>The decision once no exit is due: scale out, scale in, or hold with the tightened stop.\<close>

definition managed_decision :: "lifecycle_state \<Rightarrow> dec \<Rightarrow> dec \<Rightarrow> lifecycle_policy \<Rightarrow> lifecycle_decision" where
  "managed_decision s extreme gain p =
     (let proposed = tightened_stop s extreme gain p in
      case first_scale_out s gain p (lp_scale_out p) of
        Some (r, q) \<Rightarrow> decision (if q = ls_quantity s then EXIT_ALL else REDUCE) q (''scale_out:'' @ ru_id r)
                         proposed extreme (Some (ru_id r))
      | None \<Rightarrow>
          (case first_scale_in s gain proposed p (lp_scale_in p) of
             Some (r, q) \<Rightarrow> decision ADD q (''scale_in:'' @ ru_id r) proposed extreme (Some (ru_id r))
           | None \<Rightarrow> decision HOLD 0 (if \<not> same_stop proposed (ls_stop s) then ''protection_tightened'' else ''hold'')
                       proposed extreme None))"

definition lifecycle_evaluate ::
    "lifecycle_state \<Rightarrow> dec \<Rightarrow> datetime \<Rightarrow> lifecycle_policy \<Rightarrow> lifecycle_decision res" where
  "lifecycle_evaluate s mark now p =
     (if dle mark dzero then Inl (ValueError ''position_lifecycle_mark_invalid'')
      else
      ebind (utc_instant (ValueError ''position_lifecycle_now_must_be_timezone_aware'') now) (\<lambda>t.
      if ls_quantity s mod lp_lot p \<noteq> 0 \<or> ls_initial s mod lp_lot p \<noteq> 0
        then Inl (ValueError ''position_lifecycle_state_not_whole_lots'')
      else
      ebind (utc_instant (TypeError ''naive'') (ls_opened s)) (\<lambda>opened.
      if t < opened then Inl (ValueError ''position_lifecycle_now_before_open'')
      else
      let extreme = updated_extreme s mark in
      if stop_hit s mark then Inr (decision EXIT_ALL (ls_quantity s) ''protective_stop_hit'' (ls_stop s) extreme None)
      else if target_hit s mark then Inr (decision EXIT_ALL (ls_quantity s) ''take_profit_hit'' (ls_stop s) extreme None)
      else if \<not> opt_all (\<lambda>m. t - opened < m) (lp_max_holding p)
        then Inr (decision EXIT_ALL (ls_quantity s) ''max_holding_period_reached'' (ls_stop s) extreme None)
      else
      ebind (gain_of s mark) (\<lambda>gain. Inr (managed_decision s extreme gain p)))))"

end
