(* ===== verification/LifecycleProps.thy ===== *)
theory LifecycleProps
  imports Lifecycle
begin

text \<open>
  What a lifecycle decision may propose: exits come first, protection never loosens, and quantities
  are whole lots within the position and its limit.
\<close>

lemma dval_nonneg_quotient:
  assumes "ddiv x y = Inr q" "0 < dval y" "0 < dval q"
  shows "0 < dval x"
proof -
  have y: "\<not> dsign y" "dcoef y \<noteq> 0" using assms(2) by (auto simp: dval_gt_zero_iff)
  have q: "\<not> dsign q" "dcoef q \<noteq> 0" using assms(3) by (auto simp: dval_gt_zero_iff)
  have x: "dcoef x \<noteq> 0"
  proof
    assume "dcoef x = 0"
    with assms(1) y have "q = Fin (dsign x \<noteq> dsign y) 0 (dexp x - dexp y)" by (simp add: ddiv_def)
    with q show False by simp
  qed
  have "dsign q = (dsign x \<noteq> dsign y)"
    using assms(1) x y by (auto simp: ddiv_def Let_def dfix_sign split: if_splits prod.splits)
  with q x y show ?thesis by (simp add: dval_gt_zero_iff)
qed

lemma gain_positive:
  assumes "gain_of s mark = Inr g" "0 < dval (ls_entry s)" "0 < dval g"
  shows "if ls_direction s = LONG then dval (ls_entry s) < dval mark else dval mark < dval (ls_entry s)"
proof -
  have diff: "0 < dval (dsub x y) \<longleftrightarrow> dval y < dval x" for x y
    by (simp add: dsub_def dadd_sign)
  show ?thesis
    using assms(1) dval_nonneg_quotient [OF _ assms(2,3)] unfolding gain_of_def diff [symmetric]
    by (auto split: if_splits)
qed

subsection \<open>Protection\<close>

lemma foldl_dmax: "dval x \<le> dval (foldl dmax x xs)"
proof (induction xs arbitrary: x)
  case (Cons y ys)
  have "dval x \<le> dval (dmax x y)" by (simp add: dval_max)
  with Cons [of "dmax x y"] show ?case by simp
qed simp

lemma foldl_dmin: "dval (foldl dmin x xs) \<le> dval x"
proof (induction xs arbitrary: x)
  case (Cons y ys)
  have "dval (dmin x y) \<le> dval x" by (simp add: dval_min)
  with Cons [of "dmin x y"] show ?case by simp
qed simp

text \<open>\<open>no_looser\<close>: the second stop is at least as protective as the first.\<close>

definition no_looser :: "PositionDirection \<Rightarrow> dec option \<Rightarrow> dec option \<Rightarrow> bool" where
  "no_looser dir old new = (case old of None \<Rightarrow> True
     | Some x \<Rightarrow> (case new of None \<Rightarrow> False | Some y \<Rightarrow> if dir = LONG then dle x y else dle y x))"

lemma tightened_no_looser: "no_looser (ls_direction s) (ls_stop s) (tightened_stop s extreme gain p)"
proof (cases "ls_stop s")
  case None
  then show ?thesis by (simp add: no_looser_def)
next
  case (Some x)
  then obtain ys where "stop_candidates s extreme gain p = x # ys" by (simp add: stop_candidates_def)
  with Some foldl_dmax [of x ys] foldl_dmin [of x ys] show ?thesis
    by (simp add: no_looser_def tightened_stop_def dle_dval)
qed

lemma no_looser_refl [simp]: "no_looser dir x x"
  by (auto simp: no_looser_def dle_dval split: option.split)

definition must_exit :: "lifecycle_state \<Rightarrow> dec \<Rightarrow> instant \<Rightarrow> instant \<Rightarrow> lifecycle_policy \<Rightarrow> bool" where
  "must_exit s mark t opened p \<longleftrightarrow> stop_hit s mark \<or> target_hit s mark
     \<or> (\<exists>m. lp_max_holding p = Some m \<and> m \<le> t - opened)"

lemma evaluate_Inr:
  assumes "lifecycle_evaluate s mark now p = Inr d"
  obtains t opened where "now = Aware t" "ls_opened s = Aware opened" "opened \<le> t" "0 < dval mark"
    "ls_quantity s mod lp_lot p = 0" "ls_initial s mod lp_lot p = 0"
    "must_exit s mark t opened p \<and> ld_action d = EXIT_ALL \<and> ld_quantity d = ls_quantity s \<and> ld_stop d = ls_stop s \<and> ld_rule d = None
     \<or> \<not> must_exit s mark t opened p
       \<and> (\<exists>gain. gain_of s mark = Inr gain \<and> d = managed_decision s (updated_extreme s mark) gain p)"
proof -
  have mark: "0 < dval mark" by (rule ccontr) (use assms in \<open>simp add: lifecycle_evaluate_def dle_dval not_less\<close>)
  with assms obtain t where t: "now = Aware t"
    by (cases now) (auto simp: lifecycle_evaluate_def dle_dval not_le)
  have lots: "ls_quantity s mod lp_lot p = 0 \<and> ls_initial s mod lp_lot p = 0"
    by (rule ccontr) (use assms mark t in \<open>auto simp: lifecycle_evaluate_def dle_dval not_le\<close>)
  with assms mark t obtain opened where o: "ls_opened s = Aware opened"
    by (cases "ls_opened s") (auto simp: lifecycle_evaluate_def dle_dval not_le)
  have ge: "opened \<le> t"
    by (rule ccontr) (use assms mark t lots o in \<open>simp add: lifecycle_evaluate_def dle_dval not_le\<close>)
  have exit: "must_exit s mark t opened p \<longleftrightarrow> stop_hit s mark \<or> target_hit s mark
      \<or> \<not> opt_all (\<lambda>m. t - opened < m) (lp_max_holding p)"
    by (auto simp: must_exit_def opt_all_def not_less split: option.splits)
  show thesis
  proof (rule that [OF t o ge mark conjunct1 [OF lots] conjunct2 [OF lots]], cases "must_exit s mark t opened p")
    case True
    with assms mark lots ge have "ld_action d = EXIT_ALL \<and> ld_quantity d = ls_quantity s \<and> ld_stop d = ls_stop s \<and> ld_rule d = None"
      unfolding exit by (auto simp: lifecycle_evaluate_def t o dle_dval not_le Let_def decision_def split: if_splits)
    with True show "must_exit s mark t opened p \<and> ld_action d = EXIT_ALL \<and> ld_quantity d = ls_quantity s \<and> ld_stop d = ls_stop s \<and> ld_rule d = None
     \<or> \<not> must_exit s mark t opened p
       \<and> (\<exists>gain. gain_of s mark = Inr gain \<and> d = managed_decision s (updated_extreme s mark) gain p)" by blast
  next
    case False
    with assms mark lots ge have "\<exists>gain. gain_of s mark = Inr gain \<and> d = managed_decision s (updated_extreme s mark) gain p"
      unfolding exit by (auto simp: lifecycle_evaluate_def t o dle_dval not_le Let_def res_simps)
    with False show "must_exit s mark t opened p \<and> ld_action d = EXIT_ALL \<and> ld_quantity d = ls_quantity s \<and> ld_stop d = ls_stop s \<and> ld_rule d = None
     \<or> \<not> must_exit s mark t opened p
       \<and> (\<exists>gain. gain_of s mark = Inr gain \<and> d = managed_decision s (updated_extreme s mark) gain p)" by blast
  qed
qed

lemma managed_stop: "ld_stop (managed_decision s extreme gain p) = tightened_stop s extreme gain p"
  by (simp add: managed_decision_def Let_def decision_def split: option.split)

text \<open>C31: exits come first and protection never loosens. Whenever the stop or the target is reached or
  the holding period is over, the decision is to exit the whole position, whatever the scaling
  rules say; and every decision proposes a stop at least as protective as the current one.\<close>

theorem lifecycle_protects:
  assumes "lifecycle_evaluate s mark (Aware t) p = Inr d" "ls_opened s = Aware opened"
  shows "no_looser (ls_direction s) (ls_stop s) (ld_stop d)
    \<and> (must_exit s mark t opened p \<longrightarrow> ld_action d = EXIT_ALL \<and> ld_quantity d = ls_quantity s)"
  using assms(1)
proof (rule evaluate_Inr)
  fix t' opened'
  assume t: "Aware t = Aware t'" "ls_opened s = Aware opened'" and
    "must_exit s mark t' opened' p \<and> ld_action d = EXIT_ALL \<and> ld_quantity d = ls_quantity s \<and> ld_stop d = ls_stop s \<and> ld_rule d = None
     \<or> \<not> must_exit s mark t' opened' p
       \<and> (\<exists>gain. gain_of s mark = Inr gain \<and> d = managed_decision s (updated_extreme s mark) gain p)"
  with assms(2) show ?thesis by (auto simp: managed_stop tightened_no_looser)
qed

subsection \<open>Quantities\<close>

lemma first_scale_out_Some:
  "first_scale_out s gain p rs = Some (r, q) \<Longrightarrow> r \<in> set rs \<and> rule_open s gain r \<and> 0 < q
     \<and> q = min (ls_quantity s) (rule_quantity (ls_initial s) r p)"
  by (induction rs) (auto simp: Let_def split: if_splits)

lemma first_scale_in_Some:
  "first_scale_in s gain proposed p rs = Some (r, q) \<Longrightarrow> r \<in> set rs \<and> rule_open s gain r \<and> 0 < q
     \<and> (ls_stop s \<noteq> None \<or> proposed \<noteq> None) \<and> q = rule_quantity (ls_initial s) r p
     \<and> opt_all (\<lambda>m. ls_quantity s + q \<le> m) (lp_max_quantity p)"
  by (induction rs) (auto simp: Let_def split: if_splits)

lemma rule_quantity_lots: "rule_quantity i r p mod lp_lot p = 0"
  by (simp add: rule_quantity_def)

definition favourable :: "lifecycle_state \<Rightarrow> dec \<Rightarrow> bool" where
  "favourable s mark \<longleftrightarrow> (if ls_direction s = LONG then dlt (ls_entry s) mark else dlt mark (ls_entry s))"

text \<open>The quantities of a decision taken when no exit is due.\<close>

lemma managed_quantities:
  assumes gain: "gain_of s mark = Inr gain" and m: "d = managed_decision s (updated_extreme s mark) gain p"
    and entry: "0 < dval (ls_entry s)" and lots: "ls_quantity s mod lp_lot p = 0"
    and rules: "list_all (\<lambda>r. new_scale_rule r = Inr r) (lp_scale_out p @ lp_scale_in p)"
  shows "ld_quantity d mod lp_lot p = 0
    \<and> (case ld_action d of
         HOLD \<Rightarrow> ld_quantity d = 0
       | EXIT_ALL \<Rightarrow> ld_quantity d = ls_quantity s
       | REDUCE \<Rightarrow> 0 < ld_quantity d \<and> ld_quantity d < ls_quantity s
       | ADD \<Rightarrow> 0 < ld_quantity d \<and> favourable s mark \<and> ld_stop d \<noteq> None
           \<and> opt_all (\<lambda>m. ls_quantity s + ld_quantity d \<le> m) (lp_max_quantity p))
    \<and> opt_all (\<lambda>i. i \<notin> set (ls_completed s)) (ld_rule d)"
proof (cases "first_scale_out s gain p (lp_scale_out p)")
  case (Some rq)
  obtain r q where rq: "rq = (r, q)" by (cases rq)
  note out = first_scale_out_Some [OF Some [unfolded rq]]
  then have "q mod lp_lot p = 0" "q \<le> ls_quantity s"
    using lots rule_quantity_lots [of "ls_initial s" r p] by (auto simp: min_def)
  with out show ?thesis
    by (auto simp: m managed_decision_def Let_def Some rq decision_def opt_all_def rule_open_def)
next
  case None
  show ?thesis
  proof (cases "first_scale_in s gain (tightened_stop s (updated_extreme s mark) gain p) p (lp_scale_in p)")
    case (Some rq)
    obtain r q where rq: "rq = (r, q)" by (cases rq)
    note sin = first_scale_in_Some [OF Some [unfolded rq]]
    have "0 < dval (ru_gain r)"
      using sin rules by (auto simp: list_all_iff new_scale_rule_def dle_dval not_le split: if_splits)
    with sin have "0 < dval gain" by (auto simp: rule_open_def dlt_dval)
    from gain_positive [OF gain entry this] have "favourable s mark" by (simp add: favourable_def dlt_dval)
    moreover have "(tightened_stop s (updated_extreme s mark) gain p) \<noteq> None"
      using sin tightened_no_looser [of s "updated_extreme s mark" gain p]
      by (auto simp: no_looser_def split: option.splits)
    ultimately show ?thesis using sin rule_quantity_lots [of "ls_initial s" r p]
      by (auto simp: m managed_decision_def Let_def None Some rq decision_def opt_all_def rule_open_def)
  next
    case none: None
    then show ?thesis by (simp add: m managed_decision_def Let_def None decision_def opt_all_def)
  qed
qed

text \<open>C32: quantities stay within the position and whole lots, and losers are never added to. For a
  valid state and rules with positive gains: a hold moves nothing, an exit moves the whole
  position, a reduction moves fewer than the whole, an addition keeps the position within its
  limit, is proposed only while the mark is better than the entry price and only with a
  protective stop; every quantity is a whole number of lots, and the rule behind it was not
  completed before.\<close>

theorem lifecycle_quantities:
  assumes "lifecycle_evaluate s mark now p = Inr d" "new_lifecycle_state s = Inr s"
    and "list_all (\<lambda>r. new_scale_rule r = Inr r) (lp_scale_out p @ lp_scale_in p)"
  shows "ld_quantity d mod lp_lot p = 0
    \<and> (case ld_action d of
         HOLD \<Rightarrow> ld_quantity d = 0
       | EXIT_ALL \<Rightarrow> ld_quantity d = ls_quantity s
       | REDUCE \<Rightarrow> 0 < ld_quantity d \<and> ld_quantity d < ls_quantity s
       | ADD \<Rightarrow> 0 < ld_quantity d \<and> favourable s mark \<and> ld_stop d \<noteq> None
           \<and> opt_all (\<lambda>m. ls_quantity s + ld_quantity d \<le> m) (lp_max_quantity p))
    \<and> opt_all (\<lambda>i. i \<notin> set (ls_completed s)) (ld_rule d)"
  using assms(1)
proof (rule evaluate_Inr)
  fix t opened
  assume lots: "ls_quantity s mod lp_lot p = 0"
    and d: "must_exit s mark t opened p \<and> ld_action d = EXIT_ALL \<and> ld_quantity d = ls_quantity s \<and> ld_stop d = ls_stop s \<and> ld_rule d = None
     \<or> \<not> must_exit s mark t opened p
       \<and> (\<exists>gain. gain_of s mark = Inr gain \<and> d = managed_decision s (updated_extreme s mark) gain p)"
  from assms(2) have entry: "0 < dval (ls_entry s)"
    by (auto simp: new_lifecycle_state_def dle_dval not_le split: if_splits)
  show ?thesis
  proof (cases "must_exit s mark t opened p")
    case True
    with d lots show ?thesis by (auto simp: opt_all_def)
  next
    case False
    with d obtain gain where gain: "gain_of s mark = Inr gain" and
      m: "d = managed_decision s (updated_extreme s mark) gain p" by blast
    show ?thesis by (rule managed_quantities [OF gain m entry lots assms(3)])
  qed
qed

subsection \<open>An example\<close>

definition sample_position :: lifecycle_state where
  "sample_position = \<lparr>ls_symbol = ''X'', ls_direction = LONG, ls_quantity = 10, ls_initial = 10, ls_entry = Fin False 100 0,
     ls_opened = Aware 0, ls_extreme = Fin False 100 0, ls_stop = Some (Fin False 90 0), ls_target = None, ls_completed = []\<rparr>"

definition sample_policy :: lifecycle_policy where
  "sample_policy = \<lparr>lp_lot = 1, lp_max_holding = None, lp_break_even = None, lp_trailing_gain = None,
     lp_trailing_distance = None, lp_scale_out = [], lp_scale_in = [\<lparr>ru_id = ''a'', ru_gain = Fin False 1 (- 1),
     ru_fraction = Fin False 5 (- 1)\<rparr>], lp_max_quantity = Some 20\<rparr>"

lemma sample_evaluate: "\<exists>d. lifecycle_evaluate sample_position (Fin False 120 0) (Aware 5) sample_policy = Inr d
    \<and> ld_action d = ADD \<and> ld_quantity d = 5 \<and> ld_stop d = Some (Fin False 90 0)"
proof -
  have "gain_of sample_position (Fin False 120 0) = Inr (Fin False 2 (- 1))"
    by (simp add: gain_of_def sample_position_def dec_evals)
  moreover have "managed_decision sample_position e (Fin False 2 (- 1)) sample_policy
      = decision ADD 5 ''scale_in:a'' (Some (Fin False 90 0)) e (Some ''a'')" for e
    by (simp add: managed_decision_def sample_position_def sample_policy_def tightened_stop_def stop_candidates_def
        rule_open_def rule_quantity_def opt_all_def dec_evals)
  ultimately show ?thesis
    by (simp add: lifecycle_evaluate_def sample_policy_def sample_position_def stop_hit_def target_hit_def opt_all_def
        decision_def dec_evals Let_def)
qed

theorem lifecycle_protects_witness:
  "\<exists>d. lifecycle_evaluate sample_position (Fin False 120 0) (Aware 5) sample_policy = Inr d
     \<and> no_looser LONG (Some (Fin False 90 0)) (ld_stop d)"
proof -
  from sample_evaluate obtain d where d: "lifecycle_evaluate sample_position (Fin False 120 0) (Aware 5) sample_policy = Inr d" by blast
  from lifecycle_protects [OF d, of 0] d show ?thesis by (auto simp: sample_position_def)
qed

theorem lifecycle_quantities_witness:
  "\<exists>d. lifecycle_evaluate sample_position (Fin False 120 0) (Aware 5) sample_policy = Inr d
     \<and> ld_action d = ADD \<and> ld_quantity d = 5 \<and> favourable sample_position (Fin False 120 0)"
proof -
  from sample_evaluate obtain d where d: "lifecycle_evaluate sample_position (Fin False 120 0) (Aware 5) sample_policy = Inr d"
    "ld_action d = ADD" "ld_quantity d = 5" by blast
  have s: "new_lifecycle_state sample_position = Inr sample_position"
    by (simp add: new_lifecycle_state_def sample_position_def strip_def lstrip_def is_space_def opt_all_def dec_evals)
  have r: "list_all (\<lambda>r. new_scale_rule r = Inr r) (lp_scale_out sample_policy @ lp_scale_in sample_policy)"
    by (simp add: sample_policy_def new_scale_rule_def strip_def lstrip_def is_space_def dec_evals)
  from lifecycle_quantities [OF d(1) s r] d show ?thesis by simp
qed

end
