(* ===== verification/Risk.thy ===== *)
theory Risk
  imports Domain Calendar "HOL-Library.AList"
begin

text \<open>
  \<^verbatim>\<open>src/quant_ai/risk/policy.py\<close> and \<^verbatim>\<open>src/quant_ai/execution/derivative_margin.py\<close>: the
  order-level risk firewall, the broker-sourced margin it asks for, and the book-level firewall
  over operator-declared groups. Dictionaries are association lists in insertion order; the
  daily-close measure of the book (\<open>align_daily_closes\<close>, \<open>measure_book_risk\<close>,
  \<open>correlation_adjusted_gross\<close>) is the firewall's field \<open>bf_measure\<close>, and \<open>now\<close> is the caller's
  instant or the clock's reading.
\<close>

subsection \<open>Contract margins\<close>

definition margined_futures :: "AssetClass list" where
  "margined_futures = [FUTURE, COMMODITY, METAL]"

record margin_requirement =
  mr_symbol :: string
  mr_market :: Market
  mr_asset_class :: AssetClass
  mr_lot :: int
  mr_span :: dec
  mr_exposure :: dec
  mr_source :: string
  mr_observed_at :: datetime

definition total_per_lot :: "margin_requirement \<Rightarrow> dec" where
  "total_per_lot r = dadd (mr_span r) (mr_exposure r)"

definition new_margin_requirement :: "margin_requirement \<Rightarrow> margin_requirement res" where
  "new_margin_requirement r =
     (if strip (mr_symbol r) = [] \<or> strip (mr_source r) = []
        then Inl (ValueError ''derivative_margin_identity_and_source_required'')
      else if mr_asset_class r \<notin> set margined_futures then Inl (ValueError ''derivative_margin_asset_class_not_supported'')
      else if mr_lot r < 1 then Inl (ValueError ''derivative_margin_lot_size_must_be_positive'')
      else ebind (utc_instant (ValueError ''derivative_margin_observed_at_must_be_timezone_aware'') (mr_observed_at r)) (\<lambda>_.
      if dlt (mr_span r) dzero \<or> dlt (mr_exposure r) dzero \<or> dle (total_per_lot r) dzero
        then Inl (ValueError ''derivative_margin_amount_must_be_positive_finite'')
      else Inr r))"

definition margin_for_quantity :: "margin_requirement \<Rightarrow> int \<Rightarrow> dec res" where
  "margin_for_quantity r q =
     (if q \<le> 0 \<or> q mod mr_lot r \<noteq> 0
      then Inl (ValueError (''derivative_quantity_not_whole_lots:'' @ mr_symbol r @ '':'' @ show_int (mr_lot r)))
      else Inr (dmul (total_per_lot r) (dec_of_int (q div mr_lot r))))"

type_synonym margin_key = "string \<times> Market \<times> AssetClass"

record margin_source =
  ms_requirements :: "(margin_key \<times> margin_requirement) list"
  ms_max_age :: int

definition symbol_key :: "string \<Rightarrow> string" where
  "symbol_key s = map upper (strip s)"

fun index_requirements ::
    "(margin_key \<times> margin_requirement) list \<Rightarrow> margin_requirement list \<Rightarrow> (margin_key \<times> margin_requirement) list res" where
  "index_requirements acc [] = Inr acc"
| "index_requirements acc (r # rs) =
     (let key = (symbol_key (mr_symbol r), mr_market r, mr_asset_class r)
      in if key \<in> fst ` set acc then Inl (ValueError (''duplicate_derivative_margin_requirement:'' @ mr_symbol r))
         else index_requirements (acc @ [(key, r)]) rs)"

definition new_margin_source :: "margin_requirement list \<Rightarrow> int \<Rightarrow> margin_source res" where
  "new_margin_source rs max_age =
     (if max_age \<le> 0 then Inl (ValueError ''derivative_margin_max_age_seconds_must_be_positive_integer'')
      else ebind (index_requirements [] rs) (\<lambda>by_key.
      if by_key = [] then Inl (ValueError ''derivative_margin_contracts_required'')
      else Inr \<lparr>ms_requirements = by_key, ms_max_age = max_age\<rparr>))"

text \<open>Instants count microseconds; \<open>total_seconds\<close> is compared exactly.\<close>

definition requirement_for :: "margin_source \<Rightarrow> OrderIntent \<Rightarrow> datetime \<Rightarrow> margin_requirement res" where
  "requirement_for src order now =
     ebind (of_option (ValueError (''derivative_margin_requirement_unavailable:'' @ oi_symbol order))
        (map_of (ms_requirements src) (symbol_key (oi_symbol order), oi_market order, oi_asset_class order))) (\<lambda>r.
     ebind (utc_instant (ValueError ''derivative_margin_now_must_be_timezone_aware'') now) (\<lambda>t.
     ebind (utc_instant (ValueError ''naive'') (mr_observed_at r)) (\<lambda>seen.
     if t - seen < 0 then Inl (ValueError (''derivative_margin_snapshot_from_future:'' @ oi_symbol order))
     else if ms_max_age src * 1000000 < t - seen then Inl (ValueError (''derivative_margin_snapshot_stale:'' @ oi_symbol order))
     else Inr r)))"

definition margin_for_order :: "margin_source \<Rightarrow> OrderIntent \<Rightarrow> int option \<Rightarrow> datetime \<Rightarrow> dec res" where
  "margin_for_order src order q now =
     ebind (requirement_for src order now) (\<lambda>r.
     margin_for_quantity r (case q of None \<Rightarrow> oi_quantity order | Some n \<Rightarrow> n))"

subsection \<open>Policy, portfolio, decision\<close>

record risk_policy =
  rp_daily_loss :: dec
  rp_drawdown :: dec
  rp_single_trade :: dec
  rp_symbol :: dec
  rp_asset_class :: dec
  rp_gross :: dec
  rp_leverage :: dec
  rp_require_stop :: bool
  rp_blocked :: "AssetClass list"

definition default_risk_policy :: risk_policy where
  "default_risk_policy =
     \<lparr>rp_daily_loss = Fin False 2 (-2), rp_drawdown = Fin False 10 (-2), rp_single_trade = Fin False 5 (-2),
      rp_symbol = Fin False 10 (-2), rp_asset_class = Fin False 40 (-2), rp_gross = Fin False 60 (-2),
      rp_leverage = Fin False 100 (-2), rp_require_stop = True, rp_blocked = []\<rparr>"

definition new_risk_policy :: "risk_policy \<Rightarrow> risk_policy res" where
  "new_risk_policy p =
     (if dle (rp_leverage p) dzero then Inl (ValueError ''max_leverage_multiple must be positive and finite'') else Inr p)"

record portfolio_snapshot =
  ps_equity :: dec
  ps_realized :: dec
  ps_gross :: dec
  ps_peak :: "dec option"
  ps_symbol_exposure :: "(string \<times> dec) list"
  ps_asset_exposure :: "(AssetClass \<times> dec) list"
  ps_quantity :: "(string \<times> int) list"
  ps_daily_total :: dec
  ps_country_exposure :: "(string \<times> dec) list"
  ps_margin :: "dec option"

record risk_decision =
  rd_approved :: bool
  rd_reason :: string

definition rejected :: "string \<Rightarrow> risk_decision res" where
  "rejected r = Inr \<lparr>rd_approved = False, rd_reason = r\<rparr>"

definition approved :: "string \<Rightarrow> risk_decision res" where
  "approved r = Inr \<lparr>rd_approved = True, rd_reason = r\<rparr>"

definition get_dec :: "('k \<times> dec) list \<Rightarrow> 'k \<Rightarrow> dec" where
  "get_dec m k = (case map_of m k of None \<Rightarrow> dzero | Some v \<Rightarrow> v)"

subsection \<open>The order firewall\<close>

definition exposure_delta :: "OrderIntent \<Rightarrow> portfolio_snapshot \<Rightarrow> dec \<Rightarrow> dec \<Rightarrow> (dec \<times> dec) res" where
  "exposure_delta order ps notional current =
     (if oi_side order \<noteq> SELL then Inr (dzero, notional)
      else case map_of (ps_quantity ps) (oi_symbol order) of
        None \<Rightarrow> (let reducing = dmin notional (dmax current dzero) in Inr (reducing, dsub notional reducing))
      | Some held \<Rightarrow>
          if held \<le> 0 then Inr (dzero, notional)
          else
            let covered = min (oi_quantity order) held in
            ebind (ddiv (dmul (dmax current dzero) (dec_of_int covered)) (dec_of_int held)) (\<lambda>reducing.
            Inr (reducing, dmul (reference_price order) (dec_of_int (oi_quantity order - covered)))))"

definition stop_on_loss_side :: "OrderIntent \<Rightarrow> dec \<Rightarrow> bool" where
  "stop_on_loss_side order stop =
     (if oi_side order = BUY then dlt stop (reference_price order) else dlt (reference_price order) stop)"

definition target_on_profit_side :: "OrderIntent \<Rightarrow> dec \<Rightarrow> bool" where
  "target_on_profit_side order target =
     (if oi_side order = BUY then dlt (reference_price order) target else dlt target (reference_price order))"

text \<open>\<open>peak_equity or equity\<close>: a recorded peak of zero counts as none.\<close>

definition peak_of :: "portfolio_snapshot \<Rightarrow> dec" where
  "peak_of ps = (case ps_peak ps of None \<Rightarrow> ps_equity ps | Some p \<Rightarrow> if dcoef p = 0 then ps_equity ps else p)"

definition drawdown_reached :: "risk_policy \<Rightarrow> portfolio_snapshot \<Rightarrow> bool res" where
  "drawdown_reached p ps =
     (if dlt dzero (peak_of ps)
      then ebind (ddiv (dsub (peak_of ps) (ps_equity ps)) (peak_of ps)) (\<lambda>d. Inr (dle (rp_drawdown p) d))
      else Inr False)"

definition daily_loss_reached :: "risk_policy \<Rightarrow> portfolio_snapshot \<Rightarrow> bool" where
  "daily_loss_reached p ps \<longleftrightarrow>
     dle (dmin (ps_realized ps) (ps_daily_total ps)) (dminus (dmul (ps_equity ps) (rp_daily_loss p)))"

text \<open>The margin question of a margined future; \<open>None\<close> lets the order go on to the caps.\<close>

definition margin_refusal :: "margin_source option \<Rightarrow> OrderIntent \<Rightarrow> portfolio_snapshot \<Rightarrow> datetime \<Rightarrow> string option res" where
  "margin_refusal src order ps now =
     (case src of
        None \<Rightarrow> Inr (Some (''derivative_margin_requirement_unavailable:'' @ oi_symbol order))
      | Some source \<Rightarrow>
          let held = max 0 (case map_of (ps_quantity ps) (oi_symbol order) of None \<Rightarrow> 0 | Some h \<Rightarrow> h) in
          if oi_side order = SELL \<and> held < oi_quantity order then Inr (Some ''derivative_short_opening_unsupported'')
          else case margin_for_order source order (Some (if oi_side order = BUY then oi_quantity order else 0)) now of
            Inl (ValueError e) \<Rightarrow> Inr (Some e)
          | Inl e \<Rightarrow> Inl e
          | Inr required \<Rightarrow>
              (case ps_margin ps of
                 None \<Rightarrow> Inr (Some ''derivative_available_margin_unavailable'')
               | Some available \<Rightarrow>
                   if dlt available dzero then Inr (Some ''derivative_available_margin_unavailable'')
                   else if dlt available required then Inr (Some ''derivative_margin_shortfall'')
                   else Inr None))"

definition equity_share :: "portfolio_snapshot \<Rightarrow> dec \<Rightarrow> dec" where
  "equity_share ps f = dmul (ps_equity ps) f"

definition projected_value :: "dec \<Rightarrow> dec \<Rightarrow> dec \<Rightarrow> dec" where
  "projected_value current reducing adding = dadd (dsub current reducing) adding"

text \<open>The caps and the side of the protective levels, in the code's order.\<close>

definition cap_verdict :: "risk_policy \<Rightarrow> OrderIntent \<Rightarrow> portfolio_snapshot \<Rightarrow> dec \<Rightarrow> dec \<Rightarrow> risk_decision res" where
  "cap_verdict p order ps reducing adding =
     (if dlt (equity_share ps (rp_single_trade p)) adding then rejected ''single_trade_notional_limit''
      else if dlt (equity_share ps (rp_symbol p))
          (projected_value (get_dec (ps_symbol_exposure ps) (oi_symbol order)) reducing adding)
        then rejected ''symbol_concentration_limit''
      else if dlt (equity_share ps (rp_asset_class p))
          (projected_value (get_dec (ps_asset_exposure ps) (oi_asset_class order)) reducing adding)
        then rejected ''asset_class_exposure_limit''
      else if dlt (equity_share ps (rp_gross p)) (projected_value (ps_gross ps) reducing adding)
        then rejected ''gross_exposure_limit''
      else if \<not> opt_all (stop_on_loss_side order) (stop_price order) then rejected ''protective_stop_wrong_side''
      else if \<not> opt_all (target_on_profit_side order) (take_profit_price order) then rejected ''take_profit_wrong_side''
      else approved ''approved'')"

definition firewall_evaluate ::
    "risk_policy \<Rightarrow> margin_source option \<Rightarrow> OrderIntent \<Rightarrow> portfolio_snapshot \<Rightarrow> datetime \<Rightarrow> risk_decision res" where
  "firewall_evaluate p src order ps now =
     (if oi_quantity order \<le> 0 \<or> dle (reference_price order) dzero then rejected ''invalid_order''
      else if dle (ps_equity ps) dzero then rejected ''invalid_portfolio_equity''
      else if \<not> opt_all (dlt dzero) (stop_price order) then rejected ''invalid_stop_price''
      else if \<not> opt_all (dlt dzero) (take_profit_price order) then rejected ''invalid_take_profit_price''
      else
      let notional = dmul (reference_price order) (dec_of_int (oi_quantity order)) in
      ebind (exposure_delta order ps notional (get_dec (ps_symbol_exposure ps) (oi_symbol order))) (\<lambda>(reducing, adding).
      if deq adding dzero then approved ''approved_risk_reducing''
      else if oi_asset_class order \<in> set (rp_blocked p) then rejected ''asset_class_blocked''
      else if rp_require_stop p \<and> stop_price order = None then rejected ''protective_stop_required''
      else
      ebind (drawdown_reached p ps) (\<lambda>breached.
      if breached then rejected ''max_drawdown_reached''
      else if daily_loss_reached p ps then rejected ''daily_loss_limit_reached''
      else if dlt (equity_share ps (rp_leverage p)) (projected_value (ps_gross ps) reducing adding) then rejected ''leverage_limit''
      else
      ebind (if oi_asset_class order \<in> set margined_futures then margin_refusal src order ps now else Inr None) (\<lambda>refusal.
      case refusal of
        Some reason \<Rightarrow> rejected reason
      | None \<Rightarrow> cap_verdict p order ps reducing adding))))"

subsection \<open>The book firewall\<close>

record book_policy =
  bp_adjusted_gross :: dec
  bp_sector :: dec
  bp_shortfall :: dec
  bp_floor :: dec

definition new_book_policy :: "book_policy \<Rightarrow> book_policy res" where
  "new_book_policy p =
     (if dle (bp_adjusted_gross p) dzero then Inl (ValueError ''max_correlation_adjusted_gross must be positive'')
      else if dle (bp_sector p) dzero then Inl (ValueError ''max_sector_exposure must be positive'')
      else if dle (bp_shortfall p) dzero then Inl (ValueError ''max_book_expected_shortfall must be positive'')
      else if \<not> (dle (dec_of_int (-1)) (bp_floor p) \<and> dle (bp_floor p) (dec_of_int 1))
        then Inl (ValueError ''correlation_floor must be in [-1, 1]'')
      else Inr p)"

text \<open>What the history-based measure reports: a reason it is unusable, or the adjusted gross
  exposure and the expected shortfall, each with its own reason for being absent.\<close>

datatype book_measure = Unusable string | Measured "dec option" "dec option" string

record book_firewall =
  bf_policy :: book_policy
  bf_measure :: "(book_policy \<Rightarrow> (string \<times> dec) list \<Rightarrow> dec \<Rightarrow> book_measure res) option"
  bf_sectors :: "(string \<times> string) list"
  bf_required :: "string list"

fun normalize_sectors :: "(string \<times> string) list \<Rightarrow> (string \<times> string) list \<Rightarrow> (string \<times> string) list res" where
  "normalize_sectors acc [] = Inr acc"
| "normalize_sectors acc ((symbol, grp) # rest) =
     (let key = symbol_key symbol; value' = symbol_key grp
      in if key \<in> fst ` set acc then Inl (ValueError ''sector_map_duplicate_symbol'')
         else normalize_sectors (if key \<noteq> [] \<and> value' \<noteq> [] then acc @ [(key, value')] else acc) rest)"

definition sector_of :: "book_firewall \<Rightarrow> string \<Rightarrow> string option" where
  "sector_of bf symbol = map_of (bf_sectors bf) (symbol_key symbol)"

definition unmapped :: "book_firewall \<Rightarrow> string \<Rightarrow> bool" where
  "unmapped bf symbol = (case sector_of bf symbol of None \<Rightarrow> True | Some g \<Rightarrow> g = [])"

fun text_le :: "string \<Rightarrow> string \<Rightarrow> bool" where
  "text_le [] t = True"
| "text_le (c # s) [] = False"
| "text_le (c # s) (d # t) = (of_char c < (of_char d :: nat) \<or> (c = d \<and> text_le s t))"

fun insert_text :: "string \<Rightarrow> string list \<Rightarrow> string list" where
  "insert_text s [] = [s]"
| "insert_text s (t # ts) = (if text_le s t then s # t # ts else t # insert_text s ts)"

definition sort_text :: "string list \<Rightarrow> string list" where
  "sort_text xs = foldr insert_text xs []"

fun join_comma :: "string list \<Rightarrow> string" where
  "join_comma [] = []"
| "join_comma [s] = s"
| "join_comma (s # t # ts) = s @ '','' @ join_comma (t # ts)"

definition new_book_firewall ::
    "book_policy \<Rightarrow> (book_policy \<Rightarrow> (string \<times> dec) list \<Rightarrow> dec \<Rightarrow> book_measure res) option \<Rightarrow>
     (string \<times> string) list \<Rightarrow> string list \<Rightarrow> book_firewall res" where
  "new_book_firewall p history sectors required =
     ebind (normalize_sectors [] sectors) (\<lambda>normalized.
     Inr \<lparr>bf_policy = p, bf_measure = history, bf_sectors = normalized, bf_required = sort_text (remdups required)\<rparr>)"

definition configuration_problem :: "book_firewall \<Rightarrow> string list \<Rightarrow> string option" where
  "configuration_problem bf symbols =
     (if bf_required bf = [] then None
      else if bf_measure bf = None then Some ''required_book_history_missing''
      else let missing = sort_text (filter (unmapped bf) (remdups (bf_required bf @ symbols)))
        in if missing \<noteq> [] then Some (''required_sector_mapping_missing:'' @ join_comma missing) else None)"

definition clamp0 :: "dec \<Rightarrow> dec" where
  "clamp0 v = dmax dzero v"

definition projected_exposure :: "OrderIntent \<Rightarrow> portfolio_snapshot \<Rightarrow> (string \<times> dec) list res" where
  "projected_exposure order ps =
     (let notional = dmul (reference_price order) (dec_of_int (oi_quantity order));
          current = get_dec (ps_symbol_exposure ps) (oi_symbol order)
      in ebind (exposure_delta order ps notional current) (\<lambda>(reducing, adding).
      Inr (AList.update (oi_symbol order) (clamp0 (dadd (dsub (clamp0 current) reducing) adding))
             (map (\<lambda>(s, v). (s, clamp0 v)) (ps_symbol_exposure ps)))))"

fun group_totals :: "book_firewall \<Rightarrow> (string \<times> dec) list \<Rightarrow> (string \<times> dec) list \<Rightarrow> (string \<times> dec) list" where
  "group_totals bf acc [] = acc"
| "group_totals bf acc ((symbol, v) # rest) =
     group_totals bf (case sector_of bf symbol of
        None \<Rightarrow> acc
      | Some g \<Rightarrow> if dle v dzero then acc else AList.update g (dadd (get_dec acc g) v) acc) rest"

definition group_breach :: "book_firewall \<Rightarrow> (string \<times> dec) list \<Rightarrow> dec \<Rightarrow> string option" where
  "group_breach bf projected equity =
     (if bf_sectors bf = [] then None
      else let totals = group_totals bf [] projected; limit = dmul equity (bp_sector (bf_policy bf))
        in find (\<lambda>g. dlt limit (get_dec totals g)) (sort_text (map fst totals)))"

definition unavailable_because :: "string \<Rightarrow> risk_decision res" where
  "unavailable_because r = rejected (''book_risk_measure_unavailable:'' @ r)"

text \<open>\<open>_evaluate\<close>, after which \<open>evaluate\<close> turns every exception into a refusal.\<close>

definition history_verdict :: "book_policy \<Rightarrow> book_measure \<Rightarrow> risk_decision res" where
  "history_verdict p m =
     (case m of
        Unusable reason \<Rightarrow> unavailable_because reason
      | Measured None shortfall tail_reason \<Rightarrow> unavailable_because ''correlation_aggregation''
      | Measured (Some adj) shortfall tail_reason \<Rightarrow>
          if dlt (bp_adjusted_gross p) adj then rejected ''correlation_adjusted_gross_limit''
          else (case shortfall of
             None \<Rightarrow> unavailable_because (if tail_reason = [] then ''expected_shortfall'' else tail_reason)
           | Some loss \<Rightarrow>
               if dlt (bp_shortfall p) loss then rejected ''book_expected_shortfall_limit''
               else approved ''approved_book_risk''))"

definition book_verdict :: "book_firewall \<Rightarrow> OrderIntent \<Rightarrow> portfolio_snapshot \<Rightarrow> risk_decision res" where
  "book_verdict bf order ps =
     (if dle (ps_equity ps) dzero then unavailable_because ''invalid_equity''
      else
      ebind (projected_exposure order ps) (\<lambda>projected.
      let held = filter (\<lambda>(s, v). dlt dzero v) projected in
      case configuration_problem bf (map fst held) of
        Some problem \<Rightarrow> unavailable_because problem
      | None \<Rightarrow>
      (case group_breach bf projected (ps_equity ps) of
         Some g \<Rightarrow> rejected (''sector_concentration_limit:'' @ g)
       | None \<Rightarrow>
       (case bf_measure bf of
          None \<Rightarrow> approved ''approved_book_risk''
        | Some history \<Rightarrow>
            if held = [] then approved ''approved_book_risk''
            else ebind (history (bf_policy bf)
                (map (\<lambda>s. (s, get_dec projected s)) (sort_text (map fst held))) (ps_equity ps)) (history_verdict (bf_policy bf))))))"

definition exn_name :: "exn \<Rightarrow> string" where
  "exn_name e = (case e of ValueError _ \<Rightarrow> ''ValueError'' | TypeError _ \<Rightarrow> ''TypeError'' | KeyError _ \<Rightarrow> ''KeyError''
     | RuntimeError _ \<Rightarrow> ''RuntimeError'' | ArithmeticError _ \<Rightarrow> ''ArithmeticError'' | IntegrityError _ \<Rightarrow> ''IntegrityError'')"

definition book_attempt :: "book_firewall \<Rightarrow> OrderIntent \<Rightarrow> portfolio_snapshot \<Rightarrow> risk_decision res" where
  "book_attempt bf order ps =
     (case configuration_problem bf [] of
        Some problem \<Rightarrow> unavailable_because problem
      | None \<Rightarrow> if bf_measure bf = None \<and> bf_sectors bf = [] then approved ''book_risk_not_armed''
                else book_verdict bf order ps)"

definition book_evaluate :: "book_firewall \<Rightarrow> OrderIntent \<Rightarrow> portfolio_snapshot \<Rightarrow> risk_decision" where
  "book_evaluate bf order ps =
     (case book_attempt bf order ps of
        Inr d \<Rightarrow> d
      | Inl e \<Rightarrow> \<lparr>rd_approved = False, rd_reason = ''book_risk_measure_unavailable:'' @ exn_name e\<rparr>)"

interpretation book_gate: fail_closed "\<lambda>(bf, order, ps). book_attempt bf order ps"
    "\<lambda>(bf, order, ps). book_evaluate bf order ps" rd_approved
  by unfold_locales (auto simp: book_evaluate_def)

end
