(* ===== verification/Contract.thy ===== *)
theory Contract
  imports Domain Calendar
begin

text \<open>
  \<^verbatim>\<open>src/quant_ai/instruments/contract.py\<close>: the state of a dated contract on the venue's day, and
  whether an order fits its lot and its tick. Indian venues use IST (five and a half hours
  ahead of UTC, without daylight saving); elsewhere the day is read off the datetime's own
  zone, whose offset in microseconds is the argument \<open>offset\<close>.
\<close>

datatype ContractState = LIVE | ROLLOVER | EXPIRED

definition ist_offset :: int where
  "ist_offset = 19800000000"

definition local_date :: "int \<Rightarrow> datetime \<Rightarrow> Instrument \<Rightarrow> int res" where
  "local_date offset moment i =
     ebind (utc_instant (ValueError ''contract_clock_must_be_timezone_aware'') moment) (\<lambda>t.
     Inr ((t + (if in_market i = INDIA then ist_offset else offset)) div 86400000000))"

definition contract_state :: "int \<Rightarrow> Instrument \<Rightarrow> datetime \<Rightarrow> int \<Rightarrow> ContractState res" where
  "contract_state offset i now rollover =
     (if rollover < 0 then Inl (ValueError ''rollover_sessions_cannot_be_negative'')
      else case expiry i of
        None \<Rightarrow> Inr LIVE
      | Some e \<Rightarrow>
          ebind (local_date offset now i) (\<lambda>today.
          if int e < today then Inr EXPIRED
          else if int e - rollover \<le> today then Inr ROLLOVER
          else Inr LIVE))"

definition contract_label :: "Instrument \<Rightarrow> string" where
  "contract_label i = in_symbol i @ '':'' @ exchange i @ '':'' @
     (case expiry i of None \<Rightarrow> ''None'' | Some e \<Rightarrow> date_iso e)"

definition assert_contract_tradable :: "int \<Rightarrow> Instrument \<Rightarrow> Side \<Rightarrow> datetime \<Rightarrow> int \<Rightarrow> ContractState res" where
  "assert_contract_tradable offset i side now rollover =
     ebind (contract_state offset i now rollover) (\<lambda>state.
     if state = EXPIRED
       then Inl (ValueError (''contract_expired:'' @ contract_label i @ '':settled_reconcile_do_not_trade''))
     else if state = ROLLOVER \<and> side = BUY
       then Inl (ValueError (''contract_in_rollover:'' @ contract_label i @ '':roll_or_close_no_new_risk''))
     else Inr state)"

text \<open>\<open>x % y != 0\<close> of decimals: the remainder is exact, and the operation fails when the divisor is
  zero or the integer quotient has more digits than the context.\<close>

definition drem_nonzero :: "dec \<Rightarrow> dec \<Rightarrow> bool res" where
  "drem_nonzero x y =
     (let m = low_exp x y; a = \<bar>scaled m x\<bar>; b = \<bar>scaled m y\<bar>
      in if b = 0 then Inl (ArithmeticError ''InvalidOperation'')
         else if prec < ndigits (nat (a div b)) then Inl (ArithmeticError ''DivisionImpossible'')
         else Inr (a mod b \<noteq> 0))"

definition assert_order_fits_contract :: "Instrument \<Rightarrow> int \<Rightarrow> dec \<Rightarrow> unit res" where
  "assert_order_fits_contract i quantity price =
     (if quantity \<le> 0 then Inl (ValueError (''contract_quantity_must_be_positive:'' @ in_symbol i))
      else if lot_size i \<noteq> None \<and> quantity mod the (lot_size i) \<noteq> 0
        then Inl (ValueError (''contract_quantity_not_whole_lots:'' @ in_symbol i @ '':quantity='' @ show_int quantity
               @ '':lot_size='' @ show_int (the (lot_size i))))
      else if dle price dzero then Inl (ValueError (''contract_price_must_be_positive:'' @ in_symbol i))
      else case tick_size i of
        None \<Rightarrow> Inr ()
      | Some tick \<Rightarrow>
          ebind (drem_nonzero price tick) (\<lambda>off.
          if off then Inl (ValueError (''contract_price_off_tick:'' @ in_symbol i @ '':price='' @ dec_str price
                 @ '':tick_size='' @ dec_str tick))
          else Inr ()))"

subsection \<open>Facts\<close>

text \<open>The remainder test is divisibility of the exact values.\<close>

lemma drem_nonzero_dval:
  assumes "drem_nonzero x y = Inr off"
  shows "\<not> off \<longleftrightarrow> (\<exists>k::int. dval x = of_int k * dval y)"
proof -
  define m where "m = low_exp x y"
  have m: "m \<le> dexp x" "m \<le> dexp y" by (simp_all add: m_def low_exp_def)
  have off: "\<not> off \<longleftrightarrow> scaled m y dvd scaled m x"
    using assms by (auto simp: drem_nonzero_def Let_def m_def [symmetric] mod_eq_0_iff_dvd split: if_splits)
  also have "\<dots> \<longleftrightarrow> (\<exists>k. scaled m x = k * scaled m y)" by (auto simp: dvd_def mult.commute)
  also have "\<dots> \<longleftrightarrow> (\<exists>k::int. dval x = of_int k * dval y)"
  proof -
    have "scaled m x = k * scaled m y \<longleftrightarrow> dval x = of_int k * dval y" for k
    proof -
      have "dval x = of_int k * dval y \<longleftrightarrow> (of_int (scaled m x) :: rat) = of_int (k * scaled m y)"
        by (simp add: dval_scaled [OF m(1)] dval_scaled [OF m(2)])
      then show ?thesis by (simp only: of_int_eq_iff)
    qed
    then show ?thesis by simp
  qed
  finally show ?thesis .
qed

text \<open>An accepted order is whole lots at a positive price on the tick.\<close>

lemma order_fits_Inr:
  assumes "assert_order_fits_contract i quantity price = Inr u"
  shows "0 < quantity" "0 < dval price" "lot_size i = Some l \<Longrightarrow> l dvd quantity"
    "tick_size i = Some tick \<Longrightarrow> \<exists>k::int. dval price = of_int k * dval tick"
proof -
  show "0 < quantity" "0 < dval price" "lot_size i = Some l \<Longrightarrow> l dvd quantity"
    using assms by (auto simp: assert_order_fits_contract_def dle_dval dvd_eq_mod_eq_0 split: if_splits option.splits)
  show "tick_size i = Some tick \<Longrightarrow> \<exists>k::int. dval price = of_int k * dval tick"
  proof -
    assume "tick_size i = Some tick"
    with assms have "drem_nonzero price tick = Inr False"
      by (auto simp: assert_order_fits_contract_def res_simps split: if_splits)
    then show ?thesis using drem_nonzero_dval by blast
  qed
qed

text \<open>Exits pass in every state but expiry, and a purchase only well before it.\<close>

lemma contract_tradable_Inr:
  assumes "assert_contract_tradable offset i side now rollover = Inr state"
  shows "state \<noteq> EXPIRED" "side = BUY \<Longrightarrow> state = LIVE"
    "expiry i = Some e \<Longrightarrow> \<exists>today. local_date offset now i = Inr today \<and> today \<le> int e
       \<and> (side = BUY \<longrightarrow> today < int e - rollover)"
  using assms
  by (cases state; auto simp: assert_contract_tradable_def contract_state_def res_simps split: if_splits option.splits)+

end
