(* ===== verification/Capital.thy ===== *)
theory Capital
  imports DecText Domain
begin

text \<open>
  \<^verbatim>\<open>src/quant_ai/planning/capital.py\<close> and \<^verbatim>\<open>src/quant_ai/portfolio/sizing.py\<close>: the capital goal
  engine, which turns a request into a plan of risk fractions and amounts, and the sizing of an
  entry from a plan. Quantities are rounded towards zero.
\<close>

datatype RiskMode = CONSERVATIVE | BALANCED | AGGRESSIVE

definition mode_value :: "RiskMode \<Rightarrow> string" where
  "mode_value m = (case m of CONSERVATIVE \<Rightarrow> ''CONSERVATIVE'' | BALANCED \<Rightarrow> ''BALANCED'' | AGGRESSIVE \<Rightarrow> ''AGGRESSIVE'')"

text \<open>\<open>by_mode c b a m\<close>: the entry of a per-mode table.\<close>

definition by_mode :: "dec \<Rightarrow> dec \<Rightarrow> dec \<Rightarrow> RiskMode \<Rightarrow> dec" where
  "by_mode c b a m = (case m of CONSERVATIVE \<Rightarrow> c | BALANCED \<Rightarrow> b | AGGRESSIVE \<Rightarrow> a)"

subsection \<open>Data\<close>

record goal_band =
  gb_floor :: dec
  gb_target :: dec
  gb_stretch :: dec
  gb_mandatory :: bool

record plan_request =
  rq_capital :: dec
  rq_confidence :: dec
  rq_volatility :: dec
  rq_edge :: dec
  rq_drawdown :: dec
  rq_liquidity :: dec
  rq_mode :: "RiskMode option"

definition new_plan_request :: "plan_request \<Rightarrow> plan_request res" where
  "new_plan_request r =
     (if dle (rq_capital r) dzero then Inl (ValueError ''starting_capital must be positive'')
      else if dlt (rq_confidence r) dzero then Inl (ValueError ''confidence must be non-negative'')
      else if dlt (rq_volatility r) dzero then Inl (ValueError ''annualized_volatility must be non-negative'')
      else if dlt (rq_drawdown r) dzero then Inl (ValueError ''current_drawdown must be non-negative'')
      else if dlt (rq_liquidity r) dzero then Inl (ValueError ''liquidity_score must be non-negative'')
      else if dlt (dec_of_int 1) (rq_confidence r) \<or> dlt (dec_of_int 1) (rq_liquidity r)
        then Inl (ValueError ''confidence and liquidity_score must be <= 1'')
      else Inr r)"

record capital_plan =
  cp_capital :: dec
  cp_mode :: RiskMode
  cp_risk_fraction :: dec
  cp_risk_amount :: dec
  cp_daily_loss :: dec
  cp_daily_loss_amount :: dec
  cp_drawdown :: dec
  cp_drawdown_amount :: dec
  cp_position :: dec
  cp_position_amount :: dec
  cp_country :: dec
  cp_gross :: dec
  cp_cash_reserve :: dec
  cp_stop_loss :: dec
  cp_take_profit :: dec
  cp_reward_risk :: dec
  cp_daily_goal :: goal_band
  cp_weekly_goal :: goal_band
  cp_monthly_goal :: goal_band
  cp_yearly_goal :: goal_band
  cp_trading_allowed :: bool
  cp_rationale :: "string list"

subsection \<open>The engine\<close>

definition mode_risk :: "RiskMode \<Rightarrow> dec" where
  "mode_risk = by_mode (Fin False 25 (-4)) (Fin False 5 (-3)) (Fin False 1 (-2))"

definition mode_daily_loss :: "RiskMode \<Rightarrow> dec" where
  "mode_daily_loss = by_mode (Fin False 75 (-4)) (Fin False 125 (-4)) (Fin False 2 (-2))"

definition mode_drawdown :: "RiskMode \<Rightarrow> dec" where
  "mode_drawdown = by_mode (Fin False 6 (-2)) (Fin False 10 (-2)) (Fin False 15 (-2))"

definition mode_position :: "RiskMode \<Rightarrow> dec" where
  "mode_position = by_mode (Fin False 5 (-2)) (Fin False 10 (-2)) (Fin False 12 (-2))"

definition mode_country :: "RiskMode \<Rightarrow> dec" where
  "mode_country = by_mode (Fin False 35 (-2)) (Fin False 50 (-2)) (Fin False 60 (-2))"

definition mode_gross :: "RiskMode \<Rightarrow> dec" where
  "mode_gross = by_mode (Fin False 35 (-2)) (Fin False 60 (-2)) (Fin False 75 (-2))"

definition mode_cash :: "RiskMode \<Rightarrow> dec" where
  "mode_cash = by_mode (Fin False 30 (-2)) (Fin False 20 (-2)) (Fin False 10 (-2))"

definition mode_reward_risk :: "RiskMode \<Rightarrow> dec" where
  "mode_reward_risk = by_mode (Fin False 175 (-2)) (Fin False 20 (-1)) (Fin False 225 (-2))"

definition recommend_mode :: "plan_request \<Rightarrow> RiskMode" where
  "recommend_mode r =
     (if dlt (rq_confidence r) (Fin False 60 (-2)) \<or> dle (Fin False 40 (-2)) (rq_volatility r)
         \<or> dle (Fin False 6 (-2)) (rq_drawdown r) \<or> dlt (rq_liquidity r) (Fin False 70 (-2))
      then CONSERVATIVE
      else if dle (Fin False 80 (-2)) (rq_confidence r) \<and> dle (rq_volatility r) (Fin False 22 (-2))
         \<and> dlt (rq_drawdown r) (Fin False 2 (-2)) \<and> dle (Fin False 90 (-2)) (rq_liquidity r)
         \<and> dle (Fin False 1 (-2)) (rq_edge r)
      then AGGRESSIVE
      else BALANCED)"

text \<open>\<open>Decimal(252).sqrt()\<close> at the context precision; \<open>root_252_rounded\<close> below states that it is
  the correctly rounded root.\<close>

definition root_252 :: dec where
  "root_252 = Fin False 1587450786638754354300969452 (-26)"

definition adaptive_stop_fraction :: "plan_request \<Rightarrow> RiskMode \<Rightarrow> dec res" where
  "adaptive_stop_fraction r m =
     ebind (ddiv (rq_volatility r) root_252) (\<lambda>daily_vol.
     let raw = dmul daily_vol (by_mode (Fin False 125 (-2)) (Fin False 150 (-2)) (Fin False 175 (-2)) m)
     in Inr (dmin (Fin False 5 (-2)) (dmax (Fin False 6 (-3)) raw)))"

definition annual_target :: "plan_request \<Rightarrow> RiskMode \<Rightarrow> dec" where
  "annual_target r m =
     (let base = by_mode (Fin False 8 (-2)) (Fin False 14 (-2)) (Fin False 22 (-2)) m;
          confidence_adjustment = dmul (dsub (rq_confidence r) (Fin False 55 (-2))) (Fin False 20 (-2));
          edge_adjustment = dmin (Fin False 8 (-2)) (dmax (Fin True 4 (-2)) (dmul (rq_edge r) (dec_of_int 2)));
          volatility_cap = dmin (Fin False 35 (-2)) (dmul (rq_volatility r) (Fin False 80 (-2)))
      in dmax dzero (dmin (dadd (dadd base confidence_adjustment) edge_adjustment) volatility_cap))"

definition band :: "dec \<Rightarrow> goal_band" where
  "band target = \<lparr>gb_floor = dmul target (Fin False 60 (-2)), gb_target = target,
     gb_stretch = dmul target (Fin False 140 (-2)), gb_mandatory = False\<rparr>"

definition zero_band :: goal_band where
  "zero_band = \<lparr>gb_floor = dzero, gb_target = dzero, gb_stretch = dzero, gb_mandatory = False\<rparr>"

text \<open>Daily, weekly, monthly and yearly goals.\<close>

definition goal_bands :: "dec \<Rightarrow> (goal_band \<times> goal_band \<times> goal_band \<times> goal_band) res" where
  "goal_bands annual =
     (if dle annual dzero then Inr (zero_band, zero_band, zero_band, zero_band)
      else
      ebind (ddiv annual (dec_of_int 252)) (\<lambda>daily.
      ebind (ddiv annual (dec_of_int 52)) (\<lambda>weekly.
      ebind (ddiv annual (dec_of_int 12)) (\<lambda>monthly.
      Inr (band daily, band weekly, band monthly, band annual)))))"

definition plan_rationale :: "plan_request \<Rightarrow> RiskMode \<Rightarrow> bool \<Rightarrow> dec \<Rightarrow> string list" where
  "plan_rationale r m allowed stop =
     [''recommended_mode='' @ mode_value m, ''confidence='' @ dec_str (rq_confidence r),
      ''annualized_volatility='' @ dec_str (rq_volatility r), ''liquidity_score='' @ dec_str (rq_liquidity r),
      ''adaptive_stop_fraction='' @ dec_str stop]
     @ (if allowed then [] else [''capital_preservation_mode:no_trade_until_quality_recovers''])"

definition plan_trading_allowed :: "plan_request \<Rightarrow> RiskMode \<Rightarrow> bool" where
  "plan_trading_allowed r m \<longleftrightarrow> dle (Fin False 55 (-2)) (rq_confidence r) \<and> dle (Fin False 50 (-2)) (rq_liquidity r)
     \<and> dlt (rq_drawdown r) (mode_drawdown m)"

definition recommend :: "plan_request \<Rightarrow> capital_plan res" where
  "recommend r =
     (let m = (case rq_mode r of None \<Rightarrow> recommend_mode r | Some m \<Rightarrow> m) in
      ebind (adaptive_stop_fraction r m) (\<lambda>stop.
      let allowed = plan_trading_allowed r m;
          annual = (if allowed then annual_target r m else dzero);
          capital = rq_capital r in
      ebind (goal_bands annual) (\<lambda>(daily, weekly, monthly, yearly).
      Inr \<lparr>cp_capital = capital, cp_mode = m,
        cp_risk_fraction = mode_risk m, cp_risk_amount = dmul capital (mode_risk m),
        cp_daily_loss = mode_daily_loss m, cp_daily_loss_amount = dmul capital (mode_daily_loss m),
        cp_drawdown = mode_drawdown m, cp_drawdown_amount = dmul capital (mode_drawdown m),
        cp_position = mode_position m, cp_position_amount = dmul capital (mode_position m),
        cp_country = mode_country m, cp_gross = mode_gross m, cp_cash_reserve = mode_cash m,
        cp_stop_loss = stop, cp_take_profit = dmul stop (mode_reward_risk m), cp_reward_risk = mode_reward_risk m,
        cp_daily_goal = daily, cp_weekly_goal = weekly, cp_monthly_goal = monthly, cp_yearly_goal = yearly,
        cp_trading_allowed = allowed, cp_rationale = plan_rationale r m allowed stop\<rparr>)))"

subsection \<open>Sizing\<close>

text \<open>\<open>int(x.to_integral_value(ROUND_DOWN))\<close>.\<close>

definition dtrunc :: "dec \<Rightarrow> int" where
  "dtrunc x = (if dsign x then - dfloor (Fin False (dcoef x) (dexp x)) else dfloor x)"

definition whole :: "dec \<Rightarrow> dec \<Rightarrow> int res" where
  "whole x y = ebind (ddiv x y) (\<lambda>q. Inr (dtrunc q))"

definition quantity_for_price :: "capital_plan \<Rightarrow> dec \<Rightarrow> int res" where
  "quantity_for_price p price =
     (if dle price dzero \<or> dle (cp_stop_loss p) dzero then Inr 0
      else
      ebind (whole (cp_risk_amount p) (dmul price (cp_stop_loss p))) (\<lambda>by_risk.
      ebind (whole (cp_position_amount p) price) (\<lambda>by_notional.
      Inr (max 0 (min by_risk by_notional)))))"

record sizing_policy =
  sz_conservative :: dec
  sz_balanced :: dec
  sz_aggressive :: dec
  sz_position :: dec
  sz_trade :: dec

definition default_sizing :: sizing_policy where
  "default_sizing = \<lparr>sz_conservative = Fin False 25 (-4), sz_balanced = Fin False 5 (-3),
     sz_aggressive = Fin False 1 (-2), sz_position = Fin False 10 (-2), sz_trade = Fin False 5 (-2)\<rparr>"

definition sizing_risk_fraction :: "sizing_policy \<Rightarrow> RiskMode \<Rightarrow> dec" where
  "sizing_risk_fraction p = by_mode (sz_conservative p) (sz_balanced p) (sz_aggressive p)"

text \<open>\<open>PositionSizer.quantity\<close>, over the opportunity's stop distance and the portfolio's equity.\<close>

definition sized_quantity :: "sizing_policy \<Rightarrow> dec \<Rightarrow> dec \<Rightarrow> dec \<Rightarrow> RiskMode \<Rightarrow> int res" where
  "sized_quantity p stop_distance equity price m =
     (if dle price dzero \<or> dle equity dzero \<or> dle stop_distance dzero then Inr 0
      else
      ebind (whole (dmul equity (sizing_risk_fraction p m)) (dmul price stop_distance)) (\<lambda>by_risk.
      ebind (whole (dmul equity (sz_position p)) price) (\<lambda>by_notional.
      Inr (max 0 (min by_risk by_notional)))))"

text \<open>\<open>worst_entry_price or price\<close>: an entry price of zero counts as none.\<close>

definition effective_entry :: "dec \<Rightarrow> dec option \<Rightarrow> dec" where
  "effective_entry price worst =
     dmax price (case worst of None \<Rightarrow> price | Some w \<Rightarrow> if dcoef w = 0 then price else w)"

definition per_unit_risk :: "capital_plan \<Rightarrow> dec \<Rightarrow> dec option \<Rightarrow> dec" where
  "per_unit_risk plan price worst =
     dsub (effective_entry price worst) (dmul price (dsub (dec_of_int 1) (cp_stop_loss plan)))"

definition deployable :: "capital_plan \<Rightarrow> dec \<Rightarrow> dec \<Rightarrow> dec" where
  "deployable plan equity gross = dmax dzero (dsub (dmul equity (dsub (dec_of_int 1) (cp_cash_reserve plan))) gross)"

definition quantity_from_plan :: "sizing_policy \<Rightarrow> capital_plan \<Rightarrow> dec \<Rightarrow> dec \<Rightarrow> dec \<Rightarrow> dec option \<Rightarrow> int res" where
  "quantity_from_plan p plan equity gross price worst =
     (if dle price dzero \<or> dle equity dzero \<or> dle (cp_stop_loss plan) dzero then Inr 0
      else
      let entry = effective_entry price worst; unit_risk = per_unit_risk plan price worst in
      if dle unit_risk dzero then Inr 0
      else
      ebind (whole (dmul equity (cp_risk_fraction plan)) unit_risk) (\<lambda>by_risk.
      ebind (whole (dmul equity (cp_position plan)) entry) (\<lambda>by_position.
      ebind (whole (dmul equity (sz_trade p)) entry) (\<lambda>by_trade.
      ebind (whole (deployable plan equity gross) entry) (\<lambda>by_capital.
      Inr (max 0 (min (min (min by_risk by_position) by_trade) by_capital)))))))"

end
