(* ===== verification/Warden.thy ===== *)
theory Warden
  imports Risk Contract Capital
begin

text \<open>
  \<^verbatim>\<open>src/quant_ai/risk/warden.py\<close> and \<^verbatim>\<open>src/quant_ai/risk/overnight.py\<close>: the interceptor every trade
  proposal passes, and the overnight limits it asks last. The session calendar is the field
  \<open>of_session\<close> of the overnight firewall, the margin source read from the environment is the
  argument \<open>src\<close>; logging is not modelled, the alerts of the dispatcher are returned.
\<close>

subsection \<open>Overnight limits\<close>

record overnight_policy =
  op_gross :: dec
  op_window :: int
  op_refuse_outside :: bool

definition new_overnight_policy :: "overnight_policy \<Rightarrow> overnight_policy res" where
  "new_overnight_policy p =
     (if \<not> (dlt dzero (op_gross p) \<and> dle (op_gross p) (dec_of_int 1))
        then Inl (ValueError ''max_overnight_gross must be in (0, 1]'')
      else if op_window p < 0 then Inl (ValueError ''closing_window cannot be negative'')
      else Inr p)"

text \<open>What the calendar says of a market, a symbol and an instant: whether the regular session is
  open, and how many microseconds of the venue's clock remain to the close of that day.\<close>

record session_view =
  sv_regular :: bool
  sv_to_close :: int

record overnight_firewall =
  of_policy :: overnight_policy
  of_session :: "(Market \<Rightarrow> string \<Rightarrow> instant \<Rightarrow> session_view res) option"

text \<open>\<open>close - window <= local < close\<close>\<close>

definition within_closing_window :: "overnight_policy \<Rightarrow> session_view \<Rightarrow> bool" where
  "within_closing_window p v \<longleftrightarrow> 0 < op_window p \<and> 0 < sv_to_close v \<and> sv_to_close v \<le> op_window p"

definition overnight_verdict ::
    "overnight_policy \<Rightarrow> (Market \<Rightarrow> string \<Rightarrow> instant \<Rightarrow> session_view res) \<Rightarrow> OrderIntent \<Rightarrow> portfolio_snapshot
      \<Rightarrow> datetime option \<Rightarrow> risk_decision res" where
  "overnight_verdict p session order ps now =
     (case now of
        Some (Aware t) \<Rightarrow>
          if dle (ps_equity ps) dzero then rejected ''overnight_risk_unavailable:invalid_equity''
          else if oi_market order = GLOBAL then rejected ''overnight_risk_unavailable:unknown_venue''
          else
          ebind (session (oi_market order) (oi_symbol order) t) (\<lambda>v.
          if \<not> sv_regular v \<and> op_refuse_outside p then rejected ''overnight_entry_outside_session''
          else if sv_regular v \<and> within_closing_window p v then rejected ''overnight_closing_window''
          else
          ebind (exposure_delta order ps (dmul (reference_price order) (dec_of_int (oi_quantity order)))
              (get_dec (ps_symbol_exposure ps) (oi_symbol order))) (\<lambda>(reducing, adding).
          if dlt (equity_share ps (op_gross p)) (projected_value (ps_gross ps) reducing adding)
            then rejected ''overnight_gross_limit''
          else approved ''approved_overnight_risk''))
      | _ \<Rightarrow> rejected ''overnight_risk_unavailable:no_timestamp'')"

definition overnight_attempt :: "overnight_firewall \<Rightarrow> OrderIntent \<Rightarrow> portfolio_snapshot \<Rightarrow> datetime option \<Rightarrow> risk_decision res" where
  "overnight_attempt f order ps now =
     (case of_session f of
        None \<Rightarrow> approved ''overnight_risk_not_armed''
      | Some session \<Rightarrow> overnight_verdict (of_policy f) session order ps now)"

definition overnight_evaluate :: "overnight_firewall \<Rightarrow> OrderIntent \<Rightarrow> portfolio_snapshot \<Rightarrow> datetime option \<Rightarrow> risk_decision" where
  "overnight_evaluate f order ps now =
     (case overnight_attempt f order ps now of
        Inr d \<Rightarrow> d
      | Inl e \<Rightarrow> \<lparr>rd_approved = False, rd_reason = ''overnight_risk_unavailable:'' @ exn_name e\<rparr>)"

interpretation overnight_gate: fail_closed "\<lambda>(f, order, ps, now). overnight_attempt f order ps now"
    "\<lambda>(f, order, ps, now). overnight_evaluate f order ps now" rd_approved
  by unfold_locales (auto simp: overnight_evaluate_def)

subsection \<open>Proposals and the warden\<close>

record trade_proposal =
  tp_decision_id :: string
  tp_symbol :: string
  tp_market :: Market
  tp_country :: string
  tp_asset_class :: AssetClass
  tp_side :: "Side option"
  tp_quantity :: int
  tp_price :: dec
  tp_stop :: "dec option"
  tp_target :: "dec option"
  tp_confidence :: dec
  tp_expected_return :: dec
  tp_expected_risk :: dec
  tp_rationale :: "string list"
  tp_instrument :: "Instrument option"

record warden_decision =
  wd_approved :: bool
  wd_reason :: string
  wd_order :: "OrderIntent option"

record risk_alert =
  ra_message :: string
  ra_tenant :: string
  ra_metadata :: "(string \<times> string) list"

record warden =
  wa_blocked :: "AssetClass list"
  wa_book :: book_firewall
  wa_overnight :: overnight_firewall

text \<open>\<open>_reject\<close> dispatches one alert; an approval dispatches none.\<close>

definition warden_reject :: "string \<Rightarrow> trade_proposal \<Rightarrow> string \<Rightarrow> (warden_decision \<times> risk_alert list) res" where
  "warden_reject reason p tenant =
     Inr (\<lparr>wd_approved = False, wd_reason = reason, wd_order = None\<rparr>,
       [\<lparr>ra_message = ''Atlas trade proposal rejected: '' @ reason, ra_tenant = tenant,
         ra_metadata = [(''reason'', reason), (''decision_id'', tp_decision_id p), (''symbol'', tp_symbol p),
           (''country'', tp_country p)]\<rparr>])"

definition warden_approve :: "OrderIntent \<Rightarrow> (warden_decision \<times> risk_alert list) res" where
  "warden_approve order = Inr (\<lparr>wd_approved = True, wd_reason = ''approved'', wd_order = Some order\<rparr>, [])"

definition held_units :: "portfolio_snapshot \<Rightarrow> string \<Rightarrow> int" where
  "held_units ps s = (case map_of (ps_quantity ps) s of None \<Rightarrow> 0 | Some q \<Rightarrow> q)"

definition project_country_exposure :: "trade_proposal \<Rightarrow> portfolio_snapshot \<Rightarrow> dec \<Rightarrow> dec \<Rightarrow> dec res" where
  "project_country_exposure p ps current notional =
     (let held = held_units ps (tp_symbol p) in
      if tp_side p = Some BUY \<or> held \<le> 0 then Inr (dadd current notional)
      else
        let symbol_value = dmax dzero (get_dec (ps_symbol_exposure ps) (tp_symbol p));
            covered = min (tp_quantity p) held in
        ebind (ddiv (dmul symbol_value (dec_of_int covered)) (dec_of_int held)) (\<lambda>reducing.
        let adding = dmul (tp_price p) (dec_of_int (max 0 (tp_quantity p - covered)))
        in Inr (dadd (dmax dzero (dsub current reducing)) adding)))"

definition proposal_order :: "trade_proposal \<Rightarrow> Side \<Rightarrow> string \<Rightarrow> OrderIntent" where
  "proposal_order p side tenant =
     \<lparr>oi_symbol = tp_symbol p, oi_market = tp_market p, oi_side = side, oi_quantity = tp_quantity p,
      reference_price = tp_price p, strategy_id = ''atlas-cio'', oi_asset_class = tp_asset_class p,
      tenant_id = tenant, stop_price = tp_stop p, take_profit_price = tp_target p, oi_instrument = None\<rparr>"

definition exn_text :: "exn \<Rightarrow> string" where
  "exn_text e = (case e of ValueError s \<Rightarrow> s | TypeError s \<Rightarrow> s | KeyError s \<Rightarrow> s | RuntimeError s \<Rightarrow> s
     | ArithmeticError s \<Rightarrow> s | IntegrityError s \<Rightarrow> s)"

definition contract_fault :: "exn \<Rightarrow> bool" where
  "contract_fault e = (case e of TypeError _ \<Rightarrow> True | ValueError _ \<Rightarrow> True | ArithmeticError _ \<Rightarrow> True | _ \<Rightarrow> False)"

text \<open>The instrument-bound order and the two contract checks. \<open>zone\<close> is the offset of \<open>now\<close>'s own zone.\<close>

definition bind_contract :: "int \<Rightarrow> datetime \<Rightarrow> OrderIntent \<Rightarrow> Instrument \<Rightarrow> OrderIntent res" where
  "bind_contract zone now order i =
     ebind (new_bound_order (order\<lparr>oi_instrument := Some i\<rparr>)) (\<lambda>bound.
     case oi_instrument bound of
       None \<Rightarrow> Inl (TypeError ''NoneType'')
     | Some snapshot \<Rightarrow>
         ebind (assert_contract_tradable zone snapshot (oi_side bound) now 3) (\<lambda>_.
         ebind (assert_order_fits_contract snapshot (oi_quantity bound) (reference_price bound)) (\<lambda>_.
         Inr bound)))"

definition warden_policy :: "capital_plan \<Rightarrow> AssetClass list \<Rightarrow> risk_policy" where
  "warden_policy plan blocked =
     default_risk_policy
       \<lparr>rp_daily_loss := dmin (cp_daily_loss plan) (rp_daily_loss default_risk_policy),
        rp_drawdown := dmin (cp_drawdown plan) (rp_drawdown default_risk_policy),
        rp_single_trade := dmin (cp_position plan) (rp_single_trade default_risk_policy),
        rp_symbol := dmin (cp_position plan) (rp_symbol default_risk_policy),
        rp_asset_class := dmin (rp_asset_class default_risk_policy) (cp_gross plan),
        rp_gross := dmin (cp_gross plan) (rp_gross default_risk_policy),
        rp_require_stop := True, rp_blocked := blocked\<rparr>"

definition pure_de_risking :: "trade_proposal \<Rightarrow> portfolio_snapshot \<Rightarrow> bool" where
  "pure_de_risking p ps \<longleftrightarrow> tp_side p = Some SELL \<and> 0 < held_units ps (tp_symbol p) \<and> tp_quantity p \<le> held_units ps (tp_symbol p)"

text \<open>The firewalls, in order, over the order the proposal became.\<close>

definition firewall_chain ::
    "warden \<Rightarrow> margin_source option \<Rightarrow> trade_proposal \<Rightarrow> capital_plan \<Rightarrow> portfolio_snapshot \<Rightarrow> string
      \<Rightarrow> datetime \<Rightarrow> datetime option \<Rightarrow> OrderIntent \<Rightarrow> (warden_decision \<times> risk_alert list) res" where
  "firewall_chain w src p plan ps tenant clock now order =
     ebind (firewall_evaluate (warden_policy plan (wa_blocked w)) src order ps clock) (\<lambda>d.
     if \<not> rd_approved d then warden_reject (rd_reason d) p tenant
     else if rd_reason d = ''approved_risk_reducing'' \<or> pure_de_risking p ps then warden_approve order
     else
       let book = book_evaluate (wa_book w) order ps; night = overnight_evaluate (wa_overnight w) order ps now in
       if \<not> rd_approved book then warden_reject (rd_reason book) p tenant
       else if \<not> rd_approved night then warden_reject (rd_reason night) p tenant
       else warden_approve order)"

text \<open>\<open>RiskWarden.evaluate\<close>: \<open>now\<close> is the caller's instant, \<open>clock\<close> is \<open>now or datetime.now(utc)\<close>.\<close>

definition warden_evaluate ::
    "warden \<Rightarrow> margin_source option \<Rightarrow> int \<Rightarrow> trade_proposal \<Rightarrow> capital_plan \<Rightarrow> portfolio_snapshot
      \<Rightarrow> (string \<times> dec) list option \<Rightarrow> string \<Rightarrow> datetime option \<Rightarrow> datetime
      \<Rightarrow> (warden_decision \<times> risk_alert list) res" where
  "warden_evaluate w src zone p plan ps country tenant now clock =
     (case tp_side p of
        None \<Rightarrow> warden_reject ''atlas_non_actionable_proposal'' p tenant
      | Some side \<Rightarrow>
          if tp_quantity p \<le> 0 \<or> dle (tp_price p) dzero then warden_reject ''invalid_trade_proposal'' p tenant
          else if \<not> cp_trading_allowed plan \<and> \<not> pure_de_risking p ps then warden_reject ''capital_plan_halted'' p tenant
          else
          let notional = dmul (tp_price p) (dec_of_int (tp_quantity p));
              current = get_dec (case country of None \<Rightarrow> ps_country_exposure ps | Some m \<Rightarrow> m) (tp_country p) in
          ebind (project_country_exposure p ps current notional) (\<lambda>projected.
          if \<not> pure_de_risking p ps \<and> dlt (dmul (ps_equity ps) (cp_country plan)) projected
            then warden_reject ''country_allocation_limit'' p tenant
          else
          let order = proposal_order p side tenant in
          (case tp_instrument p of
             None \<Rightarrow> firewall_chain w src p plan ps tenant clock now order
           | Some i \<Rightarrow>
               (case bind_contract zone clock order i of
                  Inl e \<Rightarrow>
                    if contract_fault e then warden_reject (''proposal_contract_invalid:'' @ exn_text e) p tenant else Inl e
                | Inr bound \<Rightarrow> firewall_chain w src p plan ps tenant clock now bound))))"

end
