(* ===== verification/RiskProps.thy ===== *)
theory RiskProps
  imports Risk
begin

text \<open>
  What the firewalls guarantee: an exit is never refused, an order that adds exposure passes
  only inside every cap, and the book firewall refuses whatever it cannot measure.
\<close>

lemmas verdict_defs = rejected_def approved_def unavailable_because_def

lemma ddiv_defined: "dcoef y \<noteq> 0 \<Longrightarrow> \<exists>q. ddiv x y = Inr q"
  by (auto simp: ddiv_def Let_def split: prod.split)

lemma ddiv_zero: "0 < c \<Longrightarrow> ddiv (Fin s 0 e) (Fin s' c e') = Inr (Fin (s \<noteq> s') 0 (e - e'))"
  by (simp add: ddiv_def)

lemma dec_of_int_nonzero: "0 < i \<Longrightarrow> dcoef (dec_of_int i) \<noteq> 0"
  by (simp add: dec_of_int_def)

lemma dmul_zero: "deq (dmul x (dec_of_int 0)) dzero"
proof -
  have "dcoef (dmul x (dec_of_int 0)) = 0" by (simp add: dmul_def dfix_zero_iff dec_of_int_def)
  then show ?thesis by (simp add: deq_dval dval_zero_iff)
qed

text \<open>A sale of what is held unwinds exposure and adds none.\<close>

lemma covered_sale_adds_nothing:
  assumes "oi_side order = SELL" "0 < oi_quantity order"
    and "map_of (ps_quantity ps) (oi_symbol order) = Some held" "oi_quantity order \<le> held"
  shows "\<exists>reducing. exposure_delta order ps notional current
           = Inr (reducing, dmul (reference_price order) (dec_of_int 0))"
proof -
  have "0 < held" using assms(2,4) by simp
  from ddiv_defined [OF dec_of_int_nonzero [OF this]] obtain q where
    "ddiv (dmul (dmax current dzero) (dec_of_int (oi_quantity order))) (dec_of_int held) = Inr q" by blast
  with assms \<open>0 < held\<close> show ?thesis by (simp add: exposure_delta_def min_def)
qed

lemma cap_verdict_approved:
  assumes "cap_verdict p order ps reducing adding = Inr d" "rd_approved d"
  shows "dval adding \<le> dval (equity_share ps (rp_single_trade p))"
    "dval (projected_value (get_dec (ps_symbol_exposure ps) (oi_symbol order)) reducing adding)
       \<le> dval (equity_share ps (rp_symbol p))"
    "dval (projected_value (get_dec (ps_asset_exposure ps) (oi_asset_class order)) reducing adding)
       \<le> dval (equity_share ps (rp_asset_class p))"
    "dval (projected_value (ps_gross ps) reducing adding) \<le> dval (equity_share ps (rp_gross p))"
    "opt_all (stop_on_loss_side order) (stop_price order)"
    "opt_all (target_on_profit_side order) (take_profit_price order)"
  using assms unfolding cap_verdict_def verdict_defs
  by (auto simp: dlt_dval not_less split: if_splits)

lemma margin_refusal_None:
  assumes "margin_refusal src order ps now = Inr None"
  shows "\<exists>source required available. src = Some source
    \<and> margin_for_order source order (Some (if oi_side order = BUY then oi_quantity order else 0)) now = Inr required
    \<and> ps_margin ps = Some available \<and> dval required \<le> dval available"
  using assms unfolding margin_refusal_def Let_def
  by (auto simp: dlt_dval not_less split: if_splits option.splits sum.splits exn.splits)

lemma if_rejected: "(if b then rejected r else x) = Inr d \<Longrightarrow> rd_approved d \<Longrightarrow> \<not> b \<and> x = Inr d"
  by (auto simp: rejected_def split: if_splits)

text \<open>The inversion of an approval that adds exposure.\<close>

lemma firewall_approval:
  assumes run: "firewall_evaluate p src order ps now = Inr d" "rd_approved d"
    and delta: "exposure_delta order ps (dmul (reference_price order) (dec_of_int (oi_quantity order)))
      (get_dec (ps_symbol_exposure ps) (oi_symbol order)) = Inr (reducing, adding)" "\<not> deq adding dzero"
  shows "oi_asset_class order \<notin> set (rp_blocked p)" "rp_require_stop p \<Longrightarrow> stop_price order \<noteq> None"
    "drawdown_reached p ps = Inr False" "\<not> daily_loss_reached p ps"
    "dval (projected_value (ps_gross ps) reducing adding) \<le> dval (equity_share ps (rp_leverage p))"
    "oi_asset_class order \<in> set margined_futures \<Longrightarrow> margin_refusal src order ps now = Inr None"
    "cap_verdict p order ps reducing adding = Inr d"
proof -
  note guards = run(1) [unfolded firewall_evaluate_def Let_def]
  note body = guards [THEN if_rejected, OF run(2), THEN conjunct2, THEN if_rejected, OF run(2), THEN conjunct2,
    THEN if_rejected, OF run(2), THEN conjunct2, THEN if_rejected, OF run(2), THEN conjunct2]
  from body delta have halts: "(if oi_asset_class order \<in> set (rp_blocked p) then rejected ''asset_class_blocked''
      else if rp_require_stop p \<and> stop_price order = None then rejected ''protective_stop_required''
      else
      ebind (drawdown_reached p ps) (\<lambda>breached.
      if breached then rejected ''max_drawdown_reached''
      else if daily_loss_reached p ps then rejected ''daily_loss_limit_reached''
      else if dlt (equity_share ps (rp_leverage p)) (projected_value (ps_gross ps) reducing adding) then rejected ''leverage_limit''
      else
      ebind (if oi_asset_class order \<in> set margined_futures then margin_refusal src order ps now else Inr None) (\<lambda>refusal.
      case refusal of
        Some reason \<Rightarrow> rejected reason
      | None \<Rightarrow> cap_verdict p order ps reducing adding))) = Inr d"
    by simp
  note blocked = if_rejected [OF halts run(2)]
  then show "oi_asset_class order \<notin> set (rp_blocked p)" by blast
  note stop = if_rejected [OF blocked [THEN conjunct2] run(2)]
  show "rp_require_stop p \<Longrightarrow> stop_price order \<noteq> None" using stop [THEN conjunct1] by simp
  from stop obtain breached where b: "drawdown_reached p ps = Inr breached"
    and rest: "(if breached then rejected ''max_drawdown_reached''
      else if daily_loss_reached p ps then rejected ''daily_loss_limit_reached''
      else if dlt (equity_share ps (rp_leverage p)) (projected_value (ps_gross ps) reducing adding) then rejected ''leverage_limit''
      else
      ebind (if oi_asset_class order \<in> set margined_futures then margin_refusal src order ps now else Inr None) (\<lambda>refusal.
      case refusal of
        Some reason \<Rightarrow> rejected reason
      | None \<Rightarrow> cap_verdict p order ps reducing adding)) = Inr d"
    by (auto simp only: ebind_eq_Inr)
  note r1 = if_rejected [OF rest run(2)]
  note r2 = if_rejected [OF r1 [THEN conjunct2] run(2)]
  note r3 = if_rejected [OF r2 [THEN conjunct2] run(2)]
  from b r1 show "drawdown_reached p ps = Inr False" by simp
  from r2 show "\<not> daily_loss_reached p ps" by blast
  from r3 show "dval (projected_value (ps_gross ps) reducing adding) \<le> dval (equity_share ps (rp_leverage p))"
    by (simp add: dlt_dval not_less)
  from r3 obtain refusal where
    m: "(if oi_asset_class order \<in> set margined_futures then margin_refusal src order ps now else Inr None) = Inr refusal"
    and c: "(case refusal of Some reason \<Rightarrow> rejected reason | None \<Rightarrow> cap_verdict p order ps reducing adding) = Inr d"
    by (auto simp only: ebind_eq_Inr)
  from c run(2) have "refusal = None" by (cases refusal) (auto simp: rejected_def)
  with m c show "oi_asset_class order \<in> set margined_futures \<Longrightarrow> margin_refusal src order ps now = Inr None"
    "cap_verdict p order ps reducing adding = Inr d" by simp_all
qed

subsection \<open>Group totals\<close>

lemma get_dec_update: "get_dec (AList.update k v m) j = (if j = k then v else get_dec m j)"
  by (simp add: get_dec_def update_conv')

definition in_group :: "book_firewall \<Rightarrow> string \<Rightarrow> string \<times> dec \<Rightarrow> bool" where
  "in_group bf g e \<longleftrightarrow> sector_of bf (fst e) = Some g \<and> dlt dzero (snd e)"

lemma in_group_pair: "in_group bf g (s, v) \<longleftrightarrow> sector_of bf s = Some g \<and> \<not> dle v dzero"
  by (auto simp: in_group_def dlt_dval dle_dval not_le)

lemma group_totals_fold:
  "get_dec (group_totals bf acc es) g = foldl dadd (get_dec acc g) (map snd (filter (in_group bf g) es))"
proof (induction bf acc es rule: group_totals.induct)
  case (2 bf acc s v rest)
  then show ?case
    by (cases "sector_of bf s") (auto simp: in_group_pair get_dec_update)
qed simp

lemma group_totals_dom:
  "g \<in> fst ` set acc \<or> (\<exists>e\<in>set es. in_group bf g e) \<Longrightarrow> g \<in> fst ` set (group_totals bf acc es)"
proof (induction bf acc es rule: group_totals.induct)
  case (2 bf acc s v rest)
  show ?case
    by (rule group_totals.simps(2) [THEN arg_cong [of _ _ "\<lambda>t. g \<in> fst ` set t"], THEN iffD2], rule "2.IH")
      (use "2.prems" in \<open>auto simp: in_group_pair dom_update split: option.split\<close>)
qed simp

lemma set_insert_text: "set (insert_text s ts) = insert s (set ts)"
  by (induction s ts rule: insert_text.induct) auto

lemma set_sort_text: "set (sort_text xs) = set xs"
  unfolding sort_text_def by (induction xs) (simp_all add: set_insert_text)

lemma group_breach_None:
  assumes "group_breach bf projected equity = None" "bf_sectors bf \<noteq> []"
    and "0 \<le> dval (dmul equity (bp_sector (bf_policy bf)))"
  shows "dval (dsum (map snd (filter (in_group bf g) projected))) \<le> dval (dmul equity (bp_sector (bf_policy bf)))"
proof (cases "\<exists>e\<in>set projected. in_group bf g e")
  case True
  then have "g \<in> set (sort_text (map fst (group_totals bf [] projected)))"
    using group_totals_dom [of g "[]" projected bf] by (simp add: set_sort_text)
  with assms(1,2) have "\<not> dlt (dmul equity (bp_sector (bf_policy bf))) (get_dec (group_totals bf [] projected) g)"
    by (auto simp: group_breach_def Let_def find_None_iff)
  then have "dval (get_dec (group_totals bf [] projected) g) \<le> dval (dmul equity (bp_sector (bf_policy bf)))"
    by (simp add: dlt_dval not_less)
  moreover have "get_dec [] g = dzero" by (simp add: get_dec_def)
  ultimately show ?thesis
    by (simp only: group_totals_fold dsum_def)
next
  case False
  then have "filter (in_group bf g) projected = []" by (simp add: filter_empty_conv)
  then show ?thesis using assms(3) by (simp add: dsum_def)
qed

text \<open>The inversion of an approval of an armed book firewall.\<close>

lemma book_approval:
  assumes "rd_approved (book_evaluate bf order ps)" "projected_exposure order ps = Inr projected"
    and "bf_sectors bf \<noteq> [] \<or> bf_measure bf \<noteq> None"
  shows "0 < dval (ps_equity ps)" "group_breach bf projected (ps_equity ps) = None"
    "\<And>history. bf_measure bf = Some history \<Longrightarrow> filter (\<lambda>(s, v). dlt dzero v) projected \<noteq> [] \<Longrightarrow>
      \<exists>m d. history (bf_policy bf)
          (map (\<lambda>s. (s, get_dec projected s)) (sort_text (map fst (filter (\<lambda>(s, v). dlt dzero v) projected))))
          (ps_equity ps) = Inr m \<and> history_verdict (bf_policy bf) m = Inr d \<and> rd_approved d"
proof -
  have v: "\<exists>d. book_verdict bf order ps = Inr d \<and> rd_approved d"
    using assms(1,3) book_gate.passed_iff [of "(bf, order, ps)"] unfolding book_attempt_def verdict_defs
    by (auto split: option.splits if_splits)
  then obtain d where d: "book_verdict bf order ps = Inr d" "rd_approved d" by blast
  show "0 < dval (ps_equity ps)"
    using d by (auto simp: book_verdict_def verdict_defs dle_dval not_le split: if_splits)
  show "group_breach bf projected (ps_equity ps) = None"
    using d assms(2) by (auto simp: book_verdict_def Let_def verdict_defs split: if_splits option.splits)
  show "\<exists>m d. history (bf_policy bf)
          (map (\<lambda>s. (s, get_dec projected s)) (sort_text (map fst (filter (\<lambda>(s, v). dlt dzero v) projected))))
          (ps_equity ps) = Inr m \<and> history_verdict (bf_policy bf) m = Inr d \<and> rd_approved d"
    if "bf_measure bf = Some history" "filter (\<lambda>(s, v). dlt dzero v) projected \<noteq> []" for history
    using d assms(2) that unfolding book_verdict_def Let_def verdict_defs
    by (auto simp: res_simps split: if_splits option.splits)
qed

lemma history_verdict_approved:
  assumes "history_verdict p m = Inr d" "rd_approved d"
  shows "\<exists>adj loss r. m = Measured (Some adj) (Some loss) r
    \<and> dval adj \<le> dval (bp_adjusted_gross p) \<and> dval loss \<le> dval (bp_shortfall p)"
  using assms unfolding history_verdict_def verdict_defs
  by (auto simp: dlt_dval not_less split: book_measure.splits option.splits if_splits)

subsection \<open>Properties\<close>

definition sample_order :: "Side \<Rightarrow> int \<Rightarrow> OrderIntent" where
  "sample_order side q =
     \<lparr>oi_symbol = ''INFY'', oi_market = INDIA, oi_side = side, oi_quantity = q, reference_price = Fin False 100 0,
      strategy_id = ''atlas-cio'', oi_asset_class = EQUITY, tenant_id = ''t'', stop_price = Some (Fin False 98 0),
      take_profit_price = Some (Fin False 104 0), oi_instrument = None\<rparr>"

definition sample_portfolio :: "int \<Rightarrow> portfolio_snapshot" where
  "sample_portfolio held =
     \<lparr>ps_equity = Fin False 100000 0, ps_realized = Fin True 90000 0, ps_gross = Fin False 5000 0,
      ps_peak = Some (Fin False 900000 0), ps_symbol_exposure = [(''INFY'', Fin False 5000 0)],
      ps_asset_exposure = [(EQUITY, Fin False 5000 0)], ps_quantity = [(''INFY'', held)], ps_daily_total = dzero,
      ps_country_exposure = [], ps_margin = None\<rparr>"

definition calm_portfolio :: "int \<Rightarrow> portfolio_snapshot" where
  "calm_portfolio held = (sample_portfolio held)\<lparr>ps_realized := dzero, ps_peak := None\<rparr>"

lemma sample_delta:
  "exposure_delta (sample_order BUY 40) (calm_portfolio 50)
      (dmul (reference_price (sample_order BUY 40)) (dec_of_int (oi_quantity (sample_order BUY 40))))
      (get_dec (ps_symbol_exposure (calm_portfolio 50)) (oi_symbol (sample_order BUY 40))) = Inr (dzero, Fin False 4000 0)"
  by (simp add: sample_order_def exposure_delta_def dec_evals)

lemma covered_sale_approved:
  assumes "oi_side order = SELL" "0 < oi_quantity order" "dlt dzero (reference_price order)" "dlt dzero (ps_equity ps)"
    and "opt_all (dlt dzero) (stop_price order)" "opt_all (dlt dzero) (take_profit_price order)"
    and "map_of (ps_quantity ps) (oi_symbol order) = Some held" "oi_quantity order \<le> held"
  shows "firewall_evaluate p src order ps now = Inr \<lparr>rd_approved = True, rd_reason = ''approved_risk_reducing''\<rparr>"
proof -
  obtain reducing where "exposure_delta order ps (dmul (reference_price order) (dec_of_int (oi_quantity order)))
      (get_dec (ps_symbol_exposure ps) (oi_symbol order)) = Inr (reducing, dmul (reference_price order) (dec_of_int 0))"
    using covered_sale_adds_nothing [OF assms(1,2,7,8)] by blast
  moreover have "\<not> dle (reference_price order) dzero" "\<not> dle (ps_equity ps) dzero"
    using assms(3,4) by (simp_all add: dlt_dval dle_dval)
  ultimately show ?thesis
    using assms(2,5,6) by (simp add: firewall_evaluate_def Let_def dmul_zero approved_def)
qed

text \<open>C33: an exit is never trapped. A sale of at most the held quantity, with positive prices and
  equity, is approved as risk-reducing under every policy, whatever losses, drawdown, blocked asset
  classes, exposures or margin evidence there are.\<close>

theorem exit_never_trapped:
  assumes "oi_side order = SELL" "0 < oi_quantity order" "dlt dzero (reference_price order)" "dlt dzero (ps_equity ps)"
    and "opt_all (dlt dzero) (stop_price order)" "opt_all (dlt dzero) (take_profit_price order)"
    and "map_of (ps_quantity ps) (oi_symbol order) = Some held" "oi_quantity order \<le> held"
  shows "firewall_evaluate p src order ps now = Inr \<lparr>rd_approved = True, rd_reason = ''approved_risk_reducing''\<rparr>"
  by (rule covered_sale_approved [OF assms])

theorem exit_never_trapped_witness:
  "firewall_evaluate default_risk_policy None (sample_order SELL 50) (sample_portfolio 50) (Aware 0)
     = Inr \<lparr>rd_approved = True, rd_reason = ''approved_risk_reducing''\<rparr>"
  by (rule exit_never_trapped [where held = 50])
    (simp_all add: sample_order_def sample_portfolio_def opt_all_def dec_evals)

text \<open>C34: an approved order that adds exposure is inside every cap. Its own notional, and the symbol,
  asset-class and gross exposure projected with it, stay within the policy's fractions of equity, gross
  exposure also within the leverage multiple; neither drawdown nor daily loss has reached its limit, the
  asset class is open, required protection is there and lies on the right side of the price, and a margined
  future has evidence of enough available margin.\<close>

theorem approved_within_caps:
  assumes "firewall_evaluate p src order ps now = Inr d" "rd_approved d"
    and "exposure_delta order ps (dmul (reference_price order) (dec_of_int (oi_quantity order)))
      (get_dec (ps_symbol_exposure ps) (oi_symbol order)) = Inr (reducing, adding)" "\<not> deq adding dzero"
  shows "dval adding \<le> dval (equity_share ps (rp_single_trade p))
    \<and> dval (projected_value (get_dec (ps_symbol_exposure ps) (oi_symbol order)) reducing adding)
        \<le> dval (equity_share ps (rp_symbol p))
    \<and> dval (projected_value (get_dec (ps_asset_exposure ps) (oi_asset_class order)) reducing adding)
        \<le> dval (equity_share ps (rp_asset_class p))
    \<and> dval (projected_value (ps_gross ps) reducing adding) \<le> dval (equity_share ps (rp_gross p))
    \<and> dval (projected_value (ps_gross ps) reducing adding) \<le> dval (equity_share ps (rp_leverage p))
    \<and> drawdown_reached p ps = Inr False \<and> \<not> daily_loss_reached p ps
    \<and> oi_asset_class order \<notin> set (rp_blocked p)
    \<and> (rp_require_stop p \<longrightarrow> stop_price order \<noteq> None)
    \<and> opt_all (stop_on_loss_side order) (stop_price order)
    \<and> opt_all (target_on_profit_side order) (take_profit_price order)
    \<and> (oi_asset_class order \<in> set margined_futures \<longrightarrow> (\<exists>source required available. src = Some source
          \<and> margin_for_order source order (Some (if oi_side order = BUY then oi_quantity order else 0)) now = Inr required
          \<and> ps_margin ps = Some available \<and> dval required \<le> dval available))"
  using firewall_approval [OF assms] cap_verdict_approved [OF firewall_approval(7) [OF assms] assms(2)]
    margin_refusal_None [of src order ps now] by blast

theorem approved_within_caps_witness:
  "dval (projected_value (get_dec (ps_symbol_exposure (calm_portfolio 50)) (oi_symbol (sample_order BUY 40))) dzero
      (Fin False 4000 0)) \<le> dval (equity_share (calm_portfolio 50) (rp_symbol default_risk_policy))"
proof -
  have run: "firewall_evaluate default_risk_policy None (sample_order BUY 40) (calm_portfolio 50) (Aware 0)
      = Inr \<lparr>rd_approved = True, rd_reason = ''approved''\<rparr>"
    unfolding firewall_evaluate_def cap_verdict_def Let_def
    by (simp add: sample_order_def calm_portfolio_def sample_portfolio_def default_risk_policy_def opt_all_def
        exposure_delta_def drawdown_reached_def daily_loss_reached_def peak_of_def projected_value_def equity_share_def
        get_dec_def stop_on_loss_side_def target_on_profit_side_def approved_def margined_futures_def ddiv_zero dec_evals)
  show ?thesis
    by (rule approved_within_caps [OF run _ sample_delta, THEN conjunct2, THEN conjunct1]) (simp_all add: dec_evals)
qed

text \<open>C35: what the book firewall approves respects every operator-declared group. With a sector map and
  a valid policy, the projected exposure of the symbols of each group, added up in the book's order, is
  within the group's share of equity.\<close>

theorem book_groups_within_limit:
  assumes "rd_approved (book_evaluate bf order ps)" "projected_exposure order ps = Inr projected"
    and "bf_sectors bf \<noteq> []" "new_book_policy (bf_policy bf) = Inr pol"
  shows "dval (dsum (map snd (filter (in_group bf g) projected))) \<le> dval (dmul (ps_equity ps) (bp_sector pol))"
proof -
  have pol: "pol = bf_policy bf" and cap: "0 < dval (bp_sector pol)"
    using assms(4) by (auto simp: new_book_policy_def dle_dval split: if_splits)
  have "0 < dval (ps_equity ps)" "group_breach bf projected (ps_equity ps) = None"
    using book_approval [OF assms(1,2)] assms(3) by simp_all
  moreover have "0 \<le> dval (dmul (ps_equity ps) (bp_sector pol))"
    using dmul_pos [OF calculation(1) cap] by simp
  ultimately show ?thesis using group_breach_None [of bf projected "ps_equity ps" g] assms(3) by (simp add: pol)
qed

definition sample_book :: book_firewall where
  "sample_book =
     \<lparr>bf_policy = \<lparr>bp_adjusted_gross = Fin False 45 (-2), bp_sector = Fin False 25 (-2),
        bp_shortfall = Fin False 3 (-2), bp_floor = dzero\<rparr>,
      bf_measure = Some (\<lambda>p es equity. Inr (Measured (Some (Fin False 9 (-2))) (Some (Fin False 1 (-2))) [])),
      bf_sectors = [(''INFY'', ''IT'')], bf_required = []\<rparr>"

lemma armed_book_run:
  "projected_exposure (sample_order BUY 40) (calm_portfolio 50) = Inr [(''INFY'', Fin False 9000 0)]"
  "rd_approved (book_evaluate sample_book (sample_order BUY 40) (calm_portfolio 50))"
proof -
  show p: "projected_exposure (sample_order BUY 40) (calm_portfolio 50) = Inr [(''INFY'', Fin False 9000 0)]"
    unfolding projected_exposure_def Let_def sample_delta
    by (simp add: sample_order_def calm_portfolio_def sample_portfolio_def get_dec_def)
      (simp add: clamp0_def dec_evals)
  have "group_breach sample_book [(''INFY'', Fin False 9000 0)] (Fin False 100000 0) = None"
    unfolding group_breach_def Let_def
    by (simp add: sample_book_def sector_of_def symbol_key_def strip_def lstrip_def is_space_def upper_def is_lower_def
        get_dec_def sort_text_def dec_evals)
  then show "rd_approved (book_evaluate sample_book (sample_order BUY 40) (calm_portfolio 50))"
    unfolding book_evaluate_def book_attempt_def book_verdict_def p
    by (simp add: sample_book_def configuration_problem_def calm_portfolio_def sample_portfolio_def
        history_verdict_def approved_def dec_evals Let_def)
qed

theorem book_groups_within_limit_witness:
  "dval (dsum (map snd (filter (in_group sample_book ''IT'') [(''INFY'', Fin False 9000 0)])))
     \<le> dval (dmul (ps_equity (calm_portfolio 50)) (bp_sector (bf_policy sample_book)))"
  by (rule book_groups_within_limit [OF armed_book_run(2,1)])
    (simp_all add: sample_book_def new_book_policy_def dec_evals)

text \<open>C36: the book firewall never approves blind. With a history source and some projected exposure,
  an approval means that the measure of exactly the projected book succeeded, gave both numbers, and both are
  within their limits; a failure or an absent number is a refusal.\<close>

theorem book_fails_closed:
  assumes "rd_approved (book_evaluate bf order ps)" "projected_exposure order ps = Inr projected"
    and "bf_measure bf = Some history" "filter (\<lambda>(s, v). dlt dzero v) projected \<noteq> []"
  shows "\<exists>adj loss r. history (bf_policy bf)
      (map (\<lambda>s. (s, get_dec projected s)) (sort_text (map fst (filter (\<lambda>(s, v). dlt dzero v) projected))))
      (ps_equity ps) = Inr (Measured (Some adj) (Some loss) r)
    \<and> dval adj \<le> dval (bp_adjusted_gross (bf_policy bf)) \<and> dval loss \<le> dval (bp_shortfall (bf_policy bf))"
proof -
  obtain m d where "history (bf_policy bf)
      (map (\<lambda>s. (s, get_dec projected s)) (sort_text (map fst (filter (\<lambda>(s, v). dlt dzero v) projected))))
      (ps_equity ps) = Inr m" and v: "history_verdict (bf_policy bf) m = Inr d" "rd_approved d"
    using book_approval(3) [OF assms(1,2) _ assms(3,4)] assms(3) by blast
  then show ?thesis using history_verdict_approved [OF v] by blast
qed

theorem book_fails_closed_witness:
  "\<exists>adj loss r. the (bf_measure sample_book) (bf_policy sample_book) [(''INFY'', Fin False 9000 0)]
      (ps_equity (calm_portfolio 50)) = Inr (Measured (Some adj) (Some loss) r)
    \<and> dval adj \<le> dval (bp_adjusted_gross (bf_policy sample_book)) \<and> dval loss \<le> dval (bp_shortfall (bf_policy sample_book))"
  using book_fails_closed [OF armed_book_run(2,1), of "the (bf_measure sample_book)"]
  by (simp add: sample_book_def sort_text_def get_dec_def dec_evals)

end
