(* ===== verification/WardenProps.thy ===== *)
theory WardenProps
  imports Warden RiskProps
begin

text \<open>
  What leaves the warden: every exit of held units, and otherwise only what the capital plan, the
  order firewall, the book firewall and the overnight limits all accept.
\<close>

subsection \<open>Inversions\<close>

lemma bind_contract_Inr:
  assumes "bind_contract zone now order i = Inr bound"
  shows "\<exists>s. bound = order\<lparr>oi_instrument := Some s\<rparr>"
  using assms
  by (auto simp: bind_contract_def new_bound_order_def res_simps split: if_splits option.splits)

lemma warden_reject_approved: "warden_reject reason p tenant = Inr (d, alerts) \<Longrightarrow> \<not> wd_approved d"
  by (auto simp: warden_reject_def)

lemma if_warden_rejected:
  "(if b then warden_reject reason p tenant else x) = Inr (d, alerts) \<Longrightarrow> wd_approved d \<Longrightarrow> \<not> b \<and> x = Inr (d, alerts)"
  by (auto dest: warden_reject_approved split: if_splits)

lemma firewall_chain_approved:
  assumes "firewall_chain w src p plan ps tenant clock now order = Inr (d, alerts)" "wd_approved d"
  shows "wd_order d = Some order" "alerts = []"
    "\<exists>r. firewall_evaluate (warden_policy plan (wa_blocked w)) src order ps clock = Inr r \<and> rd_approved r
       \<and> (rd_reason r = ''approved_risk_reducing'' \<or> pure_de_risking p ps
          \<or> rd_approved (book_evaluate (wa_book w) order ps) \<and> rd_approved (overnight_evaluate (wa_overnight w) order ps now))"
  using assms unfolding firewall_chain_def Let_def
  by (auto simp: res_simps warden_reject_def warden_approve_def split: if_splits)

text \<open>An armed overnight firewall approves only inside its cap.\<close>

lemma overnight_approved:
  assumes "rd_approved (overnight_evaluate f order ps now)" "of_session f \<noteq> None"
    and "exposure_delta order ps (dmul (reference_price order) (dec_of_int (oi_quantity order)))
      (get_dec (ps_symbol_exposure ps) (oi_symbol order)) = Inr (reducing, adding)"
  shows "dval (projected_value (ps_gross ps) reducing adding) \<le> dval (equity_share ps (op_gross (of_policy f)))"
proof -
  obtain session d where "overnight_verdict (of_policy f) session order ps now = Inr d" "rd_approved d"
    using assms(1,2) overnight_gate.passed_iff [of "(f, order, ps, now)"] by (auto simp: overnight_attempt_def)
  then show ?thesis using assms(3)
    by (auto simp: overnight_verdict_def verdict_defs dlt_dval not_less res_simps
        split: option.splits datetime.splits if_splits)
qed

lemma warden_approval:
  assumes run: "warden_evaluate w src zone p plan ps country tenant now clock = Inr (d, alerts)" "wd_approved d"
    and "tp_side p = Some side" "\<not> pure_de_risking p ps"
  shows "0 < tp_quantity p" "0 < dval (tp_price p)" "cp_trading_allowed plan"
    "\<exists>projected. project_country_exposure p ps
         (get_dec (case country of None \<Rightarrow> ps_country_exposure ps | Some m \<Rightarrow> m) (tp_country p))
         (dmul (tp_price p) (dec_of_int (tp_quantity p))) = Inr projected
       \<and> dval projected \<le> dval (dmul (ps_equity ps) (cp_country plan))"
    "\<exists>inst. firewall_chain w src p plan ps tenant clock now ((proposal_order p side tenant)\<lparr>oi_instrument := inst\<rparr>)
       = Inr (d, alerts)"
proof -
  note body = run(1) [unfolded warden_evaluate_def Let_def assms(3) option.case]
  note g1 = if_warden_rejected [OF body run(2)]
  note g2 = if_warden_rejected [OF g1 [THEN conjunct2] run(2)]
  from g1 g2 assms(4) show "0 < tp_quantity p" "0 < dval (tp_price p)" "cp_trading_allowed plan"
    by (simp_all add: dle_dval not_le)
  from g2 [THEN conjunct2] obtain projected where
    c: "project_country_exposure p ps
         (get_dec (case country of None \<Rightarrow> ps_country_exposure ps | Some m \<Rightarrow> m) (tp_country p))
         (dmul (tp_price p) (dec_of_int (tp_quantity p))) = Inr projected"
    and rest: "(if \<not> pure_de_risking p ps \<and> dlt (dmul (ps_equity ps) (cp_country plan)) projected
        then warden_reject ''country_allocation_limit'' p tenant
      else (case tp_instrument p of
             None \<Rightarrow> firewall_chain w src p plan ps tenant clock now (proposal_order p side tenant)
           | Some i \<Rightarrow>
               (case bind_contract zone clock (proposal_order p side tenant) i of
                  Inl e \<Rightarrow>
                    if contract_fault e then warden_reject (''proposal_contract_invalid:'' @ exn_text e) p tenant else Inl e
                | Inr bound \<Rightarrow> firewall_chain w src p plan ps tenant clock now bound))) = Inr (d, alerts)"
    by (auto simp only: ebind_eq_Inr)
  note g3 = if_warden_rejected [OF rest run(2)]
  from g3 assms(4) have "dval projected \<le> dval (dmul (ps_equity ps) (cp_country plan))"
    by (simp add: dlt_dval not_less)
  with c show "\<exists>projected. project_country_exposure p ps
         (get_dec (case country of None \<Rightarrow> ps_country_exposure ps | Some m \<Rightarrow> m) (tp_country p))
         (dmul (tp_price p) (dec_of_int (tp_quantity p))) = Inr projected
       \<and> dval projected \<le> dval (dmul (ps_equity ps) (cp_country plan))" by blast
  show "\<exists>inst. firewall_chain w src p plan ps tenant clock now ((proposal_order p side tenant)\<lparr>oi_instrument := inst\<rparr>)
       = Inr (d, alerts)"
  proof (cases "tp_instrument p")
    case None
    with g3 show ?thesis by (intro exI [of _ None]) (simp add: proposal_order_def)
  next
    case (Some i)
    with g3 run(2) obtain bound where
      "bind_contract zone clock (proposal_order p side tenant) i = Inr bound"
      "firewall_chain w src p plan ps tenant clock now bound = Inr (d, alerts)"
      by (auto dest: warden_reject_approved split: sum.splits if_splits)
    with bind_contract_Inr show ?thesis by blast
  qed
qed

subsection \<open>Properties\<close>

lemma project_country_defined: "\<exists>v. project_country_exposure p ps current notional = Inr v"
proof (cases "tp_side p = Some BUY \<or> held_units ps (tp_symbol p) \<le> 0")
  case False
  then have "dcoef (dec_of_int (held_units ps (tp_symbol p))) \<noteq> 0" by (intro dec_of_int_nonzero) simp
  from ddiv_defined [OF this] obtain q where
    "ddiv (dmul (dmax dzero (get_dec (ps_symbol_exposure ps) (tp_symbol p)))
        (dec_of_int (min (tp_quantity p) (held_units ps (tp_symbol p))))) (dec_of_int (held_units ps (tp_symbol p))) = Inr q" by blast
  with False show ?thesis by (simp add: project_country_exposure_def Let_def)
qed (simp add: project_country_exposure_def Let_def)



subsection \<open>A concrete run\<close>

definition sample_plan_record :: "bool \<Rightarrow> capital_plan" where
  "sample_plan_record allowed =
     \<lparr>cp_capital = Fin False 100000 0, cp_mode = BALANCED, cp_risk_fraction = mode_risk BALANCED,
      cp_risk_amount = Fin False 500 0, cp_daily_loss = Fin False 125 (-4), cp_daily_loss_amount = Fin False 1250 0,
      cp_drawdown = Fin False 10 (-2), cp_drawdown_amount = Fin False 10000 0, cp_position = Fin False 10 (-2),
      cp_position_amount = Fin False 10000 0, cp_country = Fin False 50 (-2), cp_gross = Fin False 60 (-2),
      cp_cash_reserve = Fin False 20 (-2), cp_stop_loss = Fin False 2 (-2), cp_take_profit = Fin False 4 (-2),
      cp_reward_risk = Fin False 20 (-1), cp_daily_goal = zero_band, cp_weekly_goal = zero_band,
      cp_monthly_goal = zero_band, cp_yearly_goal = zero_band, cp_trading_allowed = allowed, cp_rationale = []\<rparr>"

definition sample_proposal :: "Side \<Rightarrow> int \<Rightarrow> trade_proposal" where
  "sample_proposal side q =
     \<lparr>tp_decision_id = ''d1'', tp_symbol = ''INFY'', tp_market = INDIA, tp_country = ''IN'', tp_asset_class = EQUITY,
      tp_side = Some side, tp_quantity = q, tp_price = Fin False 100 0, tp_stop = Some (Fin False 98 0),
      tp_target = Some (Fin False 104 0), tp_confidence = Fin False 7 (-1), tp_expected_return = Fin False 2 (-2),
      tp_expected_risk = Fin False 1 (-2), tp_rationale = [], tp_instrument = None\<rparr>"

definition sample_warden :: warden where
  "sample_warden =
     \<lparr>wa_blocked = [EQUITY],
      wa_book = sample_book,
      wa_overnight = \<lparr>of_policy = \<lparr>op_gross = Fin False 25 (-2), op_window = 0, op_refuse_outside = True\<rparr>,
        of_session = Some (\<lambda>m s t. Inl (ValueError ''calendar''))\<rparr>\<rparr>"

definition open_warden :: warden where
  "open_warden = sample_warden\<lparr>wa_blocked := [],
     wa_overnight := \<lparr>of_policy = of_policy (wa_overnight sample_warden), of_session = None\<rparr>\<rparr>"


lemma sample_buy_accepted:
  "\<exists>d. warden_evaluate open_warden None 0 (sample_proposal BUY 40) (sample_plan_record True) (calm_portfolio 50)
     None ''t'' None (Aware 0) = Inr (d, []) \<and> wd_approved d"
proof -
  have order: "proposal_order (sample_proposal BUY 40) BUY ''t'' = sample_order BUY 40"
    by (simp add: proposal_order_def sample_proposal_def sample_order_def)
  have f: "firewall_evaluate (warden_policy (sample_plan_record True) []) None
      (sample_order BUY 40) (calm_portfolio 50) (Aware 0)
      = Inr \<lparr>rd_approved = True, rd_reason = ''approved''\<rparr>"
    unfolding firewall_evaluate_def cap_verdict_def Let_def
    by (simp add: sample_order_def calm_portfolio_def sample_portfolio_def warden_policy_def default_risk_policy_def
        sample_plan_record_def opt_all_def exposure_delta_def drawdown_reached_def daily_loss_reached_def peak_of_def
        projected_value_def equity_share_def get_dec_def stop_on_loss_side_def target_on_profit_side_def approved_def
        margined_futures_def ddiv_zero dec_evals)
  have o: "overnight_evaluate (wa_overnight open_warden) (sample_order BUY 40) (calm_portfolio 50) None
      = \<lparr>rd_approved = True, rd_reason = ''overnight_risk_not_armed''\<rparr>"
    by (simp add: overnight_evaluate_def overnight_attempt_def approved_def open_warden_def)
  have "\<exists>d. firewall_chain open_warden None (sample_proposal BUY 40) (sample_plan_record True) (calm_portfolio 50) ''t''
      (Aware 0) None (sample_order BUY 40) = Inr (d, []) \<and> wd_approved d"
    using f o armed_book_run(2)
    by (simp add: firewall_chain_def Let_def open_warden_def sample_warden_def warden_approve_def)
  moreover have "project_country_exposure (sample_proposal BUY 40) (calm_portfolio 50) dzero (Fin False 4000 0) = Inr (Fin False 4000 0)"
    unfolding project_country_exposure_def Let_def by (simp add: sample_proposal_def dec_evals)
  moreover have "dmul (Fin False 100 0) (dec_of_int 40) = Fin False 4000 0"
    "\<not> dle (Fin False 100 0) dzero"
    "\<not> dlt (dmul (Fin False 100000 0) (Fin False 50 (-2))) (Fin False 4000 0)"
    by (simp_all add: dec_evals)
  moreover have "ps_country_exposure (calm_portfolio 50) = []" "ps_equity (calm_portfolio 50) = Fin False 100000 0"
    by (simp_all add: calm_portfolio_def sample_portfolio_def)
  moreover have "tp_side (sample_proposal BUY 40) = Some BUY" "tp_quantity (sample_proposal BUY 40) = 40"
    "tp_price (sample_proposal BUY 40) = Fin False 100 0" "tp_instrument (sample_proposal BUY 40) = None"
    "cp_trading_allowed (sample_plan_record True)" "cp_country (sample_plan_record True) = Fin False 50 (-2)"
    by (simp_all add: sample_proposal_def sample_plan_record_def)
  ultimately show ?thesis
    unfolding warden_evaluate_def Let_def by (simp add: order get_dec_def)
qed


end
