(* ===== verification/DecError.thy ===== *)
theory DecError
  imports Decimal28
begin

text \<open>
  How far rounding can move a result: one rounding of a nonnegative number adds at most half a unit
  of the last of 28 digits, and a quotient exceeds the exact one by at most one part in ten to the 27.
\<close>

subsection \<open>The error of one rounding\<close>

definition slack :: rat where
  "slack = 1 + 1 / 10 ^ 27"

lemma ten_pow_powi: "ten_pow e = 10 powi e"
  by (simp add: ten_pow_def power_int_def field_simps)

lemma ten_pow_plus: "ten_pow (a + b) = ten_pow a * ten_pow b"
  by (simp add: ten_pow_powi power_int_add)

lemma half_even_upper: "2 * (half_even c k * 10 ^ k) \<le> 2 * c + 10 ^ k"
proof -
  define P q r where "P = (10::nat) ^ k" and "q = c div P" and "r = c mod P"
  have c: "c = q * P + r" by (simp add: q_def r_def)
  show ?thesis unfolding half_even_def Let_def P_def [symmetric] q_def [symmetric] r_def [symmetric]
    by (simp add: c algebra_simps)
qed

text \<open>Rounding a nonnegative number adds at most half a unit of the last of 28 digits.\<close>

lemma dfix_upper: "2 * 10 ^ 27 * dval (dfix (Fin False c e)) \<le> (2 * 10 ^ 27 + 1) * (of_nat c * ten_pow e)"
proof (cases "ndigits c \<le> prec")
  case True
  then show ?thesis by (simp add: dfix_small dval_sign mult_right_mono algebra_simps)
next
  case False
  define k q where "k = ndigits c - prec" and "q = half_even c k"
  have d: "dfix (Fin False c e) = (if prec < ndigits q then Fin False (q div 10) (e + int k + 1)
      else Fin False q (e + int k))"
    using False unfolding dfix_def Let_def k_def q_def by simp
  have le: "dval (dfix (Fin False c e)) \<le> of_nat (q * 10 ^ k) * ten_pow e"
  proof -
    have "dval (Fin False (q div 10) (e + int k + 1)) = of_nat (q div 10 * 10 * 10 ^ k) * ten_pow e"
      by (simp add: dval_sign ten_pow_plus) (simp add: ten_pow_def)
    also have "\<dots> \<le> of_nat (q * 10 ^ k) * ten_pow e"
      by (intro mult_right_mono of_nat_mono mult_le_mono) simp_all
    finally show ?thesis
      by (auto simp: d dval_sign ten_pow_plus) (simp add: ten_pow_def)
  qed
  have "0 < c" using False by (cases "c = 0") (simp_all add: prec_def ndigits_rec [of 0])
  define B :: nat where "B = 10 ^ 27"
  from power_ndigits_le [OF \<open>0 < c\<close>] have "10 ^ (27 + k) \<le> c"
    using False by (simp add: k_def prec_def Suc_diff_le)
  then have "B * 10 ^ k \<le> c" by (simp only: B_def power_add)
  have "B * (2 * (q * 10 ^ k)) \<le> B * (2 * c + 10 ^ k)"
    unfolding q_def by (rule mult_le_mono2) (rule half_even_upper)
  also have "\<dots> \<le> B * (2 * c) + c"
    using \<open>B * 10 ^ k \<le> c\<close> by (simp only: distrib_left add_le_cancel_left)
  finally have "B * (2 * (q * 10 ^ k)) \<le> B * (2 * c) + c" .
  then have "of_nat (B * (2 * (q * 10 ^ k))) \<le> (of_nat (B * (2 * c) + c) :: rat)"
    by (simp only: of_nat_le_iff)
  then have "2 * 10 ^ 27 * of_nat (q * 10 ^ k) \<le> ((2 * 10 ^ 27 + 1) * of_nat c :: rat)"
    unfolding B_def by (simp only: of_nat_mult of_nat_add of_nat_power of_nat_numeral) (simp add: algebra_simps)
  then have "2 * 10 ^ 27 * of_nat (q * 10 ^ k) * ten_pow e \<le> (2 * 10 ^ 27 + 1) * of_nat c * ten_pow e"
    by (rule mult_right_mono) simp
  moreover have "2 * 10 ^ 27 * dval (dfix (Fin False c e)) \<le> 2 * 10 ^ 27 * (of_nat (q * 10 ^ k) * ten_pow e)"
    by (rule mult_left_mono [OF le]) simp
  ultimately show ?thesis by (simp only: mult.assoc)
qed

subsection \<open>The error of a quotient\<close>

lemma strip_zeros_value:
  "of_nat (fst (strip_zeros n c e ideal)) * ten_pow (snd (strip_zeros n c e ideal)) = of_nat c * ten_pow e"
proof (induction n arbitrary: c e)
  case (Suc n)
  have "of_nat (c div 10) * ten_pow (e + 1) = of_nat c * ten_pow e" if "c mod 10 = 0"
  proof -
    from that have "c = c div 10 * 10" by (metis div_mult_mod_eq add.right_neutral)
    then have "(of_nat c :: rat) = of_nat (c div 10) * 10" by (metis of_nat_mult of_nat_numeral)
    then show ?thesis by (simp add: ten_pow_plus) (simp add: ten_pow_def)
  qed
  with Suc show ?case by simp
qed simp

text \<open>The quotient of the scaled integers has at least 28 digits before rounding.\<close>

lemma quotient_digits:
  assumes "0 < cx" "0 < cy" "int (ndigits cy) - int (ndigits cx) + int prec + 1 = shift"
  shows "10 ^ 28 \<le> (if 0 \<le> shift then cx * 10 ^ nat shift else cx) div (if 0 \<le> shift then cy else cy * 10 ^ nat (- shift))"
proof -
  have x: "10 ^ (ndigits cx - 1) \<le> cx" and y: "cy < 10 ^ ndigits cy"
    using power_ndigits_le [OF assms(1)] less_power_ndigits by simp_all
  show ?thesis
  proof (cases "0 \<le> shift")
    case True
    then have "28 + ndigits cy = ndigits cx - 1 + nat shift"
      using assms(3) ndigits_pos [of cx] unfolding prec_def by arith
    then have eq: "10 ^ 28 * 10 ^ ndigits cy = 10 ^ (ndigits cx - 1) * (10::nat) ^ nat shift"
      by (simp only: power_add [symmetric])
    have "10 ^ 28 * cy \<le> 10 ^ 28 * 10 ^ ndigits cy" by (rule mult_le_mono2 [OF less_imp_le [OF y]])
    also have "\<dots> \<le> cx * 10 ^ nat shift" unfolding eq by (rule mult_le_mono1 [OF x])
    finally have "10 ^ 28 * cy \<le> cx * 10 ^ nat shift" .
    with True assms(2) show ?thesis by (simp only: if_True less_eq_div_iff_mult_less_eq)
  next
    case False
    then have "28 + (ndigits cy + nat (- shift)) = ndigits cx - 1"
      using assms(3) ndigits_pos [of cx] unfolding prec_def by arith
    then have eq: "10 ^ 28 * (10 ^ ndigits cy * 10 ^ nat (- shift)) = (10::nat) ^ (ndigits cx - 1)"
      by (simp only: power_add [symmetric])
    have "10 ^ 28 * (cy * 10 ^ nat (- shift)) \<le> 10 ^ 28 * (10 ^ ndigits cy * 10 ^ nat (- shift))"
      by (rule mult_le_mono2 [OF mult_le_mono1 [OF less_imp_le [OF y]]])
    also have "\<dots> \<le> cx" unfolding eq by (rule x)
    finally have "10 ^ 28 * (cy * 10 ^ nat (- shift)) \<le> cx" .
    with False assms(2) show ?thesis by (simp only: if_False less_eq_div_iff_mult_less_eq mult_pos_pos zero_less_power zero_less_numeral)
  qed
qed

text \<open>The two roundings of a quotient, put together.\<close>

lemma slack_chain:
  fixes D C C' E X Y :: rat
  assumes "2 * 10 ^ 27 * D \<le> (2 * 10 ^ 27 + 1) * (C' * E)" "10 ^ 28 * C' \<le> (10 ^ 28 + 1) * C" "C * E * Y \<le> X"
    and "0 \<le> E" "0 \<le> Y" "0 \<le> X"
  shows "D * Y \<le> slack * X"
proof -
  have "10 ^ 28 * C' * (E * Y) \<le> (10 ^ 28 + 1) * C * (E * Y)"
    by (rule mult_right_mono [OF assms(2)]) (simp add: assms(4,5))
  with assms(3) have a: "10 ^ 28 * (C' * E * Y) \<le> (10 ^ 28 + 1) * X" by (simp add: mult.assoc)
  have "2 * 10 ^ 27 * D * Y \<le> (2 * 10 ^ 27 + 1) * (C' * E) * Y" by (rule mult_right_mono [OF assms(1,5)])
  then have "2 * 10 ^ 27 * (D * Y) \<le> (2 * 10 ^ 27 + 1) * (C' * E * Y)" by (simp add: mult.assoc)
  with a assms(6) show ?thesis by (simp add: slack_def)
qed

text \<open>A quotient of nonnegative numbers exceeds the exact one by at most one part in ten to the 27.\<close>

lemma ddiv_upper:
  assumes "0 \<le> dval x" "0 < dval y" "ddiv x y = Inr q"
  shows "dval q * dval y \<le> slack * dval x"
proof (cases "dcoef x = 0")
  case True
  with assms(2,3) have "dval q = 0" by (auto simp: ddiv_def dval_gt_zero_iff dval_zero_iff)
  with assms(1) show ?thesis by (simp add: slack_def)
next
  case False
  then have x: "\<not> dsign x" "0 < dcoef x"
    using assms(1) dval_zero_iff [of x] dval_gt_zero_iff [of x] by auto
  have y: "\<not> dsign y" "0 < dcoef y" using assms(2) by (auto simp: dval_gt_zero_iff)
  define shift where "shift = int (ndigits (dcoef y)) - int (ndigits (dcoef x)) + int prec + 1"
  define e where "e = dexp x - dexp y - shift"
  define n where "n = (if 0 \<le> shift then dcoef x * 10 ^ nat shift else dcoef x)"
  define d where "d = (if 0 \<le> shift then dcoef y else dcoef y * 10 ^ nat (- shift))"
  define c where "c = n div d"
  have big: "10 ^ 28 \<le> c" unfolding c_def n_def d_def by (rule quotient_digits [OF x(2) y(2)]) (simp add: shift_def)
  have exact: "of_nat n * ten_pow e * dval y = of_nat d * dval x"
  proof -
    have "ten_pow e * ten_pow shift * ten_pow (dexp y) = ten_pow (dexp x)"
      by (simp add: e_def ten_pow_plus [symmetric])
    moreover have "of_nat n = of_nat (dcoef x) * ten_pow shift * (if 0 \<le> shift then 1 else 10 ^ nat (- shift))"
      by (simp add: n_def ten_pow_def)
    moreover have "of_nat d = of_nat (dcoef y) * (if 0 \<le> shift then (1::rat) else 10 ^ nat (- shift))"
      by (simp add: d_def)
    moreover have "dval x = of_nat (dcoef x) * ten_pow (dexp x)" "dval y = of_nat (dcoef y) * ten_pow (dexp y)"
      using x y by (simp_all add: dval_def signed_def)
    ultimately show ?thesis by (simp add: algebra_simps)
  qed
  have "0 < d" using y by (simp add: d_def)
  have cd: "of_nat c * of_nat d \<le> (of_nat n :: rat)"
    unfolding c_def of_nat_mult [symmetric] of_nat_le_iff by simp
  have below: "of_nat c * ten_pow e * dval y \<le> dval x"
  proof -
    have "of_nat d * (of_nat c * ten_pow e * dval y) = of_nat c * of_nat d * (ten_pow e * dval y)" by simp
    also have "\<dots> \<le> of_nat n * (ten_pow e * dval y)"
      by (rule mult_right_mono [OF cd]) (use assms(2) in simp)
    also have "\<dots> = of_nat d * dval x" using exact by (simp add: mult.assoc)
    finally show ?thesis using \<open>0 < d\<close> by simp
  qed
  have "(of_nat (10 ^ 28) :: rat) \<le> of_nat c" using big by (simp only: of_nat_le_iff)
  then have bigr: "10 ^ 28 \<le> (of_nat c :: rat)" by (simp only: of_nat_power of_nat_numeral)
  have bound: "dval (dfix (Fin False c' e')) * dval y \<le> slack * dval x"
    if "of_nat c' * ten_pow e' \<le> (of_nat c + 1) * ten_pow e" for c' e'
  proof (rule slack_chain [OF _ _ below])
    show "2 * 10 ^ 27 * dval (dfix (Fin False c' e')) \<le> (2 * 10 ^ 27 + 1) * ((of_nat c + 1) * ten_pow e)"
      by (rule order_trans [OF dfix_upper]) (rule mult_left_mono [OF that], simp)
    show "10 ^ 28 * (of_nat c + 1) \<le> (10 ^ 28 + 1) * (of_nat c :: rat)" using bigr by simp
  qed (use assms in simp_all)
  have q: "ddiv x y = (if n mod d \<noteq> 0 then Inr (dfix (Fin False (if c mod 5 = 0 then c + 1 else c) e))
      else case strip_zeros (nat (dexp x - dexp y - e)) c e (dexp x - dexp y) of
        (c', e') \<Rightarrow> Inr (dfix (Fin False c' e')))"
    using x y by (simp add: ddiv_def Let_def c_def shift_def [symmetric] e_def [symmetric] n_def [symmetric] d_def [symmetric])
  show ?thesis
  proof (cases "n mod d = 0")
    case True
    define s where "s = strip_zeros (nat (dexp x - dexp y - e)) c e (dexp x - dexp y)"
    from True assms(3) have "q = dfix (Fin False (fst s) (snd s))"
      by (simp add: q s_def [symmetric] split: prod.splits)
    moreover have "of_nat (fst s) * ten_pow (snd s) \<le> (of_nat c + 1) * ten_pow e"
      by (simp add: s_def strip_zeros_value mult_right_mono)
    ultimately show ?thesis using bound by blast
  next
    case False
    with assms(3) have "q = dfix (Fin False (if c mod 5 = 0 then c + 1 else c) e)" by (simp add: q)
    then show ?thesis by (simp only:) (rule bound, simp add: mult_right_mono)
  qed
qed

end
