(* ===== verification/CapitalProps.thy ===== *)
theory CapitalProps
  imports Capital DecError
begin

text \<open>
  The bounds of a recommended plan, and what a quantity sized from it can lose and tie up.
\<close>

subsection \<open>The plan\<close>

text \<open>The constant of the stop fraction is the correctly rounded root of 252.\<close>

lemma root_252_rounded:
  "(dval root_252 - ten_pow (-26) / 2)\<^sup>2 < 252" "252 < (dval root_252 + ten_pow (-26) / 2)\<^sup>2"
  by (simp_all add: root_252_def dval_sign ten_pow_def power2_eq_square)

lemma by_mode_cases: "by_mode c b a m \<in> {c, b, a}"
  by (cases m) (simp_all add: by_mode_def)

lemma adaptive_stop_bounds:
  assumes "adaptive_stop_fraction r m = Inr stop"
  shows "6 / 1000 \<le> dval stop" "dval stop \<le> 5 / 100"
  using assms
  by (auto simp: adaptive_stop_fraction_def res_simps Let_def dval_min dval_max dval_sign ten_pow_def)

lemma recommend_Inr:
  assumes "recommend r = Inr plan"
  shows "adaptive_stop_fraction r (cp_mode plan) = Inr (cp_stop_loss plan)"
    "cp_risk_fraction plan = mode_risk (cp_mode plan)" "cp_position plan = mode_position (cp_mode plan)"
    "cp_cash_reserve plan = mode_cash (cp_mode plan)" "cp_gross plan = mode_gross (cp_mode plan)"
    "cp_trading_allowed plan = plan_trading_allowed r (cp_mode plan)"
    "cp_mode plan = (case rq_mode r of None \<Rightarrow> recommend_mode r | Some m \<Rightarrow> m)"
  using assms by (auto simp: recommend_def Let_def res_simps split: prod.splits)

lemma mode_fractions:
  "0 < dval (mode_risk m)" "dval (mode_risk m) \<le> 1 / 100" "0 < dval (mode_position m)" "dval (mode_position m) \<le> 12 / 100"
  by (cases m; simp add: mode_risk_def mode_position_def by_mode_def dval_sign ten_pow_def)+

text \<open>The engine answers every request: the only divisors are constants.\<close>

lemma ddiv_total: "dcoef y \<noteq> 0 \<Longrightarrow> \<exists>q. ddiv x y = Inr q"
  by (auto simp: ddiv_def Let_def split: prod.split)

lemma recommend_total: "\<exists>plan. recommend r = Inr plan"
proof -
  have "\<exists>stop. adaptive_stop_fraction r m = Inr stop" for m
    using ddiv_total [of root_252 "rq_volatility r"] by (auto simp: adaptive_stop_fraction_def root_252_def Let_def)
  moreover have "\<exists>g. goal_bands a = Inr g" for a
    using ddiv_total [of "dec_of_int 252" a] ddiv_total [of "dec_of_int 52" a] ddiv_total [of "dec_of_int 12" a]
    by (auto simp: goal_bands_def dec_of_int_def)
  ultimately obtain stop bands where
    "adaptive_stop_fraction r (case rq_mode r of None \<Rightarrow> recommend_mode r | Some m \<Rightarrow> m) = Inr stop"
    "goal_bands (if plan_trading_allowed r (case rq_mode r of None \<Rightarrow> recommend_mode r | Some m \<Rightarrow> m)
       then annual_target r (case rq_mode r of None \<Rightarrow> recommend_mode r | Some m \<Rightarrow> m) else dzero) = Inr bands"
    by blast
  then show ?thesis unfolding recommend_def Let_def by (simp split: prod.split)
qed

subsection \<open>Quantities\<close>

lemma dfloor_le: "of_int (dfloor x) \<le> dval x"
proof (cases "0 \<le> dexp x")
  case True
  then show ?thesis by (simp add: dfloor_def dval_def ten_pow_def)
next
  case False
  define P where "P = (10::int) ^ nat (- dexp x)"
  have "signed (dsign x) (dcoef x) div P * P \<le> signed (dsign x) (dcoef x)" "0 < P"
    by (simp_all add: P_def minus_mod_eq_div_mult [symmetric])
  then have "of_int (signed (dsign x) (dcoef x) div P) * of_int P \<le> (of_int (signed (dsign x) (dcoef x)) :: rat)"
    unfolding of_int_mult [symmetric] of_int_le_iff by simp
  then show ?thesis using False \<open>0 < P\<close>
    by (simp add: dfloor_def dval_def ten_pow_def P_def [symmetric] field_simps) (simp add: P_def mult.commute)
qed

lemma dtrunc_positive: "0 < dtrunc x \<Longrightarrow> of_int (dtrunc x) \<le> dval x"
proof -
  assume pos: "0 < dtrunc x"
  have "0 \<le> dfloor (Fin False (dcoef x) (dexp x))"
    by (simp add: dfloor_def signed_def pos_imp_zdiv_nonneg_iff)
  with pos have "\<not> dsign x" by (auto simp: dtrunc_def)
  then show ?thesis using dfloor_le [of x] by (simp add: dtrunc_def)
qed

text \<open>A positive whole number of units costs at most the budget, up to rounding.\<close>

lemma whole_within:
  assumes "whole x y = Inr n" "0 \<le> dval x" "0 < dval y" "0 < q" "q \<le> n"
  shows "of_int q * dval y \<le> slack * dval x"
proof -
  obtain z where z: "ddiv x y = Inr z" "n = dtrunc z" using assms(1) by (auto simp: whole_def res_simps)
  have "of_int q \<le> (of_int n :: rat)" using assms(5) by simp
  also have "\<dots> \<le> dval z" using dtrunc_positive [of z] z assms(4,5) by simp
  finally have "of_int q * dval y \<le> dval z * dval y" by (rule mult_right_mono) (use assms(3) in simp)
  also have "\<dots> \<le> slack * dval x" by (rule ddiv_upper [OF assms(2,3) z(1)])
  finally show ?thesis .
qed

lemma effective_entry_ge: "dval price \<le> dval (effective_entry price worst)"
  by (simp add: effective_entry_def dval_max)

subsection \<open>Properties\<close>

lemma if_zero: "(if b then Inr 0 else x) = Inr q \<Longrightarrow> 0 < q \<Longrightarrow> \<not> b \<and> x = Inr (q :: int)"
  by (auto split: if_splits)

lemma quantity_from_plan_Inr:
  assumes "quantity_from_plan p plan equity gross price worst = Inr q" "0 < q"
  shows "0 < dval price" "0 < dval equity" "0 < dval (per_unit_risk plan price worst)"
    "\<exists>n. whole (dmul equity (cp_risk_fraction plan)) (per_unit_risk plan price worst) = Inr n \<and> q \<le> n"
    "\<exists>n. whole (dmul equity (cp_position plan)) (effective_entry price worst) = Inr n \<and> q \<le> n"
    "\<exists>n. whole (dmul equity (sz_trade p)) (effective_entry price worst) = Inr n \<and> q \<le> n"
    "\<exists>n. whole (deployable plan equity gross) (effective_entry price worst) = Inr n \<and> q \<le> n"
proof -
  note body = assms(1) [unfolded quantity_from_plan_def Let_def]
  note g1 = if_zero [OF body assms(2)]
  note g2 = if_zero [OF g1 [THEN conjunct2] assms(2)]
  from g1 g2 show "0 < dval price" "0 < dval equity" "0 < dval (per_unit_risk plan price worst)"
    by (simp_all add: dle_dval not_le)
  from g2 [THEN conjunct2] obtain r p1 t c where
    w: "whole (dmul equity (cp_risk_fraction plan)) (per_unit_risk plan price worst) = Inr r"
    "whole (dmul equity (cp_position plan)) (effective_entry price worst) = Inr p1"
    "whole (dmul equity (sz_trade p)) (effective_entry price worst) = Inr t"
    "whole (deployable plan equity gross) (effective_entry price worst) = Inr c"
    and q: "Inr (max 0 (min (min (min r p1) t) c)) = (Inr q :: exn + int)"
    by (auto simp only: ebind_eq_Inr)
  from q have "q = max 0 (min (min (min r p1) t) c)" by simp
  with assms(2) have "q \<le> r" "q \<le> p1" "q \<le> t" "q \<le> c"
    by (auto simp: max_def min_def split: if_splits)
  with w show "\<exists>n. whole (dmul equity (cp_risk_fraction plan)) (per_unit_risk plan price worst) = Inr n \<and> q \<le> n"
    "\<exists>n. whole (dmul equity (cp_position plan)) (effective_entry price worst) = Inr n \<and> q \<le> n"
    "\<exists>n. whole (dmul equity (sz_trade p)) (effective_entry price worst) = Inr n \<and> q \<le> n"
    "\<exists>n. whole (deployable plan equity gross) (effective_entry price worst) = Inr n \<and> q \<le> n"
    by blast+
qed

text \<open>C39: an entry sized from a recommended plan keeps its promises. The plan's stop fraction is between
  0.6 and 5 percent, and a positive quantity, bought at the worst entry price and stopped out at the stop
  derived from the reference price, loses at most the plan's risk fraction of equity; its notional at that
  price stays within the plan's position share, the single-trade share and the cash the plan leaves
  deployable; each up to the rounding of one division, a part in ten to the 27.\<close>

theorem sized_entry_within_budget:
  assumes "recommend r = Inr plan" "quantity_from_plan p plan equity gross price worst = Inr q" "0 < q"
    and "0 < dval (sz_trade p)"
  shows "6 / 1000 \<le> dval (cp_stop_loss plan) \<and> dval (cp_stop_loss plan) \<le> 5 / 100
    \<and> dval price \<le> dval (effective_entry price worst)
    \<and> of_int q * dval (per_unit_risk plan price worst) \<le> slack * dval (dmul equity (cp_risk_fraction plan))
    \<and> of_int q * dval (effective_entry price worst) \<le> slack * dval (dmul equity (cp_position plan))
    \<and> of_int q * dval (effective_entry price worst) \<le> slack * dval (dmul equity (sz_trade p))
    \<and> of_int q * dval (effective_entry price worst) \<le> slack * dval (deployable plan equity gross)"
proof -
  note plan = recommend_Inr [OF assms(1)] and sized = quantity_from_plan_Inr [OF assms(2,3)]
  have entry: "0 < dval (effective_entry price worst)"
    using sized(1) effective_entry_ge [of price worst] by linarith
  have "0 \<le> dval (dmul equity (cp_risk_fraction plan))" "0 \<le> dval (dmul equity (cp_position plan))"
    "0 \<le> dval (dmul equity (sz_trade p))"
    using dmul_pos [OF sized(2)] mode_fractions plan(2,3) assms(4) by (simp_all add: less_imp_le)
  moreover have "0 \<le> dval (deployable plan equity gross)" by (simp add: deployable_def dval_max)
  ultimately show ?thesis
    using sized(4-7) whole_within [OF _ _ sized(3) assms(3)] whole_within [OF _ _ entry assms(3)]
      adaptive_stop_bounds [OF plan(1)] effective_entry_ge [of price worst] by blast
qed

definition sample_request :: plan_request where
  "sample_request = \<lparr>rq_capital = Fin False 100000 0, rq_confidence = Fin False 7 (-1), rq_volatility = dzero,
     rq_edge = Fin False 1 (-2), rq_drawdown = dzero, rq_liquidity = Fin False 8 (-1), rq_mode = None\<rparr>"

lemma sample_plan:
  "\<exists>plan. recommend sample_request = Inr plan
     \<and> quantity_from_plan default_sizing plan (Fin False 100000 0) dzero (Fin False 100 0) (Some (Fin False 1005 (-1))) = Inr 49"
proof -
  obtain plan where r: "recommend sample_request = Inr plan" using recommend_total by blast
  note plan = recommend_Inr [OF r]
  have m: "cp_mode plan = BALANCED"
    by (simp add: plan(7) sample_request_def recommend_mode_def dec_evals)
  have "ddiv (rq_volatility sample_request) root_252 = Inr (Fin False 0 26)"
    by (simp add: sample_request_def root_252_def ddiv_def dzero_def)
  then have "adaptive_stop_fraction sample_request BALANCED = Inr (Fin False 6 (-3))"
    by (simp add: adaptive_stop_fraction_def by_mode_def dec_evals)
  with plan(1) m have st: "cp_stop_loss plan = Fin False 6 (-3)" by simp
  have e: "effective_entry (Fin False 100 0) (Some (Fin False 1005 (-1))) = Fin False 1005 (-1)"
    by (simp add: effective_entry_def dec_evals)
  have u: "per_unit_risk plan (Fin False 100 0) (Some (Fin False 1005 (-1))) = Fin False 1100 (-3)"
    unfolding per_unit_risk_def e st by (simp add: dec_evals)
  have d: "deployable plan (Fin False 100000 0) dzero = Fin False 8000000 (-2)"
    unfolding deployable_def plan(4) m by (simp add: mode_cash_def by_mode_def dec_evals)
  have w: "whole (Fin False 500000 (-3)) (Fin False 1100 (-3)) = Inr 454"
    "whole (Fin False 1000000 (-2)) (Fin False 1005 (-1)) = Inr 99"
    "whole (Fin False 500000 (-2)) (Fin False 1005 (-1)) = Inr 49"
    "whole (Fin False 8000000 (-2)) (Fin False 1005 (-1)) = Inr 796"
    unfolding whole_def by (simp_all add: dtrunc_def dec_evals)
  have "dmul (Fin False 100000 0) (cp_risk_fraction plan) = Fin False 500000 (-3)"
    "dmul (Fin False 100000 0) (cp_position plan) = Fin False 1000000 (-2)"
    "dmul (Fin False 100000 0) (sz_trade default_sizing) = Fin False 500000 (-2)"
    unfolding plan(2,3) m by (simp_all add: mode_risk_def mode_position_def by_mode_def default_sizing_def dec_evals)
  then have "quantity_from_plan default_sizing plan (Fin False 100000 0) dzero (Fin False 100 0) (Some (Fin False 1005 (-1))) = Inr 49"
    unfolding quantity_from_plan_def Let_def e u d st by (simp add: w dle_dval dval_sign not_le)
  with r show ?thesis by blast
qed

theorem sized_entry_within_budget_witness:
  "\<exists>plan. recommend sample_request = Inr plan
     \<and> of_int 49 * dval (effective_entry (Fin False 100 0) (Some (Fin False 1005 (-1))))
         \<le> slack * dval (dmul (Fin False 100000 0) (sz_trade default_sizing))"
proof -
  have "0 < dval (sz_trade default_sizing)" by (simp add: default_sizing_def dval_sign)
  with sample_plan show ?thesis
    using sized_entry_within_budget [of sample_request _ default_sizing "Fin False 100000 0" dzero "Fin False 100 0"
      "Some (Fin False 1005 (-1))" 49] by fastforce
qed

end
