(* ===== verification/Guards.thy ===== *)
theory Guards
  imports Risk Money
begin

text \<open>
  The small guards: \<^verbatim>\<open>src/quant_ai/security/rate_limit.py\<close>, \<^verbatim>\<open>operations/idempotency.py\<close>,
  \<^verbatim>\<open>operations/kill_switch.py\<close>, \<^verbatim>\<open>operations/readiness.py\<close>, \<^verbatim>\<open>compliance/gates.py\<close>,
  \<^verbatim>\<open>governance/escalation.py\<close>, \<^verbatim>\<open>entitlements/plans.py\<close>, \<^verbatim>\<open>usage/metering.py\<close>,
  \<^verbatim>\<open>execution/live_guard.py\<close>, \<^verbatim>\<open>risk/stops.py\<close>, \<^verbatim>\<open>portfolio/stops.py\<close> and
  \<^verbatim>\<open>portfolio/allocation.py\<close>. Instants are microseconds; the checks of Python types that the
  model's types already give are left out.
\<close>

subsection \<open>Sliding-window rate limit\<close>

record limiter =
  rl_limit :: int
  rl_window :: int
  rl_events :: "(string \<times> int list) list"

definition new_limiter :: "int \<Rightarrow> int \<Rightarrow> limiter res" where
  "new_limiter limit window =
     (if limit \<le> 0 \<or> window \<le> 0 then Inl (ValueError ''invalid rate limit'')
      else Inr \<lparr>rl_limit = limit, rl_window = window, rl_events = []\<rparr>)"

definition limiter_events :: "limiter \<Rightarrow> string \<Rightarrow> int list" where
  "limiter_events s key = (case map_of (rl_events s) key of None \<Rightarrow> [] | Some es \<Rightarrow> es)"

definition allow :: "string \<Rightarrow> int \<Rightarrow> limiter \<Rightarrow> limiter \<times> bool" where
  "allow key current s =
     (let events = dropWhile (\<lambda>t. t \<le> current - rl_window s) (limiter_events s key) in
      if rl_limit s \<le> int (length events)
      then (s\<lparr>rl_events := AList.update key events (rl_events s)\<rparr>, False)
      else (s\<lparr>rl_events := AList.update key (events @ [current]) (rl_events s)\<rparr>, True))"

subsection \<open>Idempotency keys\<close>

fun join_bar :: "string list \<Rightarrow> string" where
  "join_bar [] = []"
| "join_bar [s] = s"
| "join_bar (s # t # ts) = s @ ''|'' @ join_bar (t # ts)"

definition idempotency_text :: "(string \<Rightarrow> string) \<Rightarrow> OrderIntent \<Rightarrow> string \<Rightarrow> string res" where
  "idempotency_text sha order nonce =
     (let raw = join_bar [tenant_id order, strategy_id order, market_value (oi_market order), oi_symbol order,
        side_value (oi_side order), show_int (oi_quantity order), dec_str (reference_price order), nonce]
      in case oi_instrument order of
           None \<Rightarrow> Inr raw
         | Some i \<Rightarrow> ebind (instrument_identity_sha256 sha i) (\<lambda>d. Inr (raw @ ''|instrument:'' @ d)))"

definition order_idempotency_key :: "(string \<Rightarrow> string) \<Rightarrow> OrderIntent \<Rightarrow> string \<Rightarrow> string res" where
  "order_idempotency_key sha order nonce =
     (if nonce = [] then Inl (ValueError ''nonce is required'')
      else ebind (idempotency_text sha order nonce) (\<lambda>raw. Inr (sha raw)))"

definition claim_key :: "string \<Rightarrow> string list \<Rightarrow> string list \<times> bool" where
  "claim_key key seen = (if key \<in> set seen then (seen, False) else (seen @ [key], True))"

subsection \<open>Kill switch, readiness, gates\<close>

record kill_switch =
  ks_engaged :: bool
  ks_reason :: "string option"

definition engage :: "string \<Rightarrow> kill_switch \<Rightarrow> kill_switch res" where
  "engage reason k =
     (if strip reason = [] then Inl (ValueError ''kill switch reason is required'')
      else Inr (k\<lparr>ks_engaged := True, ks_reason := Some reason\<rparr>))"

definition reset_switch :: "kill_switch \<Rightarrow> kill_switch" where
  "reset_switch k = k\<lparr>ks_engaged := False, ks_reason := None\<rparr>"

definition assert_trading_allowed :: "kill_switch \<Rightarrow> unit res" where
  "assert_trading_allowed k =
     (if ks_engaged k
      then Inl (RuntimeError (''trading disabled: '' @ (case ks_reason k of None \<Rightarrow> ''None'' | Some r \<Rightarrow> r)))
      else Inr ())"

record readiness_check =
  rc_name :: string
  rc_ready :: bool
  rc_detail :: string

definition new_readiness_check :: "readiness_check \<Rightarrow> readiness_check res" where
  "new_readiness_check c =
     (if rc_name c = [] \<or> rc_name c \<noteq> strip (rc_name c) then Inl (ValueError ''readiness_check_name_invalid'') else Inr c)"

definition new_readiness_report :: "readiness_check list \<Rightarrow> readiness_check list res" where
  "new_readiness_report cs =
     (if \<not> distinct (map rc_name cs) then Inl (ValueError ''readiness_check_names_must_be_unique'') else Inr cs)"

definition report_ready :: "readiness_check list \<Rightarrow> bool" where
  "report_ready cs \<longleftrightarrow> cs \<noteq> [] \<and> list_all rc_ready cs"

definition report_blockers :: "readiness_check list \<Rightarrow> readiness_check list" where
  "report_blockers cs = filter (\<lambda>c. \<not> rc_ready c) cs"

datatype ExecutionMode = RESEARCH_MODE | PAPER_MODE | LIVE_MODE

record compliance_context =
  cc_market :: Market
  cc_asset_class :: AssetClass
  cc_mode :: ExecutionMode
  cc_live_approved :: bool
  cc_jurisdiction_approved :: bool

definition execution_allowed :: "compliance_context \<Rightarrow> bool" where
  "execution_allowed c =
     (if cc_mode c = RESEARCH_MODE \<or> cc_mode c = PAPER_MODE then True
      else cc_mode c = LIVE_MODE \<and> cc_live_approved c \<and> cc_jurisdiction_approved c)"

definition assert_live_trading_disabled :: "unit res" where
  "assert_live_trading_disabled =
     Inl (RuntimeError ''Live trading is intentionally disabled until promotion gates are satisfied.'')"

datatype EscalationPriority = INFORMATIONAL | REVIEW | CRITICAL

record escalation_decision =
  ed_priority :: EscalationPriority
  ed_contact_now :: bool
  ed_reasons :: "string list"

definition classify_founder_contact :: "string list \<Rightarrow> string list \<Rightarrow> escalation_decision" where
  "classify_founder_contact critical decisions =
     (if critical \<noteq> [] then \<lparr>ed_priority = CRITICAL, ed_contact_now = True, ed_reasons = critical\<rparr>
      else if decisions \<noteq> [] then \<lparr>ed_priority = REVIEW, ed_contact_now = False, ed_reasons = decisions\<rparr>
      else \<lparr>ed_priority = INFORMATIONAL, ed_contact_now = False, ed_reasons = []\<rparr>)"

datatype Plan = RESEARCH_PLAN | PRO_PLAN | INSTITUTIONAL_PLAN

record entitlements =
  en_strategies :: int
  en_options :: bool
  en_api :: bool
  en_accounts :: bool

definition plan_entitlements :: "Plan \<Rightarrow> entitlements" where
  "plan_entitlements p = (case p of
     RESEARCH_PLAN \<Rightarrow> \<lparr>en_strategies = 5, en_options = True, en_api = False, en_accounts = False\<rparr>
   | PRO_PLAN \<Rightarrow> \<lparr>en_strategies = 50, en_options = True, en_api = True, en_accounts = False\<rparr>
   | INSTITUTIONAL_PLAN \<Rightarrow> \<lparr>en_strategies = 500, en_options = True, en_api = True, en_accounts = True\<rparr>)"

subsection \<open>Usage meter\<close>

type_synonym usage_counts = "((string \<times> string) \<times> int) list"

text \<open>Reading a \<open>defaultdict\<close> inserts the missing entry, so a read leaves a zero record behind.\<close>

definition meter_touch :: "string \<times> string \<Rightarrow> usage_counts \<Rightarrow> usage_counts" where
  "meter_touch k c = (if map_of c k = None then c @ [(k, 0)] else c)"

definition meter_count :: "usage_counts \<Rightarrow> string \<times> string \<Rightarrow> int" where
  "meter_count c k = (case map_of c k of None \<Rightarrow> 0 | Some n \<Rightarrow> n)"

definition meter_get :: "string \<Rightarrow> string \<Rightarrow> usage_counts \<Rightarrow> usage_counts \<times> int" where
  "meter_get tenant metric c = (meter_touch (tenant, metric) c, meter_count c (tenant, metric))"

definition meter_increment :: "string \<Rightarrow> string \<Rightarrow> int \<Rightarrow> usage_counts \<Rightarrow> usage_counts res" where
  "meter_increment tenant metric amount c =
     (if amount \<le> 0 then Inl (ValueError ''usage amount must be positive'')
      else Inr (AList.update (tenant, metric) (meter_count c (tenant, metric) + amount) c))"

record usage_record =
  ur_tenant :: string
  ur_metric :: string
  ur_count :: int

definition meter_records :: "string \<Rightarrow> usage_counts \<Rightarrow> usage_record list" where
  "meter_records tenant c =
     map (\<lambda>m. \<lparr>ur_tenant = tenant, ur_metric = m, ur_count = meter_count c (tenant, m)\<rparr>)
       (sort_text (map (snd \<circ> fst) (filter (\<lambda>e. fst (fst e) = tenant) c)))"

subsection \<open>Protective levels\<close>

record stop_plan =
  sp_stop :: dec
  sp_target :: dec
  sp_risk :: dec
  sp_reward :: dec

definition reward_risk :: "stop_plan \<Rightarrow> dec res" where
  "reward_risk p = (if dlt dzero (sp_risk p) then ddiv (sp_reward p) (sp_risk p) else Inr dzero)"

definition atr_stop_plan :: "dec \<Rightarrow> Side \<Rightarrow> dec \<Rightarrow> dec \<Rightarrow> dec \<Rightarrow> stop_plan res" where
  "atr_stop_plan entry side atr stop_atr reward_multiple =
     (if dle (dmin (dmin (dmin entry atr) stop_atr) reward_multiple) dzero
        then Inl (ValueError ''positive entry/atr/multipliers required'')
      else
        let risk = dmul atr stop_atr; reward = dmul risk reward_multiple in
        if side = BUY
        then Inr \<lparr>sp_stop = dsub entry risk, sp_target = dadd entry reward, sp_risk = risk, sp_reward = reward\<rparr>
        else Inr \<lparr>sp_stop = dadd entry risk, sp_target = dsub entry reward, sp_risk = risk, sp_reward = reward\<rparr>)"

definition trailing_stop :: "Side \<Rightarrow> dec \<Rightarrow> dec \<Rightarrow> dec \<Rightarrow> dec res" where
  "trailing_stop side extreme atr multiple =
     (if dle (dmin (dmin extreme atr) multiple) dzero then Inl (ValueError ''positive values required'')
      else
        let distance = dmul atr multiple
        in Inr (if side = BUY then dsub extreme distance else dadd extreme distance))"

definition orient_protective_levels ::
    "Side option \<Rightarrow> dec \<Rightarrow> dec option \<Rightarrow> dec option \<Rightarrow> dec option \<times> dec option" where
  "orient_protective_levels side reference stop target =
     (case side of
        None \<Rightarrow> (stop, target)
      | Some s \<Rightarrow>
          if dle reference dzero then (stop, target)
          else
            let stop_distance = map_option (\<lambda>p. dabs (dsub reference p)) stop;
                profit_distance = map_option (\<lambda>p. dabs (dsub p reference)) target
            in if s = BUY
               then (map_option (dsub reference) stop_distance, map_option (dadd reference) profit_distance)
               else (map_option (dadd reference) stop_distance, map_option (dsub reference) profit_distance))"

definition stop_and_target :: "Side \<Rightarrow> dec \<Rightarrow> dec \<Rightarrow> dec \<Rightarrow> dec \<times> dec" where
  "stop_and_target side stop_distance profit_distance price =
     (let stop_gap = dmul price stop_distance; target_gap = dmul price profit_distance in
      if side = BUY then (dsub price stop_gap, dadd price target_gap)
      else (dadd price stop_gap, dsub price target_gap))"

subsection \<open>Risk-parity allocation\<close>

record allocation_input =
  al_symbol :: string
  al_score :: dec
  al_volatility :: dec

fun raw_weights :: "(string \<times> dec) list \<Rightarrow> allocation_input list \<Rightarrow> (string \<times> dec) list res" where
  "raw_weights acc [] = Inr acc"
| "raw_weights acc (a # rest) =
     ebind (ddiv (al_score a) (al_volatility a)) (\<lambda>w. raw_weights (AList.update (al_symbol a) w acc) rest)"

definition allocate :: "allocation_input list \<Rightarrow> (string \<times> dec) list res" where
  "allocate items =
     (let eligible = filter (\<lambda>a. dlt dzero (al_score a) \<and> dlt dzero (al_volatility a)) items in
      if eligible = [] then Inr []
      else
      ebind (raw_weights [] eligible) (\<lambda>raw.
      let total = dsum (map snd raw) in
      map_res (\<lambda>(symbol, w). ebind (ddiv w total) (\<lambda>v. Inr (symbol, v))) raw))"

end
