(* ===== verification/GuardsProps.thy ===== *)
theory GuardsProps
  imports Guards
begin

text \<open>
  The rate limiter keeps its promise over every window, protective levels are mirrored exactly,
  and an idempotency key does not separate its fields.
\<close>

subsection \<open>The rate limiter\<close>

text \<open>The calls a run allows, in order.\<close>

fun allow_run :: "limiter \<Rightarrow> (string \<times> int) list \<Rightarrow> (string \<times> int) list" where
  "allow_run s [] = []"
| "allow_run s ((key, t) # cs) =
     (case allow key t s of (s', yes) \<Rightarrow> (if yes then [(key, t)] else []) @ allow_run s' cs)"

definition allowed_times :: "string \<Rightarrow> (string \<times> int) list \<Rightarrow> int list" where
  "allowed_times key cs = map snd (filter (\<lambda>c. fst c = key) cs)"

definition in_window :: "limiter \<Rightarrow> int \<Rightarrow> int list \<Rightarrow> int" where
  "in_window s a ts = int (length (filter (\<lambda>t. a < t \<and> t \<le> a + rl_window s) ts))"

text \<open>What has been allowed for a key: older instants that left the window, then the stored events.\<close>

definition limiter_inv :: "limiter \<Rightarrow> string \<Rightarrow> int \<Rightarrow> int list \<Rightarrow> bool" where
  "limiter_inv s key prev ts \<longleftrightarrow>
     (\<exists>old. ts = old @ limiter_events s key \<and> (\<forall>t\<in>set old. t \<le> prev - rl_window s))
     \<and> (\<forall>a. in_window s a ts \<le> rl_limit s)"

lemma limiter_events_update: "limiter_events (s\<lparr>rl_events := AList.update k es (rl_events s)\<rparr>) key
    = (if key = k then es else limiter_events s key)"
  by (simp add: limiter_events_def update_conv')

lemma allow_fields: "allow k t s = (s', yes) \<Longrightarrow> rl_limit s' = rl_limit s \<and> rl_window s' = rl_window s"
  by (auto simp: allow_def Let_def split: if_splits)

lemma in_window_snoc: "in_window s a (ts @ [t]) = in_window s a ts + (if a < t \<and> t \<le> a + rl_window s then 1 else 0)"
  by (simp add: in_window_def)

lemma allow_inv:
  assumes "limiter_inv s key prev ts" "prev \<le> t" "allow k t s = (s', yes)"
  shows "limiter_inv s' key t (ts @ (if yes \<and> k = key then [t] else []))"
proof -
  note f = allow_fields [OF assms(3)]
  from assms(1) obtain old where old: "ts = old @ limiter_events s key" "\<forall>u\<in>set old. u \<le> prev - rl_window s"
    and win: "\<forall>a. in_window s a ts \<le> rl_limit s" by (auto simp: limiter_inv_def)
  show ?thesis
  proof (cases "k = key")
    case False
    then have "limiter_events s' key = limiter_events s key"
      using assms(3) by (auto simp: allow_def Let_def limiter_events_update split: if_splits)
    moreover have "\<forall>u\<in>set old. u \<le> t - rl_window s" using old(2) assms(2) by fastforce
    ultimately show ?thesis using False old(1) win f by (auto simp: limiter_inv_def in_window_def)
  next
    case True
    define P es old' where "P = (\<lambda>u. u \<le> t - rl_window s)" and "es = dropWhile P (limiter_events s key)"
      and "old' = old @ takeWhile P (limiter_events s key)"
    have ts: "ts = old' @ es" by (simp add: old'_def es_def old(1))
    have left: "\<forall>u\<in>set old'. u \<le> t - rl_window s"
    proof
      fix u assume "u \<in> set old'"
      then consider "u \<in> set old" | "u \<in> set (takeWhile P (limiter_events s key))" by (auto simp: old'_def)
      then show "u \<le> t - rl_window s"
        by cases (use old(2) assms(2) in fastforce, auto simp: P_def dest: set_takeWhileD)
    qed
    have run: "(if rl_limit s \<le> int (length es) then (s\<lparr>rl_events := AList.update key es (rl_events s)\<rparr>, False)
        else (s\<lparr>rl_events := AList.update key (es @ [t]) (rl_events s)\<rparr>, True)) = (s', yes)"
      using assms(3) [unfolded allow_def Let_def True] by (simp only: es_def P_def)
    show ?thesis
    proof (cases yes)
      case False
      with run have "limiter_events s' key = es" by (auto simp: limiter_events_update split: if_splits)
      with ts left win f False show ?thesis by (auto simp: limiter_inv_def in_window_def)
    next
      case yes: True
      with run have e: "limiter_events s' key = es @ [t]" and room: "int (length es) < rl_limit s"
        by (auto simp: limiter_events_update split: if_splits)
      have "in_window s a (ts @ [t]) \<le> rl_limit s" for a
      proof (cases "a < t \<and> t \<le> a + rl_window s")
        case True
        then have "filter (\<lambda>u. a < u \<and> u \<le> a + rl_window s) old' = []"
          using left by (fastforce simp: filter_empty_conv)
        then have "in_window s a ts \<le> int (length es)" by (simp add: ts in_window_def length_filter_le)
        with True room show ?thesis by (simp add: in_window_snoc)
      next
        case False
        then show ?thesis using win by (auto simp: in_window_snoc)
      qed
      then show ?thesis using yes True ts left f e by (auto simp: limiter_inv_def in_window_def)
    qed
  qed
qed

lemma allow_run_inv:
  assumes "limiter_inv s key prev ts" "sorted (prev # map snd cs)"
  shows "in_window s a (ts @ allowed_times key (allow_run s cs)) \<le> rl_limit s"
  using assms
proof (induction s cs arbitrary: prev ts rule: allow_run.induct)
  case (1 s)
  then show ?case by (simp add: limiter_inv_def allowed_times_def)
next
  case (2 s k t cs)
  obtain s' yes where run: "allow k t s = (s', yes)" by fastforce
  have "limiter_inv s' key t (ts @ (if yes \<and> k = key then [t] else []))"
    by (rule allow_inv [OF "2.prems"(1) _ run]) (use "2.prems"(2) in simp)
  from "2.IH" [OF run [symmetric] this] "2.prems"(2) allow_fields [OF run]
  show ?case by (auto simp: run allowed_times_def in_window_def split: if_splits)
qed

text \<open>C40: the rate limiter keeps its promise over every window. A fresh limiter, called at any instants in
  nondecreasing order for any keys, allows at most the limit of calls of each key in every half-open interval of
  the window's length, wherever it starts.\<close>

theorem rate_limit_window:
  assumes "new_limiter limit window = Inr s" "sorted (map snd cs)"
  shows "int (length (filter (\<lambda>t. a < t \<and> t \<le> a + window) (allowed_times key (allow_run s cs)))) \<le> limit"
proof (cases cs)
  case Nil
  with assms(1) show ?thesis by (auto simp: new_limiter_def allowed_times_def split: if_splits)
next
  case (Cons c cs')
  have s: "rl_limit s = limit" "rl_window s = window" "rl_events s = []" "0 < limit"
    using assms(1) by (auto simp: new_limiter_def split: if_splits)
  have "limiter_inv s key (snd c) []" using s by (simp add: limiter_inv_def in_window_def limiter_events_def)
  then have "in_window s a ([] @ allowed_times key (allow_run s cs)) \<le> rl_limit s"
    by (rule allow_run_inv) (use assms(2) Cons in simp)
  then show ?thesis by (simp add: in_window_def s)
qed

theorem rate_limit_window_witness:
  "int (length (filter (\<lambda>t. 0 < t \<and> t \<le> 0 + 10)
     (allowed_times ''k'' (allow_run \<lparr>rl_limit = 2, rl_window = 10, rl_events = []\<rparr>
       [(''k'', 1), (''j'', 2), (''k'', 3), (''k'', 4), (''k'', 12)])))) \<le> 2"
  by (rule rate_limit_window) (simp_all add: new_limiter_def)

subsection \<open>Protective levels\<close>

lemma dabs_units:
  assumes "fine x" "\<bar>units x\<bar> < 10 ^ prec"
  shows "fine (dabs x) \<and> units (dabs x) = \<bar>units x\<bar>"
proof -
  have "\<bar>signed (dsign x) (dcoef x) * 10 ^ nat (dexp x + 8)\<bar> < 10 ^ prec"
    using assms(2) by (simp add: units_def scaled_def)
  then have "nat \<bar>signed (dsign x) (dcoef x)\<bar> < 10 ^ prec" by (rule small_scaled)
  then have "dcoef x < 10 ^ prec" by (auto simp: signed_def split: if_splits)
  then have "dabs x = Fin False (dcoef x) (dexp x)" by (simp add: dabs_def dfix_small prec_digits)
  with assms(1) show ?thesis by (simp add: fine_def units_def scaled_def signed_def abs_mult)
qed

text \<open>For ledger prices the distance of a level from the reference is exact, so the oriented level is the
  reference moved by exactly that distance, down or up.\<close>

lemma oriented_units:
  assumes "ledger_money r" "ledger_money p"
  shows "fine (dsub r (dabs (dsub r p))) \<and> units (dsub r (dabs (dsub r p))) = units r - \<bar>units r - units p\<bar>"
    "fine (dadd r (dabs (dsub p r))) \<and> units (dadd r (dabs (dsub p r))) = units r + \<bar>units p - units r\<bar>"
    "fine (dadd r (dabs (dsub r p))) \<and> units (dadd r (dabs (dsub r p))) = units r + \<bar>units r - units p\<bar>"
    "fine (dsub r (dabs (dsub p r))) \<and> units (dsub r (dabs (dsub p r))) = units r - \<bar>units p - units r\<bar>"
proof -
  have b: "fine r" "fine p" "\<bar>units r\<bar> < 10 ^ 23" "\<bar>units p\<bar> < 10 ^ 23"
    using assms by (simp_all add: ledger_money_def)
  have d: "fine (dsub r p) \<and> units (dsub r p) = units r - units p" "fine (dsub p r) \<and> units (dsub p r) = units p - units r"
    by (rule dsub_units; use b in \<open>simp add: prec_def\<close>)+
  have a: "fine (dabs (dsub r p)) \<and> units (dabs (dsub r p)) = \<bar>units r - units p\<bar>"
    "fine (dabs (dsub p r)) \<and> units (dabs (dsub p r)) = \<bar>units p - units r\<bar>"
    using dabs_units [of "dsub r p"] dabs_units [of "dsub p r"] d b by (simp_all add: prec_def)
  show "fine (dsub r (dabs (dsub r p))) \<and> units (dsub r (dabs (dsub r p))) = units r - \<bar>units r - units p\<bar>"
    "fine (dsub r (dabs (dsub p r))) \<and> units (dsub r (dabs (dsub p r))) = units r - \<bar>units p - units r\<bar>"
    using dsub_units [of r "dabs (dsub r p)"] dsub_units [of r "dabs (dsub p r)"] a b by (simp_all add: prec_def)
  show "fine (dadd r (dabs (dsub p r))) \<and> units (dadd r (dabs (dsub p r))) = units r + \<bar>units p - units r\<bar>"
    "fine (dadd r (dabs (dsub r p))) \<and> units (dadd r (dabs (dsub r p))) = units r + \<bar>units r - units p\<bar>"
    using dadd_units [of r "dabs (dsub r p)"] dadd_units [of r "dabs (dsub p r)"] a b by (simp_all add: prec_def)
qed

text \<open>Levels already on their side come back with the same value, for both sides: the orientation is
  idempotent on ledger prices.\<close>

lemma orient_keeps_oriented:
  assumes "ledger_money r" "ledger_money stop" "ledger_money target" "dlt dzero r"
    and "if side = BUY then dle stop r \<and> dle r target else dle r stop \<and> dle target r"
  shows "\<exists>stop' target'. orient_protective_levels (Some side) r (Some stop) (Some target) = (Some stop', Some target')
    \<and> deq stop' stop \<and> deq target' target"
proof -
  have f: "fine r" "fine stop" "fine target" using assms(1-3) by (simp_all add: ledger_money_def)
  have "\<not> dle r dzero" using assms(4) by (simp add: dlt_dval dle_dval)
  then show ?thesis
    using assms(5) oriented_units [OF assms(1,2)] oriented_units [OF assms(1,3)] f
    by (cases side) (auto simp: orient_protective_levels_def Let_def units_order)
qed

subsection \<open>Idempotency keys\<close>

text \<open>The fields of a key are joined by bars without escaping: a bar inside an identifier makes two orders of
  different tenants and strategies share the key, whatever the digest.\<close>

lemma idempotency_key_ambiguous:
  assumes "o1 = \<lparr>oi_symbol = ''INFY'', oi_market = INDIA, oi_side = BUY, oi_quantity = 1, reference_price = Fin False 1 0,
      strategy_id = ''c'', oi_asset_class = EQUITY, tenant_id = ''a|b'', stop_price = None, take_profit_price = None,
      oi_instrument = None\<rparr>"
    and "o2 = o1\<lparr>tenant_id := ''a'', strategy_id := ''b|c''\<rparr>"
  shows "order_idempotency_key sha o1 n = order_idempotency_key sha o2 n"
  by (simp add: assms order_idempotency_key_def idempotency_text_def Let_def)

text \<open>A live order needs both approvals; a report is ready exactly when it has checks and no blocker.\<close>

lemma live_needs_both: "cc_mode c = LIVE_MODE \<Longrightarrow> execution_allowed c \<longleftrightarrow> cc_live_approved c \<and> cc_jurisdiction_approved c"
  by (simp add: execution_allowed_def)

lemma ready_iff_no_blockers: "report_ready cs \<longleftrightarrow> cs \<noteq> [] \<and> report_blockers cs = []"
  by (simp add: report_ready_def report_blockers_def list_all_iff filter_empty_conv)

lemma claimed_once: "claim_key key (fst (claim_key key seen)) = (fst (claim_key key seen), False)"
  by (simp add: claim_key_def)

end
