(* ===== verification/Spec2Isabelle.thy ===== *)
theory Spec2Isabelle
  imports Planner OmsTrust SettlementProps PaperAccount AiBudgetProps SaasProps LifecycleProps WardenProps CapitalProps GuardsProps
begin

text \<open>
  A verification library for the trading core of \<^verbatim>\<open>quant-ai-trading-platform\<close> (Python,
  \<^verbatim>\<open>src/quant_ai\<close>): the rules that decide what may be traded, the journals that record what was
  traded, and the meters that bound what models and tenants may spend.

  \<^bold>\<open>How the program works.\<close> A proposal of the agents becomes an order only through the risk warden,
  which asks the capital plan, the order firewall, the book firewall and the overnight limits. An
  approved order is snapshotted in canonical text, cut into slices by the planner, and recorded in the
  order-management journal, a SQLite database whose append-only event log is hash-chained and whose
  order table is a projection of it. Fills change cash and positions in the paper account and become
  double-entry transactions in the accounting journal; settlement opens and closes receivables and
  payables there. Open positions are watched by the lifecycle manager. Calls of language models pass the
  daily budget, requests of tenants the monthly cost control; small guards stand at the edges.

  \<^bold>\<open>Theories, bottom up.\<close>
  \<^item> \<open>Prelude\<close>: exceptions and results, tables keyed by a column, and the contracts the components
    share as locales: \<open>life_cycle\<close> (states that never go back; interpreted on order states),
    \<open>idempotent_store\<close> (an accepted message is a no-op when it comes again; interpreted on fills and on
    book entries), \<open>capped_meter\<close> (what is charged stays under a cap when settlements stay within their
    reservations; interpreted on the daily counters and on the monthly cost), \<open>fail_closed\<close> (a gate around
    an attempt that may raise; interpreted on the book firewall and on the overnight limits).
  \<^item> \<open>PyText\<close>, \<open>DecText\<close>, \<open>Json\<close>, \<open>Calendar\<close>: the texts of Python the sources compare and digest:
    \<open>str.strip\<close>, regular expressions as character classes, \<open>str(Decimal)\<close> and its reader, \<open>json.dumps\<close>
    with sorted keys and \<open>json.loads\<close>, \<open>isoformat\<close>; with their round trips and injectivity.
  \<^item> \<open>Decimal28\<close>, \<open>DecError\<close>, \<open>Money\<close>: \<open>decimal.Decimal\<close> under the default context of 28 digits, the
    error of a quotient, and amounts of at most eight decimals below ten to the 15, whose sums are exact.
  \<^item> \<open>Domain\<close>: \<^verbatim>\<open>domain/models.py\<close> and \<^verbatim>\<open>instruments/identity.py\<close>.
  \<^item> \<open>Planner\<close>: \<^verbatim>\<open>execution/planner.py\<close> (\<open>execution_plan\<close> and the four algorithms).
  \<^item> \<open>Orders\<close>: \<^verbatim>\<open>orders/state.py\<close>, \<^verbatim>\<open>orders/intent.py\<close>, \<^verbatim>\<open>orders/execution_identity.py\<close>.
  \<^item> \<open>OmsStore\<close>, \<open>Oms\<close>: \<^verbatim>\<open>orders/oms.py\<close>, first the tables, the event log and its replay by
    \<open>verify_oms\<close>, then the operations. \<open>OmsReplay\<close>, \<open>OmsInv\<close>, \<open>OmsVerify\<close>: the refinement of the event
    log by the tables, preserved by every operation. \<open>OmsTrust\<close>: what a successful verify certifies.
  \<^item> \<open>Journal\<close>, \<open>JournalProps\<close>, \<open>JournalTrust\<close>: \<^verbatim>\<open>accounting/journal.py\<close>. \<open>Trading\<close>:
    \<^verbatim>\<open>accounting/trading.py\<close>. \<open>Settlement\<close>, \<open>SettlementProps\<close>: \<^verbatim>\<open>accounting/settlement.py\<close>.
    \<open>PaperAccount\<close>: \<^verbatim>\<open>accounting/portfolio.py\<close>.
  \<^item> \<open>AiBudget\<close>, \<open>AiBudgetProps\<close>: \<^verbatim>\<open>llm/budget.py\<close>. \<open>Saas\<close>, \<open>SaasProps\<close>: \<^verbatim>\<open>service/saas_controls.py\<close>.
  \<^item> \<open>Lifecycle\<close>, \<open>LifecycleProps\<close>: \<^verbatim>\<open>portfolio/lifecycle.py\<close>.
  \<^item> \<open>Risk\<close>, \<open>RiskProps\<close>: \<^verbatim>\<open>risk/policy.py\<close> and \<^verbatim>\<open>execution/derivative_margin.py\<close>. \<open>Contract\<close>:
    \<^verbatim>\<open>instruments/contract.py\<close>. \<open>Capital\<close>, \<open>CapitalProps\<close>: \<^verbatim>\<open>planning/capital.py\<close> and
    \<^verbatim>\<open>portfolio/sizing.py\<close>. \<open>Warden\<close>, \<open>WardenProps\<close>: \<^verbatim>\<open>risk/warden.py\<close> and \<^verbatim>\<open>risk/overnight.py\<close>.
  \<^item> \<open>Guards\<close>, \<open>GuardsProps\<close>: \<^verbatim>\<open>security/rate_limit.py\<close>, \<^verbatim>\<open>operations/idempotency.py\<close>,
    \<^verbatim>\<open>operations/kill_switch.py\<close>, \<^verbatim>\<open>operations/readiness.py\<close>, \<^verbatim>\<open>compliance/gates.py\<close>,
    \<^verbatim>\<open>governance/escalation.py\<close>, \<^verbatim>\<open>entitlements/plans.py\<close>, \<^verbatim>\<open>usage/metering.py\<close>, \<^verbatim>\<open>risk/stops.py\<close>,
    \<^verbatim>\<open>portfolio/stops.py\<close>, \<^verbatim>\<open>portfolio/allocation.py\<close>.

  \<^bold>\<open>Conventions.\<close> A Python class is a record, an enum a datatype, an operation that may raise a
  function into \<open>exn + 'a\<close> with one branch per raise, an operation on a database a function from the
  record of its tables to the new record; a raise leaves the tables as they were, since the sources
  run each operation in one transaction. Where the sources use two transactions (the settlement book
  over its journal) the crash between them is a state of its own. Integers are unbounded, decimals are
  rounded to 28 digits half-even, strings are lists of 8-bit characters, and wider characters are
  outside the model. SHA-256 is an arbitrary function \<open>sha\<close>; a property that
  needs more concludes with a collision of two named texts. Instants are microseconds from 0001-01-01
  in UTC; a naive datetime is a value of its own, because the sources refuse it. The clock, the session
  calendar, the margin evidence, the offset of a foreign zone and the daily-close measure of the book are
  arguments.

  \<^bold>\<open>What the properties show.\<close>
  \<^item> Planning: a plan covers the order exactly, in whole lots, in order and within participation;
    volume-weighted allocation finds a plan whenever the capacity is there; with a minimum child quantity it
    may exceed one bucket (C1 to C4).
  \<^item> Orders: states never go back, snapshots round-trip, execution ids determine executions (C5 to C7).
  \<^item> The order-management journal: every run of public operations verifies, quantities are conserved also
    across replacements, a successful verify certifies any database, the log is tamper-evident,
    redelivery changes nothing, and the two ways to make verify fail for ever (C8 to C13).
  \<^item> The books: every run verifies, debits equal credits, redelivery changes nothing, an id has one
    content, a sale books exactly its profit; the settlement table matches the journal, and what a crash or
    a long id does to it; paper positions and cash (C14 to C24).
  \<^item> The meters: daily token and call limits, their refinement by the ticket table, that no ticket gets
    stuck; monthly cost, single execution and the pause after an overrun (C25 to C30).
  \<^item> Positions: exits dominate, stops never loosen, quantities are whole lots within limits (C31, C32).
  \<^item> Risk: exits are never trapped by the firewall or the warden, and what adds exposure passes only inside
    every cap, with the book measured and the overnight limits satisfied; a sized entry risks at most what the
    plan says; the rate limiter holds over every window (C33 to C40).

  \<^bold>\<open>Bounds and fuel.\<close> The JSON reader recurses with fuel the length of its input, which
  \<open>Json.loads_jprint\<close> shows to be enough for every printed value. \<open>Decimal28\<close> leaves the exponent
  unbounded. The accounting theorems bound amounts by \<open>ledger_money\<close> and the number of postings by
  ten thousand, far inside 28 digits.

  \<^bold>\<open>Not modelled.\<close> Schema migration, connections and file locks of the databases; asynchronous
  orchestration (\<^verbatim>\<open>execution/daemon.py\<close>, \<^verbatim>\<open>daemon.py\<close>, \<^verbatim>\<open>execution/institutional.py\<close>); HTTP clients,
  feeds, the command line and the API; statistical research in floating point. Next in the plan:
  \<^verbatim>\<open>orders/paper_recovery.py\<close>, the paper ledger, the shared risk reservations, the execution program, the
  broker order journal and the book risk measure.
\<close>

end
